theory Spec2Isabelle
  imports Complex_Main "HOL-Library.Sublist"
begin

section \<open>Values and helpers shared by the three versions of the map component\<close>

text \<open>
  The repository holds three versions of one React component:
  \<^item> the first multi-leg version (\<open>RideMapMultiLeg\<close>, driver \<open>\<rightarrow>\<close> user \<open>\<rightarrow>\<close> destination);
  \<^item> the vias version (\<open>RideMapWithVias\<close> in \<open>MapView.jsx\<close>, user \<open>\<rightarrow>\<close> vias \<open>\<rightarrow>\<close> destination);
  \<^item> the third, anti-jitter multi-leg version (again \<open>RideMapMultiLeg\<close>).

  A finite JavaScript number is modelled as a real number: the rounding error of IEEE
  doubles is outside the model. A point is the two-element array \<open>[lat, lon]\<close>; a state
  variable that holds \<open>null\<close> or a point is a \<open>latlng option\<close>. The state variables are
  only ever written with \<open>null\<close> or with arrays of two finite numbers, so the array and
  finiteness tests of \<open>isLatLng\<close> are carried by the type and only the \<open>null\<close> test
  remains.

  The numbers the component reads from a response body are not tested by the code: such a
  number can be finite, an infinity, or \<open>NaN\<close> (a field that is missing or not numeric
  divides to \<open>NaN\<close>). These, and what is computed from them, have the type \<open>'a number\<close>.
\<close>

datatype 'a number = Fin 'a | PosInf | NegInf | NaN

definition isFin :: "'a number \<Rightarrow> bool" where
  "isFin x = (case x of Fin _ \<Rightarrow> True | _ \<Rightarrow> False)"

type_synonym latlng = "real \<times> real"

definition isLatLng :: "latlng option \<Rightarrow> bool" where
  "isLatLng v = (case v of None \<Rightarrow> False | Some _ \<Rightarrow> True)"

definition haversineKm :: "latlng \<Rightarrow> latlng \<Rightarrow> real" where
  "haversineKm p q =
     (case p of (lat1, lon1) \<Rightarrow> case q of (lat2, lon2) \<Rightarrow>
        let R = 6371;
            dLat = ((lat2 - lat1) * pi) / 180;
            dLon = ((lon2 - lon1) * pi) / 180;
            a = (sin (dLat / 2))\<^sup>2
                + cos ((lat1 * pi) / 180) * cos ((lat2 * pi) / 180) * (sin (dLon / 2))\<^sup>2
        in 2 * R * arcsin (sqrt a))"

definition distanceMeters :: "latlng \<Rightarrow> latlng \<Rightarrow> real" where
  "distanceMeters a b = haversineKm a b * 1000"

text \<open>\<open>Math.round\<close>: the nearest integer, a tie going up.\<close>

definition jsRound :: "real \<Rightarrow> int" where
  "jsRound x = \<lfloor>x + 1 / 2\<rfloor>"

text \<open>
  The arithmetic the component applies to numbers of a response body: \<open>x / c\<close> for a
  positive constant \<open>c\<close>, \<open>Math.round(x)\<close> and \<open>Math.max(1, x)\<close>. \<open>NaN\<close> goes through all
  three.
\<close>

definition divideBy :: "real number \<Rightarrow> real \<Rightarrow> real number" where
  "divideBy x c = (case x of Fin r \<Rightarrow> Fin (r / c) | PosInf \<Rightarrow> PosInf | NegInf \<Rightarrow> NegInf | NaN \<Rightarrow> NaN)"

definition mathRound :: "real number \<Rightarrow> int number" where
  "mathRound x = (case x of Fin r \<Rightarrow> Fin (jsRound r) | PosInf \<Rightarrow> PosInf | NegInf \<Rightarrow> NegInf | NaN \<Rightarrow> NaN)"

definition mathMax1 :: "int number \<Rightarrow> int number" where
  "mathMax1 x = (case x of Fin n \<Rightarrow> Fin (max 1 n) | PosInf \<Rightarrow> PosInf | NegInf \<Rightarrow> Fin 1 | NaN \<Rightarrow> NaN)"

subsection \<open>Strings\<close>

text \<open>
  Strings are byte strings in UTF-8, as the source files are. The em dash of the user
  interface is the three bytes \<open>E2 80 94\<close>, the middle dot the two bytes \<open>C2 B7\<close>.
\<close>

definition emdash :: string where
  "emdash = [CHR 0xE2, CHR 0x80, CHR 0x94]"

definition middot :: string where
  "middot = [CHR 0xC2, CHR 0xB7]"

definition digit :: "nat \<Rightarrow> char" where
  "digit d = ''0123456789'' ! (d mod 10)"

fun showNat :: "nat \<Rightarrow> string" where
  "showNat n = (if n < 10 then [digit n] else showNat (n div 10) @ [digit n])"

declare showNat.simps [simp del]

text \<open>An integer-valued number in a template literal: \<open>`${n}`\<close>.\<close>

definition showInt :: "int \<Rightarrow> string" where
  "showInt i = (if i < 0 then ''-'' @ showNat (nat (- i)) else showNat (nat i))"

text \<open>
  \<open>x.toFixed(2)\<close>: the sign, then the integer nearest to \<open>100 * |x|\<close> (a tie going to the
  larger one) printed with two fraction digits. (For \<open>|x| \<ge> 10^21\<close> JavaScript switches
  to exponent notation; no distance on Earth comes near.)
\<close>

definition toFixed2 :: "real \<Rightarrow> string" where
  "toFixed2 x =
     (let n = nat \<lfloor>\<bar>x\<bar> * 100 + 1 / 2\<rfloor>
      in (if x < 0 then ''-'' else '''')
         @ showNat (n div 100) @ ''.'' @ [digit (n div 10), digit n])"

text \<open>\<open>toFixed(2)\<close> on a number of a response body.\<close>

definition numToFixed2 :: "real number \<Rightarrow> string" where
  "numToFixed2 x =
     (case x of Fin r \<Rightarrow> toFixed2 r | PosInf \<Rightarrow> ''Infinity'' | NegInf \<Rightarrow> ''-Infinity'' | NaN \<Rightarrow> ''NaN'')"

text \<open>\<open>Number(x.toFixed(5))\<close> as used by \<open>roundGPS\<close>: \<open>x\<close> rounded to five decimals.\<close>

definition toFixed5 :: "real \<Rightarrow> real" where
  "toFixed5 x = (if x < 0 then - 1 else 1) * real_of_int \<lfloor>\<bar>x\<bar> * 100000 + 1 / 2\<rfloor> / 100000"

definition roundGPS :: "latlng \<Rightarrow> latlng" where
  "roundGPS p = (case p of (lat, lon) \<Rightarrow> (toFixed5 lat, toFixed5 lon))"

text \<open>
  The estimate of both fallback effects: \<open>Math.max(1, Math.round((dKm / 25) * 60))\<close>,
  where \<open>dKm\<close> is computed from valid points and so is finite; and the one taken from a
  route: \<open>Math.max(1, Math.round(r.duration / 60))\<close>.
\<close>

definition fallbackEta :: "real \<Rightarrow> int number" where
  "fallbackEta dKm = mathMax1 (mathRound (Fin ((dKm / 25) * 60)))"

definition routeEta :: "real number \<Rightarrow> int number" where
  "routeEta dur = mathMax1 (mathRound (divideBy dur 60))"

subsection \<open>Template literals and request URLs\<close>

text \<open>
  A template literal is kept as its pieces: literal text and interpolated numbers. How
  JavaScript prints a number (\<open>Number::toString\<close>) is a parameter of \<open>render\<close>.
\<close>

datatype piece = Lit string | Num real

type_synonym template = "piece list"

fun renderPiece :: "(real \<Rightarrow> string) \<Rightarrow> piece \<Rightarrow> string" where
  "renderPiece fmt (Lit s) = s"
| "renderPiece fmt (Num x) = fmt x"

definition render :: "(real \<Rightarrow> string) \<Rightarrow> template \<Rightarrow> string" where
  "render fmt t = concat (map (renderPiece fmt) t)"

text \<open>The URL of \<open>fetchLeg\<close>, the same text in the first and the third version.\<close>

definition legUrl :: "latlng \<Rightarrow> latlng \<Rightarrow> template" where
  "legUrl from to =
     (let coords = [Num (snd from), Lit '','', Num (fst from), Lit '';'',
                    Num (snd to), Lit '','', Num (fst to)]
      in [Lit ''https://router.project-osrm.org/route/v1/driving/''] @ coords
         @ [Lit ''?overview=full&geometries=geojson&alternatives=false&steps=false&continue_straight=true''])"

text \<open>
  \<open>encodeURIComponent\<close> on a byte string: the unreserved characters stay, every other
  byte becomes \<open>%XX\<close>.
\<close>

definition hexDigit :: "nat \<Rightarrow> char" where
  "hexDigit d = ''0123456789ABCDEF'' ! (d mod 16)"

definition unreserved :: "char \<Rightarrow> bool" where
  "unreserved c =
     (c \<in> set ''ABCDEFGHIJKLMNOPQRSTUVWXYZabcdefghijklmnopqrstuvwxyz0123456789-_.!~*()''
      \<or> c = CHR 0x27)"

definition encodeURIComponent :: "string \<Rightarrow> string" where
  "encodeURIComponent s =
     concat (map (\<lambda>c. if unreserved c then [c]
                       else [CHR ''%'', hexDigit (of_char c div 16), hexDigit (of_char c)]) s)"

text \<open>\<open>xs.join(sep)\<close> on strings and on templates.\<close>

fun join :: "'a list \<Rightarrow> 'a list list \<Rightarrow> 'a list" where
  "join sep [] = []"
| "join sep [x] = x"
| "join sep (x # y # ys) = x @ sep @ join sep (y # ys)"

text \<open>
  \<open>buildRouteUrl\<close> of the vias version, for valid points (with an invalid point it
  returns \<open>null\<close>, and then the effect issues nothing).
\<close>

definition buildRouteUrl :: "latlng \<Rightarrow> latlng list \<Rightarrow> latlng \<Rightarrow> bool \<Rightarrow> bool \<Rightarrow> bool \<Rightarrow> template" where
  "buildRouteUrl position vias dest avoidMotorway avoidFerry avoidToll =
     (let all = [position] @ vias @ [dest];
          coordsStr = join [Lit '';''] (map (\<lambda>(lat, lon). [Num lon, Lit '','', Num lat]) all);
          exclude = join '','' ((if avoidMotorway then [''motorway''] else [])
                               @ (if avoidFerry then [''ferry''] else [])
                               @ (if avoidToll then [''toll''] else []))
      in [Lit ''https://router.project-osrm.org/route/v1/driving/''] @ coordsStr
         @ [Lit ''?overview=full&geometries=geojson&steps=false&alternatives=false&continue_straight=true'']
         @ (if exclude \<noteq> [] then [Lit (''&exclude='' @ encodeURIComponent exclude)] else []))"

subsection \<open>What a route request can come back with\<close>

text \<open>
  A route of the response, with the fields the component reads: the geometry's
  coordinates (as \<open>[lon, lat]\<close>), and \<open>distance\<close> (metres) and \<open>duration\<close> (seconds) as the
  numbers they are in \<open>r.distance / 1000\<close> and \<open>r.duration / 60\<close>. OSRM sends finite
  numbers; the component does not test them.
\<close>

record route =
  coordinates :: "(real \<times> real) list"
  distance :: "real number"
  duration :: "real number"

text \<open>
  The ways a request settles: \<open>fetch\<close> (or reading the body, or reading the geometry of a
  route that has none) throws an error with a name and a message; the response is not OK,
  with its status and the text found in its body; or the response is OK, with the
  \<open>routes\<close> array of its body.
\<close>

datatype outcome =
    Rejected string string
  | NotOk nat string
  | Body "route list"

datatype jsError = JsError (errName: string) (errMessage: string)

text \<open>
  The body of the \<open>try\<close> block up to the route \<open>r\<close>: what is thrown, or the first route.
\<close>

definition awaitRoute :: "outcome \<Rightarrow> jsError + route" where
  "awaitRoute out =
     (case out of
        Rejected n m \<Rightarrow> Inl (JsError n m)
      | NotOk status msg \<Rightarrow>
          Inl (JsError ''Error'' (''OSRM '' @ showNat status @ (if msg \<noteq> [] then '': '' @ msg else [])))
      | Body routes \<Rightarrow>
          (case routes of
             [] \<Rightarrow> Inl (JsError ''Error'' ''No route found'')
           | r # _ \<Rightarrow> Inr r))"

text \<open>\<open>r.geometry.coordinates.map(([lon, lat]) => [lat, lon])\<close>\<close>

definition pathOf :: "route \<Rightarrow> latlng list" where
  "pathOf r = map (\<lambda>(lon, lat). (lat, lon)) (coordinates r)"

text \<open>\<open>(e?.message || "Route fetch failed") + ending\<close>\<close>

definition failureText :: "jsError \<Rightarrow> string \<Rightarrow> string" where
  "failureText e ending = (if errMessage e \<noteq> [] then errMessage e else ''Route fetch failed'') @ ending"

definition estimateSuffix :: string where
  "estimateSuffix = '' '' @ emdash @ '' showing straight-line estimate.''"

definition straightLineSuffix :: string where
  "straightLineSuffix = '' '' @ emdash @ '' showing straight-line.''"

section \<open>The state of the multi-leg versions\<close>

datatype leg = DU | UD

datatype tapTarget = Driver | Dest

text \<open>A pending \<open>setTimeout\<close> of the routing effect: when it is due and the call it makes.\<close>

record timer =
  due :: int
  t_leg :: leg
  t_from :: "latlng option"
  t_to :: "latlng option"

text \<open>
  A call of \<open>fetch\<close>: the leg it is for, the URL, and the abort signal passed to it, named
  by its controller (none in the first version).
\<close>

record fetchCall =
  fc_leg :: leg
  fc_url :: template
  fc_signal :: "nat option"

text \<open>
  The state variables of the first version, and with them the environment the component
  runs in: the clock (\<open>Date.now()\<close>, in milliseconds), whether the geolocation watch is
  registered, the pending timers, every \<open>fetch\<close> call made so far and the calls still in
  flight. \<open>kmDU\<close> and \<open>kmUD\<close> hold the strings that \<open>toFixed(2)\<close> returns.
\<close>

record state1 =
  position :: "latlng option"
  accuracy :: "real option"
  driver :: "latlng option"
  dest :: "latlng option"
  routeDU :: "latlng list"
  routeUD :: "latlng list"
  kmDU :: "string option"
  minDU :: "int number option"
  kmUD :: "string option"
  minUD :: "int number option"
  loadingDU :: bool
  loadingUD :: bool
  error :: string
  tapMode :: "tapTarget option"
  clock :: int
  watching :: bool
  timers :: "timer list"
  requests :: "fetchCall list"
  inflight :: "fetchCall list"

text \<open>
  The third version adds the follow flag, the \<open>movedRef\<close> of \<open>TapToSet\<close>, the last routed
  endpoints and time of each leg, and the abort controller of each leg. A controller is
  an object; it is named by a number, \<open>aborted\<close> holds the controllers whose \<open>abort()\<close> has
  been called and \<open>nextController\<close> the name of the next \<open>new AbortController()\<close>.
\<close>

record lastRouted =
  rec_from :: "latlng option"
  rec_to :: "latlng option"
  rec_ts :: int

record state3 = state1 +
  follow :: bool
  movedRef :: bool
  lastDU :: lastRouted
  lastUD :: lastRouted
  abortDU :: "nat option"
  abortUD :: "nat option"
  aborted :: "nat set"
  nextController :: nat

subsection \<open>Setters that take the leg\<close>

definition setLoading :: "leg \<Rightarrow> bool \<Rightarrow> ('a state1_scheme) \<Rightarrow> ('a state1_scheme)" where
  "setLoading l b s = (case l of DU \<Rightarrow> s\<lparr>loadingDU := b\<rparr> | UD \<Rightarrow> s\<lparr>loadingUD := b\<rparr>)"

text \<open>The three setters called when a route has arrived.\<close>

definition applyRoute :: "leg \<Rightarrow> route \<Rightarrow> ('a state1_scheme) \<Rightarrow> ('a state1_scheme)" where
  "applyRoute l r s =
     (case l of
        DU \<Rightarrow> s\<lparr>routeDU := pathOf r,
                 kmDU := Some (numToFixed2 (divideBy (distance r) 1000)),
                 minDU := Some (routeEta (duration r))\<rparr>
      | UD \<Rightarrow> s\<lparr>routeUD := pathOf r,
                 kmUD := Some (numToFixed2 (divideBy (distance r) 1000)),
                 minUD := Some (routeEta (duration r))\<rparr>)"

definition removeAt :: "nat \<Rightarrow> 'a list \<Rightarrow> 'a list" where
  "removeAt k xs = take k xs @ drop (Suc k) xs"

text \<open>\<open>err.message || "Unable to get location"\<close>\<close>

definition gpsErrorText :: "string \<Rightarrow> string" where
  "gpsErrorText msg = (if msg \<noteq> [] then msg else ''Unable to get location'')"

text \<open>The button of a tap mode: \<open>setTapMode(tapMode === m ? null : m)\<close>.\<close>

definition toggleTap :: "tapTarget \<Rightarrow> ('a state1_scheme) \<Rightarrow> ('a state1_scheme)" where
  "toggleTap m s = s\<lparr>tapMode := (if tapMode s = Some m then None else Some m)\<rparr>"

section \<open>The first version\<close>

text \<open>The two fallback effects; both clear the polyline of their leg.\<close>

definition fallbackDU1 :: "state1 \<Rightarrow> state1" where
  "fallbackDU1 s =
     (if isLatLng (driver s) \<and> isLatLng (position s) then
        let dKm = haversineKm (the (driver s)) (the (position s));
            eta = fallbackEta dKm
        in s\<lparr>kmDU := Some (toFixed2 dKm), minDU := Some eta, routeDU := []\<rparr>
      else s\<lparr>kmDU := None, minDU := None, routeDU := []\<rparr>)"

definition fallbackUD1 :: "state1 \<Rightarrow> state1" where
  "fallbackUD1 s =
     (if isLatLng (position s) \<and> isLatLng (dest s) then
        let dKm = haversineKm (the (position s)) (the (dest s));
            eta = fallbackEta dKm
        in s\<lparr>kmUD := Some (toFixed2 dKm), minUD := Some eta, routeUD := []\<rparr>
      else s\<lparr>kmUD := None, minUD := None, routeUD := []\<rparr>)"

text \<open>
  The routing effect runs when \<open>driver\<close>, \<open>position\<close> or \<open>dest\<close> has changed. The cleanup
  of its previous run clears the two timers of that run, the only ones that can be
  pending; then two new timers are set, 300 ms ahead, with the current values.
\<close>

definition DEBOUNCE1 :: int where
  "DEBOUNCE1 = 300"

definition routingEffect1 :: "state1 \<Rightarrow> state1" where
  "routingEffect1 s =
     (let cleaned = s\<lparr>timers := []\<rparr>;
          t1 = \<lparr>due = clock s + DEBOUNCE1, t_leg = DU, t_from = driver s, t_to = position s\<rparr>;
          t2 = \<lparr>due = clock s + DEBOUNCE1, t_leg = UD, t_from = position s, t_to = dest s\<rparr>
      in cleaned\<lparr>timers := [t1, t2]\<rparr>)"

text \<open>\<open>fetchLeg\<close> up to its \<open>await fetch(url)\<close>.\<close>

definition fetchLeg1 :: "leg \<Rightarrow> latlng option \<Rightarrow> latlng option \<Rightarrow> state1 \<Rightarrow> state1" where
  "fetchLeg1 l from to s =
     (if \<not> isLatLng from \<or> \<not> isLatLng to then s
      else
        let s1 = setLoading l True s;
            call = \<lparr>fc_leg = l, fc_url = legUrl (the from) (the to), fc_signal = None\<rparr>
        in s1\<lparr>requests := requests s1 @ [call], inflight := inflight s1 @ [call]\<rparr>)"

text \<open>\<open>fetchLeg\<close> from the point where the request settles: \<open>try\<close>, \<open>catch\<close>, \<open>finally\<close>.\<close>

definition settleLeg1 :: "leg \<Rightarrow> outcome \<Rightarrow> state1 \<Rightarrow> state1" where
  "settleLeg1 l out s =
     setLoading l False
       (case awaitRoute out of
          Inr r \<Rightarrow> applyRoute l r s
        | Inl e \<Rightarrow> s\<lparr>error := failureText e estimateSuffix\<rparr>)"

text \<open>The click handler of the Clear button.\<close>

definition clear1 :: "state1 \<Rightarrow> state1" where
  "clear1 s =
     s\<lparr>driver := None, dest := None, routeDU := [], routeUD := [],
       kmDU := None, kmUD := None, minDU := None, minUD := None, error := ''''\<rparr>"

text \<open>
  What happens in the component and around it. The positions of a GPS fix and of a
  click are fresh arrays, so the effects that depend on them run again; \<open>null\<close> written
  over \<open>null\<close> changes nothing and runs no effect.
\<close>

datatype event =
    GpsFix real real real
  | GpsError string
  | PressSetDriver
  | PressSetDest
  | MapClick real real
  | DragStart
  | ZoomStart
  | MoveEnd
  | PressFollow
  | PressClear
  | Elapse nat
  | TimerFires nat
  | Settles nat outcome

text \<open>
  The effects after a render, in the order of their declaration, each if one of its
  dependencies has changed.
\<close>

definition effects1 :: "bool \<Rightarrow> bool \<Rightarrow> bool \<Rightarrow> state1 \<Rightarrow> state1" where
  "effects1 driverChanged positionChanged destChanged s =
     (let s1 = (if driverChanged \<or> positionChanged then fallbackDU1 s else s);
          s2 = (if positionChanged \<or> destChanged then fallbackUD1 s1 else s1)
      in if driverChanged \<or> positionChanged \<or> destChanged then routingEffect1 s2 else s2)"

text \<open>
  Without a position the component renders only the request for location access: there
  is no map to click and no button to press.
\<close>

definition step1 :: "state1 \<Rightarrow> event \<Rightarrow> state1" where
  "step1 s e =
     (case e of
        GpsFix lat lon acc \<Rightarrow>
          if watching s
          then effects1 False True False
                 (s\<lparr>error := '''', position := Some (lat, lon), accuracy := Some acc\<rparr>)
          else s
      | GpsError msg \<Rightarrow> if watching s then s\<lparr>error := gpsErrorText msg\<rparr> else s
      | PressSetDriver \<Rightarrow> if position s = None then s else toggleTap Driver s
      | PressSetDest \<Rightarrow> if position s = None then s else toggleTap Dest s
      | MapClick lat lng \<Rightarrow>
          if position s = None then s
          else (case tapMode s of
                  None \<Rightarrow> s
                | Some Driver \<Rightarrow> effects1 True False False (s\<lparr>driver := Some (lat, lng), tapMode := None\<rparr>)
                | Some Dest \<Rightarrow> effects1 False False True (s\<lparr>dest := Some (lat, lng), tapMode := None\<rparr>))
      | PressClear \<Rightarrow>
          if position s = None then s
          else effects1 (driver s \<noteq> None) False (dest s \<noteq> None) (clear1 s)
      | Elapse d \<Rightarrow> s\<lparr>clock := clock s + int d\<rparr>
      | TimerFires k \<Rightarrow>
          if k < length (timers s) \<and> due (timers s ! k) \<le> clock s
          then let t = timers s ! k
               in fetchLeg1 (t_leg t) (t_from t) (t_to t) (s\<lparr>timers := removeAt k (timers s)\<rparr>)
          else s
      | Settles k out \<Rightarrow>
          if k < length (inflight s)
          then settleLeg1 (fc_leg (inflight s ! k)) out (s\<lparr>inflight := removeAt k (inflight s)\<rparr>)
          else s
      | _ \<Rightarrow> s)"

text \<open>
  The component after mounting at time \<open>t0\<close>: the initial values of \<open>useState\<close>, then the
  effects of the first render. Without the geolocation API no watch is registered.
\<close>

definition mount1 :: "bool \<Rightarrow> int \<Rightarrow> state1" where
  "mount1 geo t0 =
     effects1 True True True
       \<lparr>position = None, accuracy = None, driver = None, dest = None,
        routeDU = [], routeUD = [], kmDU = None, minDU = None, kmUD = None, minUD = None,
        loadingDU = False, loadingUD = False,
        error = (if geo then '''' else ''Geolocation not supported.''),
        tapMode = None, clock = t0, watching = geo, timers = [], requests = [], inflight = []\<rparr>"

definition run1 :: "state1 \<Rightarrow> event list \<Rightarrow> state1" where
  "run1 s es = foldl step1 s es"

section \<open>The third version\<close>

definition MIN_MOVE_M :: real where
  "MIN_MOVE_M = 30"

definition MIN_FETCH_INTERVAL_MS :: int where
  "MIN_FETCH_INTERVAL_MS = 5000"

definition DEBOUNCE3 :: int where
  "DEBOUNCE3 = 350"

text \<open>A distance, or the \<open>Infinity\<close> that \<open>fetchLeg\<close> takes when nothing was routed before.\<close>

datatype distChange = Metres real | Infinity

fun lessThanMetres :: "distChange \<Rightarrow> real \<Rightarrow> bool" where
  "lessThanMetres (Metres d) m = (d < m)"
| "lessThanMetres Infinity m = False"

definition lastOf :: "leg \<Rightarrow> state3 \<Rightarrow> lastRouted" where
  "lastOf l s = (case l of DU \<Rightarrow> lastDU s | UD \<Rightarrow> lastUD s)"

definition abortOf :: "leg \<Rightarrow> state3 \<Rightarrow> nat option" where
  "abortOf l s = (case l of DU \<Rightarrow> abortDU s | UD \<Rightarrow> abortUD s)"

definition setLast :: "leg \<Rightarrow> lastRouted \<Rightarrow> state3 \<Rightarrow> state3" where
  "setLast l r s = (case l of DU \<Rightarrow> s\<lparr>lastDU := r\<rparr> | UD \<Rightarrow> s\<lparr>lastUD := r\<rparr>)"

definition setAbort :: "leg \<Rightarrow> nat option \<Rightarrow> state3 \<Rightarrow> state3" where
  "setAbort l c s = (case l of DU \<Rightarrow> s\<lparr>abortDU := c\<rparr> | UD \<Rightarrow> s\<lparr>abortUD := c\<rparr>)"

text \<open>\<open>ref.current?.abort()\<close>: the controller held by the reference, if any, is aborted.\<close>

definition abortCurrent :: "nat option \<Rightarrow> state3 \<Rightarrow> state3" where
  "abortCurrent c s = (case c of None \<Rightarrow> s | Some k \<Rightarrow> s\<lparr>aborted := insert k (aborted s)\<rparr>)"

text \<open>The two fallback effects; they leave the polylines alone.\<close>

definition fallbackDU3 :: "state3 \<Rightarrow> state3" where
  "fallbackDU3 s =
     (if isLatLng (driver s) \<and> isLatLng (position s) then
        let dKm = haversineKm (the (driver s)) (the (position s))
        in s\<lparr>kmDU := Some (toFixed2 dKm), minDU := Some (fallbackEta dKm)\<rparr>
      else s\<lparr>kmDU := None, minDU := None\<rparr>)"

definition fallbackUD3 :: "state3 \<Rightarrow> state3" where
  "fallbackUD3 s =
     (if isLatLng (position s) \<and> isLatLng (dest s) then
        let dKm = haversineKm (the (position s)) (the (dest s))
        in s\<lparr>kmUD := Some (toFixed2 dKm), minUD := Some (fallbackEta dKm)\<rparr>
      else s\<lparr>kmUD := None, minUD := None\<rparr>)"

text \<open>The routing effect: as in the first version, with timers 350 ms ahead.\<close>

definition routingEffect3 :: "state3 \<Rightarrow> state3" where
  "routingEffect3 s =
     (let cleaned = s\<lparr>timers := []\<rparr>;
          t1 = \<lparr>due = clock s + DEBOUNCE3, t_leg = DU, t_from = driver s, t_to = position s\<rparr>;
          t2 = \<lparr>due = clock s + DEBOUNCE3, t_leg = UD, t_from = position s, t_to = dest s\<rparr>
      in cleaned\<lparr>timers := [t1, t2]\<rparr>)"

text \<open>
  \<open>fetchLeg\<close> up to its \<open>await fetch(url, { signal })\<close>: the validity test, the rate and
  distance gate, the abort of the previous controller, the new controller, the record of
  what is routed, the loading flag and the call itself.
\<close>

definition gateDistance :: "lastRouted \<Rightarrow> latlng \<Rightarrow> latlng \<Rightarrow> distChange" where
  "gateDistance rec from to =
     (if isLatLng (rec_from rec) \<and> isLatLng (rec_to rec)
      then Metres (max (distanceMeters (the (rec_from rec)) from) (distanceMeters (the (rec_to rec)) to))
      else Infinity)"

definition fetchLeg3 :: "leg \<Rightarrow> latlng option \<Rightarrow> latlng option \<Rightarrow> state3 \<Rightarrow> state3" where
  "fetchLeg3 l from to s =
     (if \<not> isLatLng from \<or> \<not> isLatLng to then s
      else
        let now = clock s;
            rec = lastOf l s;
            distChange = gateDistance rec (the from) (the to)
        in if now - rec_ts rec < MIN_FETCH_INTERVAL_MS \<and> lessThanMetres distChange MIN_MOVE_M then s
           else
             let s1 = abortCurrent (abortOf l s) s;
                 controller = nextController s1;
                 s2 = setAbort l (Some controller) (s1\<lparr>nextController := Suc controller\<rparr>);
                 s3 = setLast l \<lparr>rec_from = from, rec_to = to, rec_ts = now\<rparr> s2;
                 s4 = setLoading l True s3;
                 call = \<lparr>fc_leg = l, fc_url = legUrl (the from) (the to), fc_signal = Some controller\<rparr>
             in s4\<lparr>requests := requests s4 @ [call], inflight := inflight s4 @ [call]\<rparr>)"

text \<open>
  \<open>fetchLeg\<close> from the point where the request settles. \<open>controller\<close> is the one this
  call created (every call of the third version passes a signal); \<open>finally\<close> runs on
  every path.
\<close>

definition settleLeg3 :: "leg \<Rightarrow> nat \<Rightarrow> outcome \<Rightarrow> state3 \<Rightarrow> state3" where
  "settleLeg3 l controller out s =
     setLoading l False
       (case awaitRoute out of
          Inr r \<Rightarrow>
            let stillLatest = (abortOf l s = Some controller)
            in if \<not> stillLatest then s else applyRoute l r s
        | Inl e \<Rightarrow>
            if errName e = ''AbortError'' then s
            else s\<lparr>error := failureText e estimateSuffix\<rparr>)"

text \<open>The click handler of the Clear button.\<close>

definition clear3 :: "state3 \<Rightarrow> state3" where
  "clear3 s =
     (let s1 = s\<lparr>driver := None, dest := None, kmDU := None, kmUD := None,
                 minDU := None, minUD := None, error := '''', follow := True,
                 routeDU := [], routeUD := [],
                 lastDU := \<lparr>rec_from = None, rec_to = None, rec_ts = 0\<rparr>,
                 lastUD := \<lparr>rec_from = None, rec_to = None, rec_ts = 0\<rparr>\<rparr>
      in abortCurrent (abortUD s1) (abortCurrent (abortDU s1) s1))"

definition effects3 :: "bool \<Rightarrow> bool \<Rightarrow> bool \<Rightarrow> state3 \<Rightarrow> state3" where
  "effects3 driverChanged positionChanged destChanged s =
     (let s1 = (if driverChanged \<or> positionChanged then fallbackDU3 s else s);
          s2 = (if positionChanged \<or> destChanged then fallbackUD3 s1 else s1)
      in if driverChanged \<or> positionChanged \<or> destChanged then routingEffect3 s2 else s2)"

text \<open>
  The events of the third version. A drag or zoom sets \<open>movedRef\<close> and ends follow mode;
  clicks are ignored while \<open>movedRef\<close> is set; the Follow button exists only while follow
  mode is off.
\<close>

definition step3 :: "state3 \<Rightarrow> event \<Rightarrow> state3" where
  "step3 s e =
     (case e of
        GpsFix lat lon acc \<Rightarrow>
          if watching s
          then effects3 False True False
                 (s\<lparr>error := '''', position := Some (roundGPS (lat, lon)), accuracy := Some acc\<rparr>)
          else s
      | GpsError msg \<Rightarrow> if watching s then s\<lparr>error := gpsErrorText msg\<rparr> else s
      | PressSetDriver \<Rightarrow> if position s = None then s else toggleTap Driver s
      | PressSetDest \<Rightarrow> if position s = None then s else toggleTap Dest s
      | MapClick lat lng \<Rightarrow>
          if position s = None then s
          else if tapMode s = None \<or> movedRef s then s
          else (case tapMode s of
                  None \<Rightarrow> s
                | Some Driver \<Rightarrow> effects3 True False False (s\<lparr>driver := Some (lat, lng), tapMode := None\<rparr>)
                | Some Dest \<Rightarrow> effects3 False False True (s\<lparr>dest := Some (lat, lng), tapMode := None\<rparr>))
      | DragStart \<Rightarrow> if position s = None then s else s\<lparr>movedRef := True, follow := False\<rparr>
      | ZoomStart \<Rightarrow> if position s = None then s else s\<lparr>movedRef := True, follow := False\<rparr>
      | MoveEnd \<Rightarrow> if position s = None then s else s\<lparr>movedRef := False\<rparr>
      | PressFollow \<Rightarrow> if position s = None \<or> follow s then s else s\<lparr>follow := True\<rparr>
      | PressClear \<Rightarrow>
          if position s = None then s
          else effects3 (driver s \<noteq> None) False (dest s \<noteq> None) (clear3 s)
      | Elapse d \<Rightarrow> s\<lparr>clock := clock s + int d\<rparr>
      | TimerFires k \<Rightarrow>
          if k < length (timers s) \<and> due (timers s ! k) \<le> clock s
          then let t = timers s ! k
               in fetchLeg3 (t_leg t) (t_from t) (t_to t) (s\<lparr>timers := removeAt k (timers s)\<rparr>)
          else s
      | Settles k out \<Rightarrow>
          if k < length (inflight s)
          then let call = inflight s ! k
               in (case fc_signal call of
                     None \<Rightarrow> s
                   | Some controller \<Rightarrow>
                       settleLeg3 (fc_leg call) controller out (s\<lparr>inflight := removeAt k (inflight s)\<rparr>))
          else s)"

definition mount3 :: "bool \<Rightarrow> int \<Rightarrow> state3" where
  "mount3 geo t0 =
     effects3 True True True
       \<lparr>position = None, accuracy = None, driver = None, dest = None,
        routeDU = [], routeUD = [], kmDU = None, minDU = None, kmUD = None, minUD = None,
        loadingDU = False, loadingUD = False,
        error = (if geo then '''' else ''Geolocation not supported.''),
        tapMode = None, clock = t0, watching = geo, timers = [], requests = [], inflight = [],
        follow = True, movedRef = False,
        lastDU = \<lparr>rec_from = None, rec_to = None, rec_ts = 0\<rparr>,
        lastUD = \<lparr>rec_from = None, rec_to = None, rec_ts = 0\<rparr>,
        abortDU = None, abortUD = None, aborted = {}, nextController = 0\<rparr>"

definition run3 :: "state3 \<Rightarrow> event list \<Rightarrow> state3" where
  "run3 s es = foldl step3 s es"

text \<open>
  What \<open>fetch\<close> guarantees about an abort signal: once \<open>abort()\<close> has been called on the
  controller, neither \<open>fetch\<close> nor the reading of an OK body completes; they reject. So
  no body is delivered to a call whose controller is aborted.
\<close>

definition honoursAbort :: "state3 \<Rightarrow> event \<Rightarrow> bool" where
  "honoursAbort s e =
     (case e of
        Settles k (Body routes) \<Rightarrow>
          (if k < length (inflight s)
           then (case fc_signal (inflight s ! k) of None \<Rightarrow> True | Some c \<Rightarrow> c \<notin> aborted s)
           else True)
      | _ \<Rightarrow> True)"

fun feasible3 :: "state3 \<Rightarrow> event list \<Rightarrow> bool" where
  "feasible3 s [] = True"
| "feasible3 s (e # es) = (honoursAbort s e \<and> feasible3 (step3 s e) es)"

section \<open>The vias version\<close>

text \<open>
  A pending timer of the routing effect: when it is due, the run of the effect that set
  it, and the URL that run built.
\<close>

record timerV =
  dueV :: int
  tv_run :: nat
  tv_url :: template

text \<open>
  The state variables of \<open>RideMapWithVias\<close> and its environment. Every run of the routing
  effect that gets past its guards has a \<open>canceled\<close> variable of its own; a run is named
  by a number, \<open>canceledRuns\<close> holds the runs whose variable has been set to \<open>true\<close>, and
  \<open>cleanupV\<close> names the run whose cleanup function React holds. \<open>inflightV\<close> lists, for
  each \<open>fetch\<close> awaited, the run that made it.
\<close>

record stateV =
  positionV :: "latlng option"
  accuracyV :: "real option"
  destV :: "latlng option"
  vias :: "latlng list"
  routeCoords :: "latlng list"
  distanceKm :: "string option"
  durationMin :: "int number option"
  loading :: bool
  errorV :: string
  avoidMotorway :: bool
  avoidFerry :: bool
  avoidToll :: bool
  clockV :: int
  watchingV :: bool
  timersV :: "timerV list"
  canceledRuns :: "nat set"
  cleanupV :: "nat option"
  nextRun :: nat
  requestsV :: "template list"
  inflightV :: "nat list"

text \<open>
  The loop of the fallback effect:
  \<open>for (let i = 0; i < pts.length - 1; i++) km += haversineKm(pts[i], pts[i+1])\<close>.
\<close>

function chainKm :: "latlng list \<Rightarrow> nat \<Rightarrow> real \<Rightarrow> real" where
  "chainKm pts i km =
     (if int i < int (length pts) - 1
      then chainKm pts (Suc i) (km + haversineKm (pts ! i) (pts ! Suc i))
      else km)"
  by pat_completeness auto
termination
  by (relation "measure (\<lambda>(pts, i, km). length pts - i)") auto

declare chainKm.simps [simp del]

definition fallbackV :: "stateV \<Rightarrow> stateV" where
  "fallbackV s =
     (if \<not> isLatLng (positionV s) \<or> \<not> isLatLng (destV s) then s
      else
        let pts = [the (positionV s)] @ vias s @ [the (destV s)];
            km = chainKm pts 0 0;
            eta = fallbackEta km
        in s\<lparr>distanceKm := Some (toFixed2 km), durationMin := Some eta, routeCoords := []\<rparr>)"

definition DEBOUNCEV :: int where
  "DEBOUNCEV = 300"

text \<open>
  The routing effect. First the cleanup of the previous run, if that run returned one:
  \<open>clearTimeout(t); canceled = true\<close>. Then the body: the guards, \<open>canceled = false\<close> for
  the new run, the loading flag, the error string and the timer.
\<close>

definition runCleanupV :: "stateV \<Rightarrow> stateV" where
  "runCleanupV s =
     (case cleanupV s of
        None \<Rightarrow> s
      | Some k \<Rightarrow> s\<lparr>timersV := filter (\<lambda>t. tv_run t \<noteq> k) (timersV s),
                     canceledRuns := insert k (canceledRuns s),
                     cleanupV := None\<rparr>)"

definition routingEffectV :: "stateV \<Rightarrow> stateV" where
  "routingEffectV s =
     (let s0 = runCleanupV s
      in if \<not> isLatLng (positionV s0) \<or> \<not> isLatLng (destV s0) then s0
         else
           let url = buildRouteUrl (the (positionV s0)) (vias s0) (the (destV s0))
                       (avoidMotorway s0) (avoidFerry s0) (avoidToll s0);
               k = nextRun s0
           in s0\<lparr>loading := True, errorV := '''',
                 timersV := timersV s0 @ [\<lparr>dueV = clockV s0 + DEBOUNCEV, tv_run = k, tv_url = url\<rparr>],
                 cleanupV := Some k, nextRun := Suc k\<rparr>)"

text \<open>The timer's callback up to its \<open>await fetch(url)\<close>, and from there on.\<close>

definition fetchV :: "nat \<Rightarrow> template \<Rightarrow> stateV \<Rightarrow> stateV" where
  "fetchV k url s = s\<lparr>requestsV := requestsV s @ [url], inflightV := inflightV s @ [k]\<rparr>"

definition settleV :: "nat \<Rightarrow> outcome \<Rightarrow> stateV \<Rightarrow> stateV" where
  "settleV k out s =
     (let canceled = (k \<in> canceledRuns s)
      in case awaitRoute out of
           Inr r \<Rightarrow>
             if canceled then s
             else s\<lparr>routeCoords := pathOf r,
                    distanceKm := Some (numToFixed2 (divideBy (distance r) 1000)),
                    durationMin := Some (routeEta (duration r)),
                    loading := False\<rparr>
         | Inl e \<Rightarrow>
             if \<not> canceled then s\<lparr>errorV := failureText e straightLineSuffix, loading := False\<rparr>
             else s)"

text \<open>The click handler of \<open>TapHandler\<close>, with \<open>onSetDest\<close> and \<open>onAddVia\<close> as the component passes them.\<close>

definition click :: "bool \<Rightarrow> latlng \<Rightarrow> stateV \<Rightarrow> stateV" where
  "click shiftKey pt s = (if shiftKey then s\<lparr>vias := vias s @ [pt]\<rparr> else s\<lparr>destV := Some pt\<rparr>)"

text \<open>\<open>prev.map((p, idx) => idx === i ? [ll.lat, ll.lng] : p)\<close>\<close>

definition dragVia :: "nat \<Rightarrow> latlng \<Rightarrow> latlng list \<Rightarrow> latlng list" where
  "dragVia i pt prev = map (\<lambda>(p, idx). if idx = i then pt else p) (zip prev [0 ..< length prev])"

text \<open>The click handler of the Clear button of the bottom bar.\<close>

definition clearV :: "stateV \<Rightarrow> stateV" where
  "clearV s =
     s\<lparr>destV := None, vias := [], routeCoords := [],
       distanceKm := None, durationMin := None, errorV := ''''\<rparr>"

datatype eventV =
    GpsFixV real real real
  | GpsErrorV string
  | ClickV bool real real
  | DragViaEnd nat real real
  | ToggleAvoidMotorway
  | ToggleAvoidFerry
  | ToggleAvoidToll
  | PressClearVias
  | PressClearV
  | ElapseV nat
  | TimerFiresV nat
  | SettlesV nat outcome

text \<open>
  The fallback effect depends on \<open>position\<close>, \<open>dest\<close> and \<open>vias\<close>; the routing effect on
  these and on the three toggles.
\<close>

definition effectsV :: "bool \<Rightarrow> stateV \<Rightarrow> stateV" where
  "effectsV pointsChanged s = routingEffectV (if pointsChanged then fallbackV s else s)"

definition stepV :: "stateV \<Rightarrow> eventV \<Rightarrow> stateV" where
  "stepV s e =
     (case e of
        GpsFixV lat lon acc \<Rightarrow>
          if watchingV s
          then effectsV True (s\<lparr>errorV := '''', positionV := Some (lat, lon), accuracyV := Some acc\<rparr>)
          else s
      | GpsErrorV msg \<Rightarrow> if watchingV s then s\<lparr>errorV := gpsErrorText msg\<rparr> else s
      | ClickV shiftKey lat lng \<Rightarrow>
          if positionV s = None then s else effectsV True (click shiftKey (lat, lng) s)
      | DragViaEnd i lat lng \<Rightarrow>
          if positionV s = None \<or> \<not> i < length (vias s) then s
          else effectsV True (s\<lparr>vias := dragVia i (lat, lng) (vias s)\<rparr>)
      | ToggleAvoidMotorway \<Rightarrow>
          if positionV s = None then s else effectsV False (s\<lparr>avoidMotorway := \<not> avoidMotorway s\<rparr>)
      | ToggleAvoidFerry \<Rightarrow>
          if positionV s = None then s else effectsV False (s\<lparr>avoidFerry := \<not> avoidFerry s\<rparr>)
      | ToggleAvoidToll \<Rightarrow>
          if positionV s = None then s else effectsV False (s\<lparr>avoidToll := \<not> avoidToll s\<rparr>)
      | PressClearVias \<Rightarrow>
          if positionV s = None then s else effectsV True (s\<lparr>vias := []\<rparr>)
      | PressClearV \<Rightarrow>
          if positionV s = None \<or> destV s = None then s else effectsV True (clearV s)
      | ElapseV d \<Rightarrow> s\<lparr>clockV := clockV s + int d\<rparr>
      | TimerFiresV k \<Rightarrow>
          if k < length (timersV s) \<and> dueV (timersV s ! k) \<le> clockV s
          then let t = timersV s ! k
               in fetchV (tv_run t) (tv_url t) (s\<lparr>timersV := removeAt k (timersV s)\<rparr>)
          else s
      | SettlesV k out \<Rightarrow>
          if k < length (inflightV s)
          then settleV (inflightV s ! k) out (s\<lparr>inflightV := removeAt k (inflightV s)\<rparr>)
          else s)"

definition mountV :: "bool \<Rightarrow> int \<Rightarrow> stateV" where
  "mountV geo t0 =
     effectsV True
       \<lparr>positionV = None, accuracyV = None, destV = None, vias = [],
        routeCoords = [], distanceKm = None, durationMin = None, loading = False,
        errorV = (if geo then '''' else ''Geolocation not supported.''),
        avoidMotorway = False, avoidFerry = False, avoidToll = False,
        clockV = t0, watchingV = geo, timersV = [], canceledRuns = {}, cleanupV = None,
        nextRun = 0, requestsV = [], inflightV = []\<rparr>"

definition runV :: "stateV \<Rightarrow> eventV list \<Rightarrow> stateV" where
  "runV s es = foldl stepV s es"

section \<open>What is rendered\<close>

text \<open>
  A field of the bottom bar of the multi-leg versions:
  \<open>{km ? `${km} km` : DASH}\<close> and \<open>{min ? `${min} min` : DASH}\<close>. An empty string, the
  number 0 and \<open>NaN\<close> are falsy.
\<close>

definition truthy :: "int number \<Rightarrow> bool" where
  "truthy n = (case n of Fin k \<Rightarrow> k \<noteq> 0 | PosInf \<Rightarrow> True | NegInf \<Rightarrow> True | NaN \<Rightarrow> False)"

definition showNumber :: "int number \<Rightarrow> string" where
  "showNumber n =
     (case n of Fin k \<Rightarrow> showInt k | PosInf \<Rightarrow> ''Infinity'' | NegInf \<Rightarrow> ''-Infinity'' | NaN \<Rightarrow> ''NaN'')"

definition kmField :: "string option \<Rightarrow> string" where
  "kmField km = (case km of None \<Rightarrow> emdash | Some k \<Rightarrow> if k \<noteq> [] then k @ '' km'' else emdash)"

definition minField :: "int number option \<Rightarrow> string" where
  "minField m = (case m of None \<Rightarrow> emdash | Some n \<Rightarrow> if truthy n then showNumber n @ '' min'' else emdash)"

text \<open>
  \<open>totalMin\<close>: \<open>(minDU || 0) + (minUD || 0)\<close>, and \<open>null\<close> unless the sum is positive. The
  sum of the two infinities is \<open>NaN\<close>, and \<open>NaN > 0\<close> is false.
\<close>

definition orZero :: "int number option \<Rightarrow> int number" where
  "orZero m = (case m of None \<Rightarrow> Fin 0 | Some n \<Rightarrow> if truthy n then n else Fin 0)"

definition plusNumber :: "int number \<Rightarrow> int number \<Rightarrow> int number" where
  "plusNumber a b =
     (case a of
        Fin x \<Rightarrow> (case b of Fin y \<Rightarrow> Fin (x + y) | _ \<Rightarrow> b)
      | PosInf \<Rightarrow> (case b of NegInf \<Rightarrow> NaN | NaN \<Rightarrow> NaN | _ \<Rightarrow> PosInf)
      | NegInf \<Rightarrow> (case b of PosInf \<Rightarrow> NaN | NaN \<Rightarrow> NaN | _ \<Rightarrow> NegInf)
      | NaN \<Rightarrow> NaN)"

definition positive :: "int number \<Rightarrow> bool" where
  "positive n = (case n of Fin k \<Rightarrow> 0 < k | PosInf \<Rightarrow> True | NegInf \<Rightarrow> False | NaN \<Rightarrow> False)"

definition totalMin :: "('a state1_scheme) \<Rightarrow> int number option" where
  "totalMin s = (let a = orZero (minDU s); b = orZero (minUD s); sum = plusNumber a b
                 in if positive sum then Some sum else None)"

record bottomBar =
  duDistance :: string
  duEta :: string
  udDistance :: string
  udEta :: string
  totalEta :: string

datatype screen = AllowLocation string | MapScreen bottomBar

definition ellipsis :: string where
  "ellipsis = [CHR 0xE2, CHR 0x80, CHR 0xA6]"

definition renderLegs :: "('a state1_scheme) \<Rightarrow> screen" where
  "renderLegs s =
     (if position s = None
      then AllowLocation (if error s \<noteq> [] then ''Error: '' @ error s
                          else ''Allow location access to see the map'' @ ellipsis)
      else MapScreen \<lparr>duDistance = kmField (kmDU s), duEta = minField (minDU s),
                      udDistance = kmField (kmUD s), udEta = minField (minUD s),
                      totalEta = minField (totalMin s)\<rparr>)"

text \<open>
  The bottom bar of the vias version: the prompt while \<open>dest\<close> is unset, else the two
  fields (\<open>{distanceKm ?? DASH}\<close>, \<open>{durationMin ?? DASH}\<close>) and the Clear button.
\<close>

datatype bottomBarV = Prompt string | Fields string string

datatype screenV = AllowLocationV string | MapScreenV bottomBarV

definition renderV :: "stateV \<Rightarrow> screenV" where
  "renderV s =
     (if positionV s = None then AllowLocationV (''Allow location access'' @ ellipsis)
      else MapScreenV
        (if destV s = None
         then Prompt (''Click to set destination '' @ middot @ '' Shift+Click to add via'')
         else Fields (''Distance: '' @ (case distanceKm s of None \<Rightarrow> emdash | Some k \<Rightarrow> k) @ '' km'')
                     (''ETA: '' @ (case durationMin s of None \<Rightarrow> emdash | Some n \<Rightarrow> showNumber n) @ '' min'')))"

section \<open>The formulas of the specification\<close>

text \<open>
  The haversine formula as the specification words it: angles in radians, Earth radius
  6371 km; and the sum over the consecutive points of a chain.
\<close>

definition radians :: "real \<Rightarrow> real" where
  "radians deg = deg * pi / 180"

definition haversineFormula :: "latlng \<Rightarrow> latlng \<Rightarrow> real" where
  "haversineFormula p q =
     (let lat1 = radians (fst p); lon1 = radians (snd p);
          lat2 = radians (fst q); lon2 = radians (snd q);
          dLat = lat2 - lat1; dLon = lon2 - lon1
      in 2 * 6371 * arcsin (sqrt ((sin (dLat / 2))\<^sup>2 + cos lat1 * cos lat2 * (sin (dLon / 2))\<^sup>2)))"

fun chainFormula :: "latlng list \<Rightarrow> real" where
  "chainFormula (p # q # rest) = haversineFormula p q + chainFormula (q # rest)"
| "chainFormula _ = 0"

text \<open>The central angle between two points, by the spherical law of cosines.\<close>

definition centralAngle :: "latlng \<Rightarrow> latlng \<Rightarrow> real" where
  "centralAngle p q =
     arccos (sin (radians (fst p)) * sin (radians (fst q))
             + cos (radians (fst p)) * cos (radians (fst q)) * cos (radians (snd q) - radians (snd p)))"

text \<open>
  How JavaScript prints a number that is an integer: its decimal digits. It stands for
  \<open>Number::toString\<close> in examples with integer coordinates.
\<close>

definition decimal :: "real \<Rightarrow> string" where
  "decimal x = showInt \<lfloor>x\<rfloor>"

definition osrmPrefix :: string where
  "osrmPrefix = ''https://router.project-osrm.org/route/v1/driving/''"

section \<open>Requests and their order\<close>

text \<open>The request most recently issued for a leg, and whether a request is that one.\<close>

definition latestCall :: "leg \<Rightarrow> fetchCall list \<Rightarrow> fetchCall option" where
  "latestCall l reqs = (case filter (\<lambda>c. fc_leg c = l) reqs of [] \<Rightarrow> None | x # xs \<Rightarrow> Some (last (x # xs)))"

definition isLatest :: "fetchCall \<Rightarrow> fetchCall list \<Rightarrow> bool" where
  "isLatest call reqs = (latestCall (fc_leg call) reqs = Some call)"

text \<open>The route state of a leg: polyline, distance and estimate.\<close>

definition routeState :: "leg \<Rightarrow> ('a state1_scheme) \<Rightarrow> latlng list \<times> string option \<times> int number option" where
  "routeState l s = (case l of DU \<Rightarrow> (routeDU s, kmDU s, minDU s) | UD \<Rightarrow> (routeUD s, kmUD s, minUD s))"

definition otherLeg :: "leg \<Rightarrow> leg" where
  "otherLeg l = (case l of DU \<Rightarrow> UD | UD \<Rightarrow> DU)"

text \<open>The inputs a timer of a leg is set with.\<close>

definition inputsOf :: "leg \<Rightarrow> ('a state1_scheme) \<Rightarrow> latlng option \<times> latlng option" where
  "inputsOf l s = (case l of DU \<Rightarrow> (driver s, position s) | UD \<Rightarrow> (position s, dest s))"

section \<open>Invariants of the reachable states\<close>

text \<open>The guards of \<open>fetchLeg\<close> in the third version: it returns without a request.\<close>

definition skips :: "leg \<Rightarrow> latlng option \<Rightarrow> latlng option \<Rightarrow> state3 \<Rightarrow> bool" where
  "skips l f t s = (\<not> isLatLng f \<or> \<not> isLatLng t
     \<or> (clock s - rec_ts (lastOf l s) < MIN_FETCH_INTERVAL_MS
         \<and> lessThanMetres (gateDistance (lastOf l s) (the f) (the t)) MIN_MOVE_M))"

text \<open>
  Third version: every request carries a signal of its own, made before
  \<open>nextController\<close>; the controller a leg holds is the signal of the leg's latest request;
  what is in flight has been requested; only controllers that exist have been aborted.
\<close>

definition signalsFresh :: "state3 \<Rightarrow> bool" where
  "signalsFresh s = list_all (\<lambda>c. case fc_signal c of None \<Rightarrow> False | Some k \<Rightarrow> k < nextController s) (requests s)"

definition holdsLatest :: "leg \<Rightarrow> state3 \<Rightarrow> bool" where
  "holdsLatest l s = (abortOf l s = (case latestCall l (requests s) of None \<Rightarrow> None | Some c \<Rightarrow> fc_signal c))"

definition requestsInv :: "state3 \<Rightarrow> bool" where
  "requestsInv s =
     (signalsFresh s \<and> distinct (map fc_signal (requests s))
      \<and> holdsLatest DU s \<and> holdsLatest UD s
      \<and> set (inflight s) \<subseteq> set (requests s)
      \<and> aborted s \<subseteq> {..<nextController s})"

text \<open>A pending timer carries the current inputs of its leg.\<close>

definition timersCurrent :: "('a state1_scheme) \<Rightarrow> bool" where
  "timersCurrent s = list_all (\<lambda>t. (t_from t, t_to t) = inputsOf (t_leg t) s) (timers s)"

text \<open>
  What \<open>Math.max(1, Math.round(x))\<close> can be: an integer of at least 1 or, when \<open>x\<close> is not
  finite, the positive infinity or \<open>NaN\<close>. With \<open>numeric\<close> set only the integers count.
  Every estimate stored is such a value.
\<close>

definition etaOk :: "bool \<Rightarrow> int number \<Rightarrow> bool" where
  "etaOk numeric n =
     (case n of Fin k \<Rightarrow> 1 \<le> k | PosInf \<Rightarrow> \<not> numeric | NegInf \<Rightarrow> False | NaN \<Rightarrow> \<not> numeric)"

definition atLeastOne :: "bool \<Rightarrow> int number option \<Rightarrow> bool" where
  "atLeastOne numeric m = (case m of None \<Rightarrow> True | Some n \<Rightarrow> etaOk numeric n)"

definition etaInv :: "bool \<Rightarrow> ('a state1_scheme) \<Rightarrow> bool" where
  "etaInv numeric s = (atLeastOne numeric (minDU s) \<and> atLeastOne numeric (minUD s))"

text \<open>
  A response whose first route, if there is one, has a finite duration, as the responses
  of OSRM have; and the events that deliver such responses.
\<close>

definition numericDuration :: "outcome \<Rightarrow> bool" where
  "numericDuration out =
     (case out of
        Rejected n m \<Rightarrow> True
      | NotOk status msg \<Rightarrow> True
      | Body routes \<Rightarrow> (case routes of [] \<Rightarrow> True | r # _ \<Rightarrow> isFin (duration r)))"

definition numericEvent :: "event \<Rightarrow> bool" where
  "numericEvent e = (case e of Settles k out \<Rightarrow> numericDuration out | _ \<Rightarrow> True)"

definition numericEventV :: "eventV \<Rightarrow> bool" where
  "numericEventV e = (case e of SettlesV k out \<Rightarrow> numericDuration out | _ \<Rightarrow> True)"

text \<open>Every request goes to the OSRM endpoint.\<close>

definition urlsInv :: "(real \<Rightarrow> string) \<Rightarrow> ('a state1_scheme) \<Rightarrow> bool" where
  "urlsInv fmt s = list_all (\<lambda>c. prefix osrmPrefix (render fmt (fc_url c))) (requests s)"

definition urlsInvV :: "(real \<Rightarrow> string) \<Rightarrow> stateV \<Rightarrow> bool" where
  "urlsInvV fmt s =
     (list_all (\<lambda>u. prefix osrmPrefix (render fmt u)) (requestsV s)
      \<and> list_all (\<lambda>t. prefix osrmPrefix (render fmt (tv_url t))) (timersV s))"

text \<open>
  Third version, without a destination: no distance for the second leg, the controller
  of that leg (if any) is aborted, and with \<open>timersCurrent\<close> no timer would route to one.
\<close>

definition noDest3 :: "state3 \<Rightarrow> bool" where
  "noDest3 s = (dest s \<noteq> None \<or> (kmUD s = None \<and> set_option (abortUD s) \<subseteq> aborted s))"

definition noDestInv3 :: "state3 \<Rightarrow> bool" where
  "noDestInv3 s = (timersCurrent s \<and> noDest3 s)"

text \<open>
  Vias version: a timer or a request of a run that is not cancelled belongs to the run
  whose cleanup React holds; without a destination there is no such run and no distance.
\<close>

definition liveRun :: "stateV \<Rightarrow> nat \<Rightarrow> bool" where
  "liveRun s k = (k \<in> canceledRuns s \<or> cleanupV s = Some k)"

definition runsLive :: "stateV \<Rightarrow> bool" where
  "runsLive s = (list_all (liveRun s) (inflightV s) \<and> list_all (\<lambda>t. liveRun s (tv_run t)) (timersV s))"

definition noDestV :: "stateV \<Rightarrow> bool" where
  "noDestV s = (destV s \<noteq> None \<or> (distanceKm s = None \<and> cleanupV s = None))"

definition noDestInvV :: "stateV \<Rightarrow> bool" where
  "noDestInvV s = (runsLive s \<and> noDestV s)"

section \<open>Example runs\<close>

text \<open>
  A user at the origin who sets driver and destination there (multi-leg versions), or a
  via and the destination (vias version); then the same with the timers fired, so that
  the requests are in flight.
\<close>

definition tripEvents :: "event list" where
  "tripEvents = [GpsFix 0 0 5, PressSetDriver, MapClick 0 0, PressSetDest, MapClick 0 0]"

definition tripEventsV :: "eventV list" where
  "tripEventsV = [GpsFixV 0 0 5, ClickV True 0 0, ClickV False 0 0]"

definition trip1 :: state1 where
  "trip1 = run1 (mount1 True 0) tripEvents"

definition trip3 :: state3 where
  "trip3 = run3 (mount3 True 0) tripEvents"

definition tripV :: stateV where
  "tripV = runV (mountV True 0) tripEventsV"

definition flying1 :: state1 where
  "flying1 = run1 trip1 [Elapse 300, TimerFires 0, TimerFires 0]"

definition flying3 :: state3 where
  "flying3 = run3 trip3 [Elapse 350, TimerFires 0, TimerFires 0]"

definition flyingV :: stateV where
  "flyingV = runV tripV [ElapseV 300, TimerFiresV 0]"

text \<open>The vias version after a further GPS fix: the run in flight is cancelled.\<close>

definition cancelledV :: stateV where
  "cancelledV = stepV flyingV (GpsFixV 0 0 5)"

text \<open>
  The third version five seconds later, after a further GPS fix: the timers are due
  (\<open>due3\<close>), and when the first has fired there is a second request for the first leg
  (\<open>stale3\<close>).
\<close>

definition due3 :: state3 where
  "due3 = run3 flying3 [Elapse 5000, GpsFix 0 0 5, Elapse 350]"

definition stale3 :: state3 where
  "stale3 = step3 due3 (TimerFires 0)"

definition sampleRoute :: route where
  "sampleRoute = \<lparr>coordinates = [(0, 0)], distance = Fin 1000, duration = Fin 60\<rparr>"

text \<open>A route of ten minutes, and a route whose duration is missing.\<close>

definition tenMinuteRoute :: route where
  "tenMinuteRoute = \<lparr>coordinates = [(0, 0)], distance = Fin 1000, duration = Fin 600\<rparr>"

definition noDurationRoute :: route where
  "noDurationRoute = \<lparr>coordinates = [(0, 0)], distance = Fin 1000, duration = NaN\<rparr>"


text \<open>The states after the first GPS fix, with nothing set.\<close>

definition gpsV :: stateV where
  "gpsV = runV (mountV True 0) [GpsFixV 0 0 5]"

definition promptText :: string where
  "promptText = ''Click to set destination '' @ middot @ '' Shift+Click to add via''"

definition originLegUrl :: string where
  "originLegUrl = ''https://router.project-osrm.org/route/v1/driving/0,0;0,0?overview=full&geometries=geojson&alternatives=false&steps=false&continue_straight=true''"

text \<open>
  The third version with both requests in flight when Clear is pressed; then the request
  of the second leg is rejected with the abort error.
\<close>

definition clearedEvents :: "event list" where
  "clearedEvents = tripEvents @ [Elapse 350, TimerFires 0, TimerFires 0, PressClear,
                                 Settles 1 (Rejected ''AbortError'' '''')]"

definition cleared3 :: state3 where
  "cleared3 = run3 (mount3 True 0) clearedEvents"

text \<open>JavaScript's \<open>n >= 1\<close>.\<close>

definition geOne :: "int number \<Rightarrow> bool" where
  "geOne n = (case n of Fin k \<Rightarrow> 1 \<le> k | PosInf \<Rightarrow> True | NegInf \<Rightarrow> False | NaN \<Rightarrow> False)"

text \<open>
  Runs in which the first request (of the first leg, in the multi-leg versions) is
  answered with the ten-minute route, and with the route that has no duration.
\<close>

definition routedEvents1 :: "event list" where
  "routedEvents1 = tripEvents @ [Elapse 300, TimerFires 0, TimerFires 0, Settles 0 (Body [tenMinuteRoute])]"

definition routedEvents3 :: "event list" where
  "routedEvents3 = tripEvents @ [Elapse 350, TimerFires 0, TimerFires 0, Settles 0 (Body [tenMinuteRoute])]"

definition routedEventsV :: "eventV list" where
  "routedEventsV = tripEventsV @ [ElapseV 300, TimerFiresV 0, SettlesV 0 (Body [tenMinuteRoute])]"

definition brokenEvents1 :: "event list" where
  "brokenEvents1 = tripEvents @ [Elapse 300, TimerFires 0, TimerFires 0, Settles 0 (Body [noDurationRoute])]"

definition brokenEvents3 :: "event list" where
  "brokenEvents3 = tripEvents @ [Elapse 350, TimerFires 0, TimerFires 0, Settles 0 (Body [noDurationRoute])]"

definition brokenEventsV :: "eventV list" where
  "brokenEventsV = tripEventsV @ [ElapseV 300, TimerFiresV 0, SettlesV 0 (Body [noDurationRoute])]"

text \<open>The driver one degree of longitude east of the user, the destination at the user.\<close>

definition degreeEvents :: "event list" where
  "degreeEvents = [GpsFix 0 0 5, PressSetDriver, MapClick 0 1, PressSetDest, MapClick 0 0]"

text \<open>
  The distance and the estimate that the fallback effect of a leg computes from the
  inputs, and whether the distance and the estimate of a leg are those for its current
  inputs; the same for the chain of the vias version.
\<close>

definition straightLine :: "latlng option \<Rightarrow> latlng option \<Rightarrow> string option \<times> int number option" where
  "straightLine a b =
     (if isLatLng a \<and> isLatLng b
      then (Some (toFixed2 (haversineKm (the a) (the b))), Some (fallbackEta (haversineKm (the a) (the b))))
      else (None, None))"

definition showsStraightLine :: "leg \<Rightarrow> ('a state1_scheme) \<Rightarrow> bool" where
  "showsStraightLine l s =
     (case inputsOf l s of (a, b) \<Rightarrow> snd (routeState l s) = straightLine a b)"

definition showsStraightLineV :: "stateV \<Rightarrow> bool" where
  "showsStraightLineV s =
     (isLatLng (positionV s) \<and> isLatLng (destV s)
      \<and> (let km = chainKm ([the (positionV s)] @ vias s @ [the (destV s)]) 0 0
         in distanceKm s = Some (toFixed2 km) \<and> durationMin s = Some (fallbackEta km)))"

text \<open>
  The first version with both requests in flight: after a further GPS fix the first leg
  is requested again, and this second request is answered with a route while the first
  is still in flight.
\<close>

definition late1 :: state1 where
  "late1 = run1 flying1 [GpsFix 0 0 5, Elapse 300, TimerFires 0, Settles 2 (Body [sampleRoute])]"

text \<open>
  The requests made so far for a leg, and the record of a leg as mounting and Clear
  leave it.
\<close>

definition issuedFor :: "leg \<Rightarrow> ('a state1_scheme) \<Rightarrow> fetchCall list" where
  "issuedFor l s = filter (\<lambda>c. fc_leg c = l) (requests s)"

definition resetRecord :: lastRouted where
  "resetRecord = \<lparr>rec_from = None, rec_to = None, rec_ts = 0\<rparr>"

text \<open>
  The third version with both requests in flight: Clear is pressed, the driver is set
  again at the same point, and 350 ms pass, so that the timers are due.
\<close>

definition refetch3 :: state3 where
  "refetch3 = run3 flying3 [PressClear, PressSetDriver, MapClick 0 0, Elapse 350]"

section \<open>General lemmas\<close>

lemma foldl_invariant:
  assumes "P s" and "\<And>s e. P s \<Longrightarrow> P (f s e)"
  shows "P (foldl f s es)"
  using assms(1) by (induction es arbitrary: s) (auto intro: assms(2))

lemmas handler_defs =
  step1_def step3_def stepV_def
  effects1_def effects3_def effectsV_def fallbackDU1_def fallbackUD1_def fallbackDU3_def fallbackUD3_def
  fallbackV_def routingEffect1_def routingEffect3_def routingEffectV_def runCleanupV_def
  fetchLeg1_def fetchLeg3_def fetchV_def settleLeg1_def settleLeg3_def settleV_def
  clear1_def clear3_def clearV_def click_def toggleTap_def setLoading_def applyRoute_def
  abortCurrent_def abortOf_def lastOf_def setAbort_def setLast_def gateDistance_def
  isLatLng_def removeAt_def Let_def

lemmas model_defs = run1_def run3_def runV_def mount1_def mount3_def mountV_def handler_defs

text \<open>Values at the origin, for the examples.\<close>

lemma haversineKm_origin: "haversineKm (0, 0) (0, 0) = 0"
  by (simp add: haversineKm_def)

lemma haversineFormula_origin: "haversineFormula (0, 0) (0, 0) = 0"
  by (simp add: haversineFormula_def radians_def)

lemma roundGPS_origin: "roundGPS (0, 0) = (0, 0)"
  by (simp add: roundGPS_def toFixed5_def)

lemma fallbackEta_zero: "fallbackEta 0 = Fin 1"
  by (simp add: fallbackEta_def mathMax1_def mathRound_def jsRound_def)

lemma toFixed2_zero: "toFixed2 0 = ''0.00''"
  by (simp add: toFixed2_def showNat.simps digit_def)

lemma chainKm_origin: "chainKm [(0, 0), (0, 0)] 0 0 = 0"
  by (simp add: chainKm.simps haversineKm_origin)

lemmas origin_simps =
  haversineKm_origin haversineFormula_origin roundGPS_origin fallbackEta_zero toFixed2_zero
  chainKm_origin

section \<open>The haversine fallback\<close>

lemma haversineKm_formula: "haversineKm p q = haversineFormula p q"
  by (cases p; cases q)
     (simp add: haversineKm_def haversineFormula_def radians_def Let_def algebra_simps diff_divide_distrib)

text \<open>The loop of the vias version, started at any index with any sum so far.\<close>

lemma chainKm_from: "i \<le> length pts \<Longrightarrow> chainKm pts i km = km + chainFormula (drop i pts)"
proof (induction pts i km rule: chainKm.induct)
  case (1 pts i km)
  show ?case
  proof (cases "int i < int (length pts) - 1")
    case True
    then have lt: "Suc i < length pts" by simp
    then have d: "drop i pts = pts ! i # pts ! Suc i # drop (Suc (Suc i)) pts"
      by (metis Cons_nth_drop_Suc Suc_lessD)
    have d2: "drop (Suc i) pts = pts ! Suc i # drop (Suc (Suc i)) pts"
      using lt by (metis Cons_nth_drop_Suc)
    have "chainKm pts i km = chainKm pts (Suc i) (km + haversineKm (pts ! i) (pts ! Suc i))"
      using True by (subst chainKm.simps) simp
    also have "\<dots> = km + haversineKm (pts ! i) (pts ! Suc i) + chainFormula (drop (Suc i) pts)"
      using "1.IH"[OF True] lt by simp
    finally show ?thesis by (simp add: d d2 haversineKm_formula)
  next
    case False
    then have "length (drop i pts) \<le> 1" by simp
    then have "chainFormula (drop i pts) = 0"
      by (cases "drop i pts" rule: chainFormula.cases) auto
    moreover have "chainKm pts i km = km" using False by (subst chainKm.simps) simp
    ultimately show ?thesis by simp
  qed
qed

lemma chainKm_formula: "chainKm pts 0 0 = chainFormula pts"
  using chainKm_from[of 0 pts 0] by simp

text \<open>
  The haversine formula gives the great-circle distance: the radius times the central
  angle. The cosine of that angle is a scalar product of unit vectors, so it lies between
  \<open>-1\<close> and \<open>1\<close>.
\<close>

lemma cos_central_bound: "\<bar>sin a * sin b + cos a * cos b * cos c\<bar> \<le> (1::real)"
proof -
  have "\<bar>sin a * sin b + cos a * cos b * cos c\<bar> \<le> \<bar>sin a * sin b\<bar> + \<bar>cos a * cos b\<bar> * \<bar>cos c\<bar>"
    by (metis abs_mult abs_triangle_ineq)
  also have "\<dots> \<le> \<bar>sin a * sin b\<bar> + \<bar>cos a * cos b\<bar>"
    by (simp add: mult_left_le)
  also have "\<dots> \<le> 1"
  proof -
    have "(\<bar>sin a\<bar> - \<bar>sin b\<bar>)\<^sup>2 + (\<bar>cos a\<bar> - \<bar>cos b\<bar>)\<^sup>2 \<ge> 0" by simp
    moreover have "(sin a)\<^sup>2 + (cos a)\<^sup>2 = 1" "(sin b)\<^sup>2 + (cos b)\<^sup>2 = 1" by simp_all
    ultimately have "2 * (\<bar>sin a\<bar> * \<bar>sin b\<bar> + \<bar>cos a\<bar> * \<bar>cos b\<bar>) \<le> 2"
      by (simp add: power2_diff algebra_simps)
    then show ?thesis by (simp add: abs_mult)
  qed
  finally show ?thesis .
qed

lemma haversine_half_angle:
  fixes a b c :: real
  shows "(sin ((b - a) / 2))\<^sup>2 + cos a * cos b * (sin (c / 2))\<^sup>2
         = (1 - (sin a * sin b + cos a * cos b * cos c)) / 2"
proof -
  have h: "(sin (x / 2))\<^sup>2 = (1 - cos x) / 2" for x :: real
    using cos_double_sin[of "x / 2"] by simp
  show ?thesis unfolding h by (simp add: cos_diff field_simps)
qed

lemma haversine_great_circle: "haversineFormula p q = 6371 * centralAngle p q"
proof -
  define X where "X = sin (radians (fst p)) * sin (radians (fst q))
       + cos (radians (fst p)) * cos (radians (fst q)) * cos (radians (snd q) - radians (snd p))"
  define c where "c = arccos X"
  have b: "\<bar>X\<bar> \<le> 1" unfolding X_def by (rule cos_central_bound)
  then have c: "0 \<le> c" "c \<le> pi" "cos c = X" unfolding c_def
    by (auto simp: arccos_lbound arccos_ubound abs_le_iff)
  have "(1 - X) / 2 = (sin (c / 2))\<^sup>2"
    using cos_double_sin[of "c / 2"] c(3) by simp
  moreover have "0 \<le> sin (c / 2)" using c by (intro sin_ge_zero) auto
  ultimately have "sqrt ((1 - X) / 2) = sin (c / 2)" by simp
  moreover have "arcsin (sin (c / 2)) = c / 2"
    using c pi_ge_zero by (intro arcsin_sin) auto
  ultimately have "2 * 6371 * arcsin (sqrt ((1 - X) / 2)) = 6371 * c" by simp
  then show ?thesis
    unfolding haversineFormula_def centralAngle_def Let_def haversine_half_angle X_def[symmetric] c_def .
qed

text \<open>
  Claim C5. \<open>haversineKm\<close> computes the haversine formula of the specification (radius
  6371 km, angles in radians), which is the great-circle distance, the radius times the
  central angle. The fallback effect of the vias version stores (printed with two
  decimals) the sum of this distance over the consecutive points of the chain
  user, vias, destination; the fallback effects of the multi-leg versions store the
  distance of their leg.
\<close>

theorem fallback_distance_is_haversine:
  "haversineKm (lat1, lon1) (lat2, lon2) = haversineFormula (lat1, lon1) (lat2, lon2)
   \<and> haversineFormula (lat1, lon1) (lat2, lon2) = 6371 * centralAngle (lat1, lon1) (lat2, lon2)
   \<and> (positionV sV = Some p \<and> destV sV = Some d \<longrightarrow>
        distanceKm (fallbackV sV) = Some (toFixed2 (chainFormula ([p] @ vias sV @ [d]))))
   \<and> (driver s1 = Some dr \<and> position s1 = Some p \<longrightarrow>
        kmDU (fallbackDU1 s1) = Some (toFixed2 (haversineFormula dr p)))
   \<and> (position s1 = Some p \<and> dest s1 = Some d \<longrightarrow>
        kmUD (fallbackUD1 s1) = Some (toFixed2 (haversineFormula p d)))
   \<and> (driver s3 = Some dr \<and> position s3 = Some p \<longrightarrow>
        kmDU (fallbackDU3 s3) = Some (toFixed2 (haversineFormula dr p)))
   \<and> (position s3 = Some p \<and> dest s3 = Some d \<longrightarrow>
        kmUD (fallbackUD3 s3) = Some (toFixed2 (haversineFormula p d)))"
  by (simp add: haversineKm_formula haversine_great_circle chainKm_formula fallbackV_def fallbackDU1_def
      fallbackUD1_def fallbackDU3_def fallbackUD3_def isLatLng_def Let_def)

theorem fallback_distance_is_haversine_witness:
  "positionV (runV (mountV True 0) [GpsFixV 0 0 5, ClickV True 0 0, ClickV False 0 0]) = Some (0, 0)
   \<and> destV (runV (mountV True 0) [GpsFixV 0 0 5, ClickV True 0 0, ClickV False 0 0]) = Some (0, 0)
   \<and> vias (runV (mountV True 0) [GpsFixV 0 0 5, ClickV True 0 0, ClickV False 0 0]) = [(0, 0)]
   \<and> distanceKm (fallbackV (runV (mountV True 0) [GpsFixV 0 0 5, ClickV True 0 0, ClickV False 0 0])) = Some ''0.00''
   \<and> driver (run1 (mount1 True 0) [GpsFix 0 0 5, PressSetDriver, MapClick 0 0, PressSetDest, MapClick 0 0]) = Some (0, 0)
   \<and> position (run1 (mount1 True 0) [GpsFix 0 0 5, PressSetDriver, MapClick 0 0, PressSetDest, MapClick 0 0]) = Some (0, 0)
   \<and> dest (run1 (mount1 True 0) [GpsFix 0 0 5, PressSetDriver, MapClick 0 0, PressSetDest, MapClick 0 0]) = Some (0, 0)
   \<and> kmDU (fallbackDU1 (run1 (mount1 True 0) [GpsFix 0 0 5, PressSetDriver, MapClick 0 0, PressSetDest, MapClick 0 0])) = Some ''0.00''
   \<and> kmUD (fallbackUD1 (run1 (mount1 True 0) [GpsFix 0 0 5, PressSetDriver, MapClick 0 0, PressSetDest, MapClick 0 0])) = Some ''0.00''
   \<and> driver (run3 (mount3 True 0) [GpsFix 0 0 5, PressSetDriver, MapClick 0 0, PressSetDest, MapClick 0 0]) = Some (0, 0)
   \<and> position (run3 (mount3 True 0) [GpsFix 0 0 5, PressSetDriver, MapClick 0 0, PressSetDest, MapClick 0 0]) = Some (0, 0)
   \<and> dest (run3 (mount3 True 0) [GpsFix 0 0 5, PressSetDriver, MapClick 0 0, PressSetDest, MapClick 0 0]) = Some (0, 0)
   \<and> kmDU (fallbackDU3 (run3 (mount3 True 0) [GpsFix 0 0 5, PressSetDriver, MapClick 0 0, PressSetDest, MapClick 0 0])) = Some ''0.00''
   \<and> kmUD (fallbackUD3 (run3 (mount3 True 0) [GpsFix 0 0 5, PressSetDriver, MapClick 0 0, PressSetDest, MapClick 0 0])) = Some ''0.00''"
  using fallback_distance_is_haversine[of 0 0 0 0
      "runV (mountV True 0) [GpsFixV 0 0 5, ClickV True 0 0, ClickV False 0 0]" "(0, 0)" "(0, 0)"
      "run1 (mount1 True 0) [GpsFix 0 0 5, PressSetDriver, MapClick 0 0, PressSetDest, MapClick 0 0]" "(0, 0)"
      "run3 (mount3 True 0) [GpsFix 0 0 5, PressSetDriver, MapClick 0 0, PressSetDest, MapClick 0 0]"]
  by (simp add: model_defs origin_simps chainKm.simps)

section \<open>Every estimate is at least one minute\<close>

lemma fallbackEta_value: "fallbackEta x = Fin (max 1 (jsRound ((x / 25) * 60)))"
  by (simp add: fallbackEta_def mathMax1_def mathRound_def)

lemma routeEta_value: "routeEta (Fin x) = Fin (max 1 (jsRound (x / 60)))"
  by (simp add: routeEta_def mathMax1_def mathRound_def divideBy_def)

lemma routeEta_NaN: "routeEta NaN = NaN"
  by (simp add: routeEta_def mathMax1_def mathRound_def divideBy_def)

lemma etaOk_fallbackEta: "etaOk numeric (fallbackEta x)"
  by (simp add: fallbackEta_value etaOk_def)

lemma etaOk_routeEta: "(numeric \<Longrightarrow> isFin d) \<Longrightarrow> etaOk numeric (routeEta d)"
  by (cases d) (auto simp: routeEta_def mathMax1_def mathRound_def divideBy_def etaOk_def isFin_def)

lemma atLeastOne_None: "atLeastOne numeric None"
  by (simp add: atLeastOne_def)

lemma etaOk_cases: "etaOk numeric n \<Longrightarrow> (\<exists>k. n = Fin k \<and> 1 \<le> k) \<or> (\<not> numeric \<and> (n = PosInf \<or> n = NaN))"
  by (cases n) (simp_all add: etaOk_def)

lemma etaInv_setLoading [simp]: "etaInv numeric (setLoading l b s) = etaInv numeric s"
  by (cases l) (simp_all add: setLoading_def etaInv_def)

lemma etaInv_applyRoute:
  "(numeric \<Longrightarrow> isFin (duration r)) \<Longrightarrow> etaInv numeric s \<Longrightarrow> etaInv numeric (applyRoute l r s)"
  by (cases l) (simp_all add: applyRoute_def etaInv_def atLeastOne_def etaOk_routeEta)

lemma numericDuration_route:
  "numericDuration out \<Longrightarrow> awaitRoute out = Inr r \<Longrightarrow> isFin (duration r)"
  by (cases out) (auto simp: numericDuration_def awaitRoute_def split: list.splits)

text \<open>An invariant of the steps whose events satisfy a condition.\<close>

lemma foldl_invariant_events:
  assumes "P s" and "list_all Q es" and "\<And>s e. P s \<Longrightarrow> Q e \<Longrightarrow> P (f s e)"
  shows "P (foldl f s es)"
  using assms(1,2) by (induction es arbitrary: s) (auto intro: assms(3))

lemma list_all_numeric: "(numeric \<Longrightarrow> list_all Q es) \<Longrightarrow> list_all (\<lambda>e. numeric \<longrightarrow> Q e) es"
  by (cases numeric) (simp_all add: list_all_iff)

subsection \<open>Third version\<close>

lemma etaInv_effects3: "etaInv numeric s \<Longrightarrow> etaInv numeric (effects3 a b c s)"
  by (simp add: effects3_def fallbackDU3_def fallbackUD3_def routingEffect3_def etaInv_def
      atLeastOne_def etaOk_fallbackEta Let_def)

lemma etaInv_fetchLeg3: "etaInv numeric s \<Longrightarrow> etaInv numeric (fetchLeg3 l f t s)"
  by (cases l; cases "abortOf l s")
     (simp_all add: fetchLeg3_def Let_def abortCurrent_def setAbort_def setLast_def setLoading_def etaInv_def)

lemma etaInv_error: "etaInv numeric (s\<lparr>error := x\<rparr>) = etaInv numeric s"
  by (simp add: etaInv_def)

lemma etaInv_settleLeg3:
  assumes "numeric \<longrightarrow> numericDuration out" "etaInv numeric s"
  shows "etaInv numeric (settleLeg3 l c out s)"
proof (cases "awaitRoute out")
  case (Inl e)
  then show ?thesis using assms(2) by (simp add: settleLeg3_def etaInv_error)
next
  case (Inr r)
  have "numeric \<Longrightarrow> isFin (duration r)"
    using assms(1) Inr by (auto dest: numericDuration_route)
  then have "etaInv numeric (applyRoute l r s)" using assms(2) by (rule etaInv_applyRoute)
  then show ?thesis using assms(2) Inr by (simp add: settleLeg3_def Let_def)
qed

lemma etaInv_clear3: "etaInv numeric (clear3 s)"
  by (cases "abortDU s"; cases "abortUD s")
     (simp_all add: clear3_def abortCurrent_def etaInv_def atLeastOne_def Let_def)

lemma etaInv_step3:
  assumes a: "etaInv numeric s" and q: "numeric \<longrightarrow> numericEvent e"
  shows "etaInv numeric (step3 s e)"
proof (cases e)
  case (GpsFix lat lon acc)
  have "etaInv numeric (s\<lparr>error := '''', position := Some (roundGPS (lat, lon)), accuracy := Some acc\<rparr>)"
    using a by (simp add: etaInv_def)
  then show ?thesis using a by (simp add: GpsFix step3_def etaInv_effects3)
next
  case (MapClick lat lng)
  have "etaInv numeric (s\<lparr>driver := Some (lat, lng), tapMode := None\<rparr>)"
      "etaInv numeric (s\<lparr>dest := Some (lat, lng), tapMode := None\<rparr>)"
    using a by (simp_all add: etaInv_def)
  then show ?thesis using a
    by (simp add: MapClick step3_def etaInv_effects3 split: option.splits tapTarget.splits)
next
  case PressClear
  show ?thesis using a by (simp add: PressClear step3_def etaInv_effects3 etaInv_clear3)
next
  case (TimerFires k)
  have "etaInv numeric (s\<lparr>timers := removeAt k (timers s)\<rparr>)" using a by (simp add: etaInv_def)
  then show ?thesis using a by (simp add: TimerFires step3_def Let_def etaInv_fetchLeg3)
next
  case (Settles k out)
  have n: "numeric \<longrightarrow> numericDuration out" using q by (simp add: Settles numericEvent_def)
  have "etaInv numeric (s\<lparr>inflight := removeAt k (inflight s)\<rparr>)" using a by (simp add: etaInv_def)
  then show ?thesis using a n
    by (simp add: Settles step3_def Let_def etaInv_settleLeg3 split: option.splits)
qed (use a in \<open>simp_all add: step3_def etaInv_def toggleTap_def\<close>)

lemma etaInv_run3:
  assumes "numeric \<Longrightarrow> list_all numericEvent es"
  shows "etaInv numeric (run3 (mount3 geo t0) es)"
  unfolding run3_def
proof (rule foldl_invariant_events[where P = "etaInv numeric" and Q = "\<lambda>e. numeric \<longrightarrow> numericEvent e"])
  show "etaInv numeric (mount3 geo t0)"
    unfolding mount3_def by (rule etaInv_effects3) (simp add: etaInv_def atLeastOne_def)
  show "list_all (\<lambda>e. numeric \<longrightarrow> numericEvent e) es"
    using assms by (rule list_all_numeric)
qed (rule etaInv_step3)

subsection \<open>First version\<close>

lemma etaInv_effects1: "etaInv numeric s \<Longrightarrow> etaInv numeric (effects1 a b c s)"
  by (simp add: effects1_def fallbackDU1_def fallbackUD1_def routingEffect1_def etaInv_def
      atLeastOne_def etaOk_fallbackEta Let_def)

lemma etaInv_fetchLeg1: "etaInv numeric s \<Longrightarrow> etaInv numeric (fetchLeg1 l f t s)"
  by (cases l) (simp_all add: fetchLeg1_def Let_def setLoading_def etaInv_def)

lemma etaInv_settleLeg1:
  assumes "numeric \<longrightarrow> numericDuration out" "etaInv numeric s"
  shows "etaInv numeric (settleLeg1 l out s)"
proof (cases "awaitRoute out")
  case (Inl e)
  then show ?thesis using assms(2) by (simp add: settleLeg1_def etaInv_error)
next
  case (Inr r)
  have "numeric \<Longrightarrow> isFin (duration r)"
    using assms(1) Inr by (auto dest: numericDuration_route)
  then have "etaInv numeric (applyRoute l r s)" using assms(2) by (rule etaInv_applyRoute)
  then show ?thesis using Inr by (simp add: settleLeg1_def)
qed

lemma etaInv_step1:
  assumes a: "etaInv numeric s" and q: "numeric \<longrightarrow> numericEvent e"
  shows "etaInv numeric (step1 s e)"
proof (cases e)
  case (GpsFix lat lon acc)
  have "etaInv numeric (s\<lparr>error := '''', position := Some (lat, lon), accuracy := Some acc\<rparr>)"
    using a by (simp add: etaInv_def)
  then show ?thesis using a by (simp add: GpsFix step1_def etaInv_effects1)
next
  case (MapClick lat lng)
  have "etaInv numeric (s\<lparr>driver := Some (lat, lng), tapMode := None\<rparr>)"
      "etaInv numeric (s\<lparr>dest := Some (lat, lng), tapMode := None\<rparr>)"
    using a by (simp_all add: etaInv_def)
  then show ?thesis using a
    by (simp add: MapClick step1_def etaInv_effects1 split: option.splits tapTarget.splits)
next
  case PressClear
  have "etaInv numeric (clear1 s)" by (simp add: clear1_def etaInv_def atLeastOne_def)
  then show ?thesis using a by (simp add: PressClear step1_def etaInv_effects1)
next
  case (TimerFires k)
  have "etaInv numeric (s\<lparr>timers := removeAt k (timers s)\<rparr>)" using a by (simp add: etaInv_def)
  then show ?thesis using a by (simp add: TimerFires step1_def Let_def etaInv_fetchLeg1)
next
  case (Settles k out)
  have n: "numeric \<longrightarrow> numericDuration out" using q by (simp add: Settles numericEvent_def)
  have "etaInv numeric (s\<lparr>inflight := removeAt k (inflight s)\<rparr>)" using a by (simp add: etaInv_def)
  then show ?thesis using a n by (simp add: Settles step1_def Let_def etaInv_settleLeg1)
qed (use a in \<open>simp_all add: step1_def etaInv_def toggleTap_def\<close>)

lemma etaInv_run1:
  assumes "numeric \<Longrightarrow> list_all numericEvent es"
  shows "etaInv numeric (run1 (mount1 geo t0) es)"
  unfolding run1_def
proof (rule foldl_invariant_events[where P = "etaInv numeric" and Q = "\<lambda>e. numeric \<longrightarrow> numericEvent e"])
  show "etaInv numeric (mount1 geo t0)"
    unfolding mount1_def by (rule etaInv_effects1) (simp add: etaInv_def atLeastOne_def)
  show "list_all (\<lambda>e. numeric \<longrightarrow> numericEvent e) es"
    using assms by (rule list_all_numeric)
qed (rule etaInv_step1)

subsection \<open>Vias version\<close>

lemma eta_effectsV:
  "atLeastOne numeric (durationMin s) \<Longrightarrow> atLeastOne numeric (durationMin (effectsV b s))"
  by (simp add: effectsV_def routingEffectV_def runCleanupV_def fallbackV_def Let_def atLeastOne_def
      etaOk_fallbackEta split: option.splits)

lemma eta_settleV:
  assumes "numeric \<longrightarrow> numericDuration out" "atLeastOne numeric (durationMin s)"
  shows "atLeastOne numeric (durationMin (settleV k out s))"
proof (cases "awaitRoute out")
  case (Inl e)
  then show ?thesis using assms(2) by (simp add: settleV_def)
next
  case (Inr r)
  have "numeric \<Longrightarrow> isFin (duration r)"
    using assms(1) Inr by (auto dest: numericDuration_route)
  then have "etaOk numeric (routeEta (duration r))" by (rule etaOk_routeEta)
  then show ?thesis using assms(2) Inr by (simp add: settleV_def atLeastOne_def)
qed

lemma eta_stepV:
  assumes a: "atLeastOne numeric (durationMin s)" and q: "numeric \<longrightarrow> numericEventV e"
  shows "atLeastOne numeric (durationMin (stepV s e))"
proof (cases e)
  case (SettlesV k out)
  have n: "numeric \<longrightarrow> numericDuration out" using q by (simp add: SettlesV numericEventV_def)
  have "atLeastOne numeric (durationMin (s\<lparr>inflightV := removeAt k (inflightV s)\<rparr>))" using a by simp
  then show ?thesis using a n by (simp add: SettlesV stepV_def eta_settleV)
qed (use a in \<open>auto simp: stepV_def click_def clearV_def fetchV_def Let_def atLeastOne_None
           intro!: eta_effectsV\<close>)

lemma eta_runV:
  assumes "numeric \<Longrightarrow> list_all numericEventV es"
  shows "atLeastOne numeric (durationMin (runV (mountV geo t0) es))"
  unfolding runV_def
proof (rule foldl_invariant_events[where P = "\<lambda>s. atLeastOne numeric (durationMin s)"
      and Q = "\<lambda>e. numeric \<longrightarrow> numericEventV e"])
  show "atLeastOne numeric (durationMin (mountV geo t0))"
    unfolding mountV_def by (rule eta_effectsV) (simp add: atLeastOne_def)
  show "list_all (\<lambda>e. numeric \<longrightarrow> numericEventV e) es"
    using assms by (rule list_all_numeric)
qed (rule eta_stepV)

subsection \<open>The total\<close>

lemma orZero_cases:
  "atLeastOne numeric m \<Longrightarrow>
   orZero m = Fin 0 \<or> (\<exists>k. orZero m = Fin k \<and> 1 \<le> k) \<or> (\<not> numeric \<and> orZero m = PosInf)"
  by (cases m; cases "the m")
     (auto simp: atLeastOne_def etaOk_def orZero_def truthy_def)

lemma totalMin_ok: "etaInv numeric s \<Longrightarrow> totalMin s = Some c \<Longrightarrow> etaOk numeric c \<and> c \<noteq> NaN"
  using orZero_cases[of numeric "minDU s"] orZero_cases[of numeric "minUD s"]
  by (auto simp: etaInv_def totalMin_def Let_def plusNumber_def positive_def etaOk_def split: if_splits)

lemma etaOk_numeric: "etaOk True n \<Longrightarrow> \<exists>k. n = Fin k \<and> 1 \<le> k"
  using etaOk_cases[of True n] by simp

lemma etaOk_any: "etaOk False n \<Longrightarrow> n = NaN \<or> n = PosInf \<or> (\<exists>k. n = Fin k \<and> 1 \<le> k)"
  using etaOk_cases[of False n] by auto

section \<open>Clicks on the map of the vias version\<close>

lemma effectsV_frame:
  "vias (effectsV b s) = vias s" "destV (effectsV b s) = destV s"
  "positionV (effectsV b s) = positionV s" "accuracyV (effectsV b s) = accuracyV s"
  by (simp_all add: effectsV_def routingEffectV_def runCleanupV_def fallbackV_def Let_def split: option.splits)

text \<open>
  Claim C8. In the vias version, with the map on the screen, a click with the Shift key
  held appends the clicked point to the end of the vias and leaves the destination as it
  is; a click without it sets the destination to the clicked point and leaves the vias as
  they are. This is the state after the click handler and the effects that follow it.
\<close>

theorem shift_click_adds_via:
  "positionV s \<noteq> None \<longrightarrow>
     vias (stepV s (ClickV True lat lng)) = vias s @ [(lat, lng)]
     \<and> destV (stepV s (ClickV True lat lng)) = destV s
     \<and> destV (stepV s (ClickV False lat lng)) = Some (lat, lng)
     \<and> vias (stepV s (ClickV False lat lng)) = vias s"
  by (simp add: stepV_def effectsV_frame click_def)

theorem shift_click_adds_via_witness:
  "positionV (runV (mountV True 0) [GpsFixV 0 0 5, ClickV True 1 2]) \<noteq> None
   \<and> vias (stepV (runV (mountV True 0) [GpsFixV 0 0 5, ClickV True 1 2]) (ClickV True 3 4)) = [(1, 2), (3, 4)]
   \<and> destV (stepV (runV (mountV True 0) [GpsFixV 0 0 5, ClickV True 1 2]) (ClickV True 3 4)) = None
   \<and> destV (stepV (runV (mountV True 0) [GpsFixV 0 0 5, ClickV True 1 2]) (ClickV False 3 4)) = Some (3, 4)
   \<and> vias (stepV (runV (mountV True 0) [GpsFixV 0 0 5, ClickV True 1 2]) (ClickV False 3 4)) = [(1, 2)]"
  using shift_click_adds_via[of "runV (mountV True 0) [GpsFixV 0 0 5, ClickV True 1 2]" 3 4]
  by (simp add: model_defs)

section \<open>The Clear button\<close>

lemma effects1_frame:
  "position (effects1 a b c s) = position s" "accuracy (effects1 a b c s) = accuracy s"
  "driver (effects1 a b c s) = driver s" "dest (effects1 a b c s) = dest s"
  "error (effects1 a b c s) = error s"
  by (simp_all add: effects1_def routingEffect1_def fallbackDU1_def fallbackUD1_def Let_def)

lemma effects3_frame:
  "position (effects3 a b c s) = position s" "accuracy (effects3 a b c s) = accuracy s"
  "driver (effects3 a b c s) = driver s" "dest (effects3 a b c s) = dest s"
  "error (effects3 a b c s) = error s" "follow (effects3 a b c s) = follow s"
  "lastDU (effects3 a b c s) = lastDU s" "lastUD (effects3 a b c s) = lastUD s"
  "abortDU (effects3 a b c s) = abortDU s" "abortUD (effects3 a b c s) = abortUD s"
  "aborted (effects3 a b c s) = aborted s" 
  "routeDU (effects3 a b c s) = routeDU s" "routeUD (effects3 a b c s) = routeUD s"
  by (simp_all add: effects3_def routingEffect3_def fallbackDU3_def fallbackUD3_def Let_def)

lemma clear1_effects:
  "driver s = None \<Longrightarrow> dest s = None \<Longrightarrow> kmDU s = None \<Longrightarrow> kmUD s = None \<Longrightarrow> minDU s = None \<Longrightarrow> minUD s = None
   \<Longrightarrow> routeDU s = [] \<Longrightarrow> routeUD s = [] \<Longrightarrow>
   kmDU (effects1 a b c s) = None \<and> kmUD (effects1 a b c s) = None \<and> minDU (effects1 a b c s) = None
   \<and> minUD (effects1 a b c s) = None \<and> routeDU (effects1 a b c s) = [] \<and> routeUD (effects1 a b c s) = []"
  by (simp add: effects1_def routingEffect1_def fallbackDU1_def fallbackUD1_def Let_def isLatLng_def)

lemma clear3_effects:
  "driver s = None \<Longrightarrow> dest s = None \<Longrightarrow> kmDU s = None \<Longrightarrow> kmUD s = None \<Longrightarrow> minDU s = None \<Longrightarrow> minUD s = None
   \<Longrightarrow>
   kmDU (effects3 a b c s) = None \<and> kmUD (effects3 a b c s) = None \<and> minDU (effects3 a b c s) = None
   \<and> minUD (effects3 a b c s) = None"
  by (simp add: effects3_def routingEffect3_def fallbackDU3_def fallbackUD3_def Let_def isLatLng_def)

lemma clearV_effects:
  "destV s = None \<Longrightarrow>
   distanceKm (effectsV b s) = distanceKm s \<and> durationMin (effectsV b s) = durationMin s
   \<and> routeCoords (effectsV b s) = routeCoords s \<and> errorV (effectsV b s) = errorV s"
  by (simp add: effectsV_def routingEffectV_def runCleanupV_def fallbackV_def Let_def isLatLng_def split: option.splits)

lemma clear3_fields:
  "driver (clear3 s) = None" "dest (clear3 s) = None" "kmDU (clear3 s) = None" "kmUD (clear3 s) = None"
  "minDU (clear3 s) = None" "minUD (clear3 s) = None" "routeDU (clear3 s) = []" "routeUD (clear3 s) = []"
  "error (clear3 s) = ''''" "follow (clear3 s)"
  "lastDU (clear3 s) = \<lparr>rec_from = None, rec_to = None, rec_ts = 0\<rparr>"
  "lastUD (clear3 s) = \<lparr>rec_from = None, rec_to = None, rec_ts = 0\<rparr>"
  "position (clear3 s) = position s" "accuracy (clear3 s) = accuracy s"
  "abortDU (clear3 s) = abortDU s" "abortUD (clear3 s) = abortUD s"
  by (simp_all add: clear3_def abortCurrent_def Let_def split: option.splits)

lemma clear3_aborted:
  "aborted (clear3 s) = aborted s \<union> set_option (abortDU s) \<union> set_option (abortUD s)"
  by (auto simp: clear3_def abortCurrent_def Let_def split: option.splits)

text \<open>
  Claim C10. Pressing Clear (the handler and the effects that follow it) leaves driver
  and destination unset (destination and vias in the vias version), the polylines empty,
  distances and estimates null and the error string empty; in the third version it also
  turns follow mode on, resets the record of what was last routed for each leg and calls
  \<open>abort()\<close> on the controller of each leg. Position and accuracy stay as they were.
\<close>

theorem clear_resets_ride_state:
  "(position s1 \<noteq> None \<longrightarrow>
      driver (step1 s1 PressClear) = None \<and> dest (step1 s1 PressClear) = None
      \<and> routeDU (step1 s1 PressClear) = [] \<and> routeUD (step1 s1 PressClear) = []
      \<and> kmDU (step1 s1 PressClear) = None \<and> kmUD (step1 s1 PressClear) = None
      \<and> minDU (step1 s1 PressClear) = None \<and> minUD (step1 s1 PressClear) = None
      \<and> error (step1 s1 PressClear) = ''''
      \<and> position (step1 s1 PressClear) = position s1 \<and> accuracy (step1 s1 PressClear) = accuracy s1)
   \<and> (position s3 \<noteq> None \<longrightarrow>
      driver (step3 s3 PressClear) = None \<and> dest (step3 s3 PressClear) = None
      \<and> routeDU (step3 s3 PressClear) = [] \<and> routeUD (step3 s3 PressClear) = []
      \<and> kmDU (step3 s3 PressClear) = None \<and> kmUD (step3 s3 PressClear) = None
      \<and> minDU (step3 s3 PressClear) = None \<and> minUD (step3 s3 PressClear) = None
      \<and> error (step3 s3 PressClear) = ''''
      \<and> follow (step3 s3 PressClear)
      \<and> lastDU (step3 s3 PressClear) = \<lparr>rec_from = None, rec_to = None, rec_ts = 0\<rparr>
      \<and> lastUD (step3 s3 PressClear) = \<lparr>rec_from = None, rec_to = None, rec_ts = 0\<rparr>
      \<and> aborted (step3 s3 PressClear) = aborted s3 \<union> set_option (abortDU s3) \<union> set_option (abortUD s3)
      \<and> position (step3 s3 PressClear) = position s3 \<and> accuracy (step3 s3 PressClear) = accuracy s3)
   \<and> (positionV sV \<noteq> None \<and> destV sV \<noteq> None \<longrightarrow>
      destV (stepV sV PressClearV) = None \<and> vias (stepV sV PressClearV) = []
      \<and> routeCoords (stepV sV PressClearV) = []
      \<and> distanceKm (stepV sV PressClearV) = None \<and> durationMin (stepV sV PressClearV) = None
      \<and> errorV (stepV sV PressClearV) = ''''
      \<and> positionV (stepV sV PressClearV) = positionV sV \<and> accuracyV (stepV sV PressClearV) = accuracyV sV)"
proof (intro conjI impI)
  assume "position s1 \<noteq> None"
  then have e: "step1 s1 PressClear = effects1 (driver s1 \<noteq> None) False (dest s1 \<noteq> None) (clear1 s1)"
    by (cases "position s1") (simp_all add: step1_def)
  have c: "kmDU (effects1 a b c (clear1 s1)) = None \<and> kmUD (effects1 a b c (clear1 s1)) = None
    \<and> minDU (effects1 a b c (clear1 s1)) = None \<and> minUD (effects1 a b c (clear1 s1)) = None
    \<and> routeDU (effects1 a b c (clear1 s1)) = [] \<and> routeUD (effects1 a b c (clear1 s1)) = []" for a b c
    by (rule clear1_effects) (simp_all add: clear1_def)
  show "driver (step1 s1 PressClear) = None" "dest (step1 s1 PressClear) = None"
    "routeDU (step1 s1 PressClear) = []" "routeUD (step1 s1 PressClear) = []"
    "kmDU (step1 s1 PressClear) = None" "kmUD (step1 s1 PressClear) = None"
    "minDU (step1 s1 PressClear) = None" "minUD (step1 s1 PressClear) = None"
    "error (step1 s1 PressClear) = ''''"
    "position (step1 s1 PressClear) = position s1" "accuracy (step1 s1 PressClear) = accuracy s1"
    unfolding e using c by (simp_all add: effects1_frame clear1_def)
next
  assume "position s3 \<noteq> None"
  then have e: "step3 s3 PressClear = effects3 (driver s3 \<noteq> None) False (dest s3 \<noteq> None) (clear3 s3)"
    by (cases "position s3") (simp_all add: step3_def)
  have c: "kmDU (effects3 a b c (clear3 s3)) = None \<and> kmUD (effects3 a b c (clear3 s3)) = None
    \<and> minDU (effects3 a b c (clear3 s3)) = None \<and> minUD (effects3 a b c (clear3 s3)) = None" for a b c
    by (rule clear3_effects) (simp_all add: clear3_fields)
  show "driver (step3 s3 PressClear) = None" "dest (step3 s3 PressClear) = None"
    "routeDU (step3 s3 PressClear) = []" "routeUD (step3 s3 PressClear) = []"
    "kmDU (step3 s3 PressClear) = None" "kmUD (step3 s3 PressClear) = None"
    "minDU (step3 s3 PressClear) = None" "minUD (step3 s3 PressClear) = None"
    "error (step3 s3 PressClear) = ''''" "follow (step3 s3 PressClear)"
    "lastDU (step3 s3 PressClear) = \<lparr>rec_from = None, rec_to = None, rec_ts = 0\<rparr>"
    "lastUD (step3 s3 PressClear) = \<lparr>rec_from = None, rec_to = None, rec_ts = 0\<rparr>"
    "aborted (step3 s3 PressClear) = aborted s3 \<union> set_option (abortDU s3) \<union> set_option (abortUD s3)"
    "position (step3 s3 PressClear) = position s3" "accuracy (step3 s3 PressClear) = accuracy s3"
    unfolding e using c by (simp_all add: effects3_frame clear3_fields clear3_aborted)
next
  assume "positionV sV \<noteq> None \<and> destV sV \<noteq> None"
  then have e: "stepV sV PressClearV = effectsV True (clearV sV)"
    by (cases "positionV sV"; cases "destV sV") (simp_all add: stepV_def)
  have c: "distanceKm (effectsV b (clearV sV)) = distanceKm (clearV sV) \<and> durationMin (effectsV b (clearV sV)) = durationMin (clearV sV)
   \<and> routeCoords (effectsV b (clearV sV)) = routeCoords (clearV sV) \<and> errorV (effectsV b (clearV sV)) = errorV (clearV sV)" for b
    by (rule clearV_effects) (simp add: clearV_def)
  show "destV (stepV sV PressClearV) = None" "vias (stepV sV PressClearV) = []"
      "routeCoords (stepV sV PressClearV) = []"
      "distanceKm (stepV sV PressClearV) = None" "durationMin (stepV sV PressClearV) = None"
      "errorV (stepV sV PressClearV) = ''''"
      "positionV (stepV sV PressClearV) = positionV sV" "accuracyV (stepV sV PressClearV) = accuracyV sV"
    unfolding e using c by (simp_all add: effectsV_frame clearV_def)
qed

section \<open>The example runs, evaluated\<close>

lemma trip1_value: "trip1 = 
   \<lparr>position = Some (0, 0), accuracy = Some 5, driver = Some (0, 0), dest = Some (0, 0),
    routeDU = [], routeUD = [], kmDU = Some ''0.00'', minDU = Some (Fin 1), kmUD = Some ''0.00'', minUD = Some (Fin 1),
    loadingDU = False, loadingUD = False, error = '''', tapMode = None, clock = 0, watching = True,
    timers = [\<lparr>due = 300, t_leg = DU, t_from = Some (0, 0), t_to = Some (0, 0)\<rparr>,
              \<lparr>due = 300, t_leg = UD, t_from = Some (0, 0), t_to = Some (0, 0)\<rparr>],
    requests = [], inflight = []\<rparr>"
  by (simp add: trip1_def tripEvents_def model_defs origin_simps DEBOUNCE1_def)

lemma trip3_value: "trip3 = 
   \<lparr>position = Some (0, 0), accuracy = Some 5, driver = Some (0, 0), dest = Some (0, 0),
    routeDU = [], routeUD = [], kmDU = Some ''0.00'', minDU = Some (Fin 1), kmUD = Some ''0.00'', minUD = Some (Fin 1),
    loadingDU = False, loadingUD = False, error = '''', tapMode = None, clock = 0, watching = True,
    timers = [\<lparr>due = 350, t_leg = DU, t_from = Some (0, 0), t_to = Some (0, 0)\<rparr>,
              \<lparr>due = 350, t_leg = UD, t_from = Some (0, 0), t_to = Some (0, 0)\<rparr>],
    requests = [], inflight = [],
    follow = True, movedRef = False,
    lastDU = \<lparr>rec_from = None, rec_to = None, rec_ts = 0\<rparr>,
    lastUD = \<lparr>rec_from = None, rec_to = None, rec_ts = 0\<rparr>,
    abortDU = None, abortUD = None, aborted = {}, nextController = 0\<rparr>"
  by (simp add: trip3_def tripEvents_def model_defs origin_simps DEBOUNCE3_def)

lemma chainKm_origin3: "chainKm [(0, 0), (0, 0), (0, 0)] 0 0 = 0"
  by (simp add: chainKm.simps haversineKm_origin)

lemma tripV_value: "tripV =
   \<lparr>positionV = Some (0, 0), accuracyV = Some 5, destV = Some (0, 0), vias = [(0, 0)],
    routeCoords = [], distanceKm = Some ''0.00'', durationMin = Some (Fin 1), loading = True,
    errorV = '''', avoidMotorway = False, avoidFerry = False, avoidToll = False,
    clockV = 0, watchingV = True,
    timersV = [\<lparr>dueV = 300, tv_run = 0, tv_url = buildRouteUrl (0, 0) [(0, 0)] (0, 0) False False False\<rparr>],
    canceledRuns = {}, cleanupV = Some 0, nextRun = 1, requestsV = [], inflightV = []\<rparr>"
  by (simp add: tripV_def tripEventsV_def model_defs origin_simps chainKm_origin3 DEBOUNCEV_def)

lemma flying1_value: "flying1 = trip1\<lparr>clock := 300, timers := [], loadingDU := True, loadingUD := True,
    requests := [\<lparr>fc_leg = DU, fc_url = legUrl (0, 0) (0, 0), fc_signal = None\<rparr>,
                 \<lparr>fc_leg = UD, fc_url = legUrl (0, 0) (0, 0), fc_signal = None\<rparr>],
    inflight := [\<lparr>fc_leg = DU, fc_url = legUrl (0, 0) (0, 0), fc_signal = None\<rparr>,
                 \<lparr>fc_leg = UD, fc_url = legUrl (0, 0) (0, 0), fc_signal = None\<rparr>]\<rparr>"
  by (simp add: flying1_def trip1_value model_defs)

lemma flying3_value: "flying3 = trip3\<lparr>clock := 350, timers := [], loadingDU := True, loadingUD := True,
    requests := [\<lparr>fc_leg = DU, fc_url = legUrl (0, 0) (0, 0), fc_signal = Some 0\<rparr>,
                 \<lparr>fc_leg = UD, fc_url = legUrl (0, 0) (0, 0), fc_signal = Some 1\<rparr>],
    inflight := [\<lparr>fc_leg = DU, fc_url = legUrl (0, 0) (0, 0), fc_signal = Some 0\<rparr>,
                 \<lparr>fc_leg = UD, fc_url = legUrl (0, 0) (0, 0), fc_signal = Some 1\<rparr>],
    lastDU := \<lparr>rec_from = Some (0, 0), rec_to = Some (0, 0), rec_ts = 350\<rparr>,
    lastUD := \<lparr>rec_from = Some (0, 0), rec_to = Some (0, 0), rec_ts = 350\<rparr>,
    abortDU := Some 0, abortUD := Some 1, nextController := 2\<rparr>"
  by (simp add: flying3_def trip3_value model_defs MIN_FETCH_INTERVAL_MS_def)

lemma flyingV_value: "flyingV = tripV\<lparr>clockV := 300, timersV := [],
    requestsV := [buildRouteUrl (0, 0) [(0, 0)] (0, 0) False False False], inflightV := [0]\<rparr>"
  by (simp add: flyingV_def tripV_value model_defs)

lemma cancelledV_value: "cancelledV = flyingV\<lparr>accuracyV := Some 5, positionV := Some (0, 0),
    timersV := [\<lparr>dueV = 600, tv_run = 1, tv_url = buildRouteUrl (0, 0) [(0, 0)] (0, 0) False False False\<rparr>],
    canceledRuns := {0}, cleanupV := Some 1, nextRun := 2\<rparr>"
  by (simp add: cancelledV_def flyingV_value tripV_value model_defs origin_simps chainKm_origin3 DEBOUNCEV_def)

lemma render_origin_legUrl: "render decimal (legUrl (0, 0) (0, 0)) = originLegUrl"
  by (simp add: render_def legUrl_def decimal_def showInt_def showNat.simps digit_def originLegUrl_def)

theorem clear_resets_ride_state_witness:
  "position flying1 \<noteq> None
   \<and> driver (step1 flying1 PressClear) = None \<and> dest (step1 flying1 PressClear) = None
   \<and> kmDU (step1 flying1 PressClear) = None \<and> minUD (step1 flying1 PressClear) = None
   \<and> position (step1 flying1 PressClear) = Some (0, 0) \<and> accuracy (step1 flying1 PressClear) = Some 5
   \<and> position flying3 \<noteq> None
   \<and> driver (step3 flying3 PressClear) = None \<and> dest (step3 flying3 PressClear) = None
   \<and> kmDU (step3 flying3 PressClear) = None \<and> minUD (step3 flying3 PressClear) = None
   \<and> follow (step3 flying3 PressClear)
   \<and> lastDU (step3 flying3 PressClear) = \<lparr>rec_from = None, rec_to = None, rec_ts = 0\<rparr>
   \<and> aborted (step3 flying3 PressClear) = {0, 1}
   \<and> position (step3 flying3 PressClear) = Some (0, 0) \<and> accuracy (step3 flying3 PressClear) = Some 5
   \<and> positionV tripV \<noteq> None \<and> destV tripV \<noteq> None
   \<and> destV (stepV tripV PressClearV) = None \<and> vias (stepV tripV PressClearV) = []
   \<and> distanceKm (stepV tripV PressClearV) = None \<and> durationMin (stepV tripV PressClearV) = None
   \<and> positionV (stepV tripV PressClearV) = Some (0, 0) \<and> accuracyV (stepV tripV PressClearV) = Some 5"
  using clear_resets_ride_state[of flying1 flying3 tripV]
  by (auto simp: flying1_value flying3_value trip1_value trip3_value tripV_value)

section \<open>Requests are made by due timers only, and go to the OSRM endpoint\<close>

lemma requests_effects3 [simp]: "requests (effects3 a b c s) = requests s"
  by (simp add: effects3_def routingEffect3_def fallbackDU3_def fallbackUD3_def Let_def)

lemma requests_effects1 [simp]: "requests (effects1 a b c s) = requests s"
  by (simp add: effects1_def routingEffect1_def fallbackDU1_def fallbackUD1_def Let_def)

lemma requests_setLoading [simp]: "requests (setLoading l b s) = requests s"
  by (cases l) (simp_all add: setLoading_def)

lemma requests_applyRoute [simp]: "requests (applyRoute l r s) = requests s"
  by (cases l) (simp_all add: applyRoute_def)

lemma requests_clear3 [simp]: "requests (clear3 s) = requests s"
  by (simp add: clear3_def abortCurrent_def Let_def split: option.splits)

lemma requests_settleLeg3 [simp]: "requests (settleLeg3 l c out s) = requests s"
  by (simp add: settleLeg3_def Let_def split: sum.splits)

lemma requests_settleLeg1 [simp]: "requests (settleLeg1 l out s) = requests s"
  by (simp add: settleLeg1_def Let_def split: sum.splits)

lemma requests_fetchLeg3:
  "requests (fetchLeg3 l f t s) = requests s
   \<or> (\<exists>p q. f = Some p \<and> t = Some q
        \<and> requests (fetchLeg3 l f t s)
            = requests s @ [\<lparr>fc_leg = l, fc_url = legUrl p q, fc_signal = Some (nextController s)\<rparr>])"
  by (cases l; cases f; cases t; cases "abortOf l s")
     (simp_all add: fetchLeg3_def Let_def isLatLng_def abortCurrent_def setAbort_def setLast_def setLoading_def)

lemma requests_fetchLeg1:
  "requests (fetchLeg1 l f t s) = requests s
   \<or> (\<exists>p q. f = Some p \<and> t = Some q
        \<and> requests (fetchLeg1 l f t s) = requests s @ [\<lparr>fc_leg = l, fc_url = legUrl p q, fc_signal = None\<rparr>])"
  by (cases l; cases f; cases t)
     (simp_all add: fetchLeg1_def Let_def isLatLng_def setLoading_def)

lemma requests_step3_other:
  "(\<forall>k. e \<noteq> TimerFires k) \<Longrightarrow> requests (step3 s e) = requests s"
  by (cases e) (simp_all add: step3_def toggleTap_def Let_def split: option.splits tapTarget.splits)

lemma requests_step1_other:
  "(\<forall>k. e \<noteq> TimerFires k) \<Longrightarrow> requests (step1 s e) = requests s"
  by (cases e) (simp_all add: step1_def toggleTap_def clear1_def Let_def split: option.splits tapTarget.splits)

lemma requests_step3_timer:
  "requests (step3 s (TimerFires k)) \<noteq> requests s \<Longrightarrow> k < length (timers s) \<and> due (timers s ! k) \<le> clock s"
  by (auto simp: step3_def split: if_splits)

lemma prefix_legUrl: "prefix osrmPrefix (render fmt (legUrl p q))"
  by (simp add: render_def legUrl_def osrmPrefix_def)

lemma prefix_buildRouteUrl: "prefix osrmPrefix (render fmt (buildRouteUrl p vs d a b c))"
  by (simp add: render_def buildRouteUrl_def osrmPrefix_def Let_def)

lemma urlsInv_step3: "urlsInv fmt s \<Longrightarrow> urlsInv fmt (step3 s e)"
proof (cases "\<exists>k. e = TimerFires k")
  case False
  assume "urlsInv fmt s"
  then show ?thesis using requests_step3_other[of e s] False by (simp add: urlsInv_def)
next
  case True
  then obtain k where e: "e = TimerFires k" by blast
  assume a: "urlsInv fmt s"
  show ?thesis
  proof (cases "k < length (timers s) \<and> due (timers s ! k) \<le> clock s")
    case False
    then show ?thesis using a by (auto simp: e step3_def)
  next
    case True
    let ?t = "timers s ! k"
    let ?s = "s\<lparr>timers := removeAt k (timers s)\<rparr>"
    have s: "step3 s e = fetchLeg3 (t_leg ?t) (t_from ?t) (t_to ?t) ?s"
      using True by (simp add: e step3_def Let_def)
    show ?thesis
      using requests_fetchLeg3[of "t_leg ?t" "t_from ?t" "t_to ?t" ?s] a
      unfolding s urlsInv_def by (auto simp: prefix_legUrl)
  qed
qed

lemma urlsInv_step1: "urlsInv fmt s \<Longrightarrow> urlsInv fmt (step1 s e)"
proof (cases "\<exists>k. e = TimerFires k")
  case False
  assume "urlsInv fmt s"
  then show ?thesis using requests_step1_other[of e s] False by (simp add: urlsInv_def)
next
  case True
  then obtain k where e: "e = TimerFires k" by blast
  assume a: "urlsInv fmt s"
  show ?thesis
  proof (cases "k < length (timers s) \<and> due (timers s ! k) \<le> clock s")
    case False
    then show ?thesis using a by (auto simp: e step1_def)
  next
    case True
    let ?t = "timers s ! k"
    let ?s = "s\<lparr>timers := removeAt k (timers s)\<rparr>"
    have s: "step1 s e = fetchLeg1 (t_leg ?t) (t_from ?t) (t_to ?t) ?s"
      using True by (simp add: e step1_def Let_def)
    show ?thesis
      using requests_fetchLeg1[of "t_leg ?t" "t_from ?t" "t_to ?t" ?s] a
      unfolding s urlsInv_def by (auto simp: prefix_legUrl)
  qed
qed

lemma urlsInv_run3: "urlsInv fmt (run3 (mount3 geo t0) es)"
  unfolding run3_def
proof (rule foldl_invariant[where P = "urlsInv fmt"])
  show "urlsInv fmt (mount3 geo t0)" by (simp add: mount3_def urlsInv_def)
qed (rule urlsInv_step3)

lemma urlsInv_run1: "urlsInv fmt (run1 (mount1 geo t0) es)"
  unfolding run1_def
proof (rule foldl_invariant[where P = "urlsInv fmt"])
  show "urlsInv fmt (mount1 geo t0)" by (simp add: mount1_def urlsInv_def)
qed (rule urlsInv_step1)

lemma list_all_removeAt: "list_all P xs \<Longrightarrow> list_all P (removeAt k xs)"
  by (auto simp: removeAt_def list_all_iff dest: in_set_takeD in_set_dropD)

lemma urlsInvV_effectsV: "urlsInvV fmt s \<Longrightarrow> urlsInvV fmt (effectsV b s)"
  by (auto simp: urlsInvV_def effectsV_def routingEffectV_def runCleanupV_def fallbackV_def Let_def
      prefix_buildRouteUrl list_all_iff split: option.splits)

lemma urlsInvV_settleV: "urlsInvV fmt s \<Longrightarrow> urlsInvV fmt (settleV k out s)"
  by (simp add: urlsInvV_def settleV_def Let_def split: sum.splits)

lemma urlsInvV_upd:
  "urlsInvV fmt s \<Longrightarrow> requestsV s' = requestsV s \<Longrightarrow> timersV s' = timersV s \<Longrightarrow> urlsInvV fmt s'"
  by (simp add: urlsInvV_def)

lemma urlsInvV_stepV: "urlsInvV fmt s \<Longrightarrow> urlsInvV fmt (stepV s e)"
proof (cases e)
  case (TimerFiresV k)
  assume a: "urlsInvV fmt s"
  show ?thesis
  proof (cases "k < length (timersV s) \<and> dueV (timersV s ! k) \<le> clockV s")
    case True
    then have "prefix osrmPrefix (render fmt (tv_url (timersV s ! k)))"
      using a by (simp add: urlsInvV_def list_all_length)
    then show ?thesis using a True
      by (simp add: TimerFiresV stepV_def fetchV_def urlsInvV_def list_all_removeAt Let_def)
  next
    case False
    then show ?thesis using a by (auto simp: TimerFiresV stepV_def)
  qed
next
  case (SettlesV k out)
  assume a: "urlsInvV fmt s"
  then have "urlsInvV fmt (s\<lparr>inflightV := removeAt k (inflightV s)\<rparr>)" by (simp add: urlsInvV_def)
  then show ?thesis using a by (simp add: SettlesV stepV_def urlsInvV_settleV)
qed (auto simp: stepV_def click_def clearV_def intro!: urlsInvV_effectsV elim: urlsInvV_upd)

lemma urlsInvV_runV: "urlsInvV fmt (runV (mountV geo t0) es)"
  unfolding runV_def
proof (rule foldl_invariant[where P = "urlsInvV fmt"])
  show "urlsInvV fmt (mountV geo t0)"
    unfolding mountV_def by (rule urlsInvV_effectsV) (simp add: urlsInvV_def)
qed (rule urlsInvV_stepV)

text \<open>
  Claim C6 says that the request URL uses the \<open>http\<close> scheme. The URLs of the two requests
  of the example do not start with \<open>http://\<close>.
\<close>

theorem osrm_request_not_plain_http:
  "length (requests flying3) = 2
   \<and> render decimal (fc_url (requests flying3 ! 0)) = originLegUrl
   \<and> render decimal (fc_url (requests flying3 ! 1)) = originLegUrl
   \<and> \<not> prefix ''http://'' originLegUrl"
  by (simp add: flying3_value render_origin_legUrl) (simp add: originLegUrl_def)

text \<open>
  Claim C6, amended. Every request any of the three versions makes, in any run, has a URL
  that starts with \<open>https://router.project-osrm.org/\<close>, however numbers are printed.
\<close>

theorem osrm_requests_use_https:
  "(\<forall>c \<in> set (requests (run1 (mount1 geo t0) es1)). prefix ''https://router.project-osrm.org/'' (render fmt (fc_url c)))
   \<and> (\<forall>c \<in> set (requests (run3 (mount3 geo t0) es3)). prefix ''https://router.project-osrm.org/'' (render fmt (fc_url c)))
   \<and> (\<forall>u \<in> set (requestsV (runV (mountV geo t0) esV)). prefix ''https://router.project-osrm.org/'' (render fmt u))"
proof -
  have p: "prefix osrmPrefix x \<Longrightarrow> prefix ''https://router.project-osrm.org/'' x" for x
    by (auto simp: osrmPrefix_def prefix_def)
  show ?thesis
    using urlsInv_run1[of fmt geo t0 es1] urlsInv_run3[of fmt geo t0 es3] urlsInvV_runV[of fmt geo t0 esV]
    by (auto simp: urlsInv_def urlsInvV_def list_all_iff intro: p)
qed

lemma flying1_run: "run1 (mount1 True 0) (tripEvents @ [Elapse 300, TimerFires 0, TimerFires 0]) = flying1"
  by (simp add: flying1_def trip1_def run1_def)

lemma flying3_run: "run3 (mount3 True 0) (tripEvents @ [Elapse 350, TimerFires 0, TimerFires 0]) = flying3"
  by (simp add: flying3_def trip3_def run3_def)

lemma flyingV_run: "runV (mountV True 0) (tripEventsV @ [ElapseV 300, TimerFiresV 0]) = flyingV"
  by (simp add: flyingV_def tripV_def runV_def)

section \<open>The debounce timers\<close>

lemma timersCurrent_cong:
  assumes "timersCurrent s" "timers s' = timers s" "driver s' = driver s" "position s' = position s"
    "dest s' = dest s"
  shows "timersCurrent s'"
proof -
  have "inputsOf l s' = inputsOf l s" for l
    by (cases l) (simp_all add: inputsOf_def assms(3-5))
  then show ?thesis using assms(1,2) by (simp add: timersCurrent_def)
qed

lemma timersCurrent_removeAt:
  assumes "timersCurrent s" "timers s' = removeAt k (timers s)" "driver s' = driver s"
    "position s' = position s" "dest s' = dest s"
  shows "timersCurrent s'"
proof -
  have "inputsOf l s' = inputsOf l s" for l
    by (cases l) (simp_all add: inputsOf_def assms(3-5))
  then show ?thesis
    using assms(1,2) list_all_removeAt[of "\<lambda>t. (t_from t, t_to t) = inputsOf (t_leg t) s" "timers s" k]
    by (simp add: timersCurrent_def)
qed

lemma inputs_fallback3 [simp]:
  "driver (fallbackDU3 s) = driver s" "position (fallbackDU3 s) = position s" "dest (fallbackDU3 s) = dest s"
  "driver (fallbackUD3 s) = driver s" "position (fallbackUD3 s) = position s" "dest (fallbackUD3 s) = dest s"
  "timers (fallbackDU3 s) = timers s" "timers (fallbackUD3 s) = timers s"
  "clock (fallbackDU3 s) = clock s" "clock (fallbackUD3 s) = clock s"
  by (simp_all add: fallbackDU3_def fallbackUD3_def Let_def)

lemma timersCurrent_routingEffect3: "timersCurrent (routingEffect3 s)"
  by (simp add: timersCurrent_def routingEffect3_def inputsOf_def Let_def)

lemma timers_routingEffect3: "list_all (\<lambda>t. due t = clock s + 350) (timers (routingEffect3 s))"
  by (simp add: routingEffect3_def DEBOUNCE3_def Let_def)

lemma timersCurrent_effects3:
  "a \<or> b \<or> c \<Longrightarrow> timersCurrent (effects3 a b c s)"
  by (auto simp: effects3_def Let_def timersCurrent_routingEffect3)

lemma due_effects3:
  "a \<or> b \<or> c \<Longrightarrow> list_all (\<lambda>t. due t = clock s + 350) (timers (effects3 a b c s))"
  using timers_routingEffect3[of "fallbackUD3 (fallbackDU3 s)"] timers_routingEffect3[of "fallbackDU3 s"]
    timers_routingEffect3[of "fallbackUD3 s"] timers_routingEffect3[of s]
  by (auto simp: effects3_def Let_def)

lemma effects3_none [simp]: "effects3 False False False s = s"
  by (simp add: effects3_def)

lemma fetchLeg3_frame [simp]:
  "timers (fetchLeg3 l f t s) = timers s" "driver (fetchLeg3 l f t s) = driver s"
  "position (fetchLeg3 l f t s) = position s" "dest (fetchLeg3 l f t s) = dest s"
  "clock (fetchLeg3 l f t s) = clock s"
  by (cases l; cases "abortOf l s";
      simp add: fetchLeg3_def Let_def abortCurrent_def setAbort_def setLast_def setLoading_def)+

lemma settleLeg3_frame [simp]:
  "timers (settleLeg3 l c out s) = timers s" "driver (settleLeg3 l c out s) = driver s"
  "position (settleLeg3 l c out s) = position s" "dest (settleLeg3 l c out s) = dest s"
  "clock (settleLeg3 l c out s) = clock s"
  by (cases l; simp add: settleLeg3_def Let_def setLoading_def applyRoute_def split: sum.splits)+

lemma clear3_frame [simp]: "timers (clear3 s) = timers s" "clock (clear3 s) = clock s"
  by (simp_all add: clear3_def abortCurrent_def Let_def split: option.splits)

text \<open>What an event does to the timers: nothing, one removed, or all replaced.\<close>

lemma timers_step3:
  "(timers (step3 s e) = timers s
      \<and> driver (step3 s e) = driver s \<and> position (step3 s e) = position s \<and> dest (step3 s e) = dest s)
   \<or> (\<exists>k. timers (step3 s e) = removeAt k (timers s)
      \<and> driver (step3 s e) = driver s \<and> position (step3 s e) = position s \<and> dest (step3 s e) = dest s)
   \<or> (timersCurrent (step3 s e) \<and> list_all (\<lambda>t. due t = clock s + 350) (timers (step3 s e)))"
proof (cases e)
  case (GpsFix lat lon acc)
  then show ?thesis
    using timersCurrent_effects3[of False True False] due_effects3[of False True False
        "s\<lparr>error := '''', position := Some (roundGPS (lat, lon)), accuracy := Some acc\<rparr>"]
    by (simp add: step3_def)
next
  case (MapClick lat lng)
  then show ?thesis
    using timersCurrent_effects3[of True False False] timersCurrent_effects3[of False False True]
      due_effects3[of True False False "s\<lparr>driver := Some (lat, lng), tapMode := None\<rparr>"]
      due_effects3[of False False True "s\<lparr>dest := Some (lat, lng), tapMode := None\<rparr>"]
    by (simp add: step3_def split: option.splits tapTarget.splits)
next
  case PressClear
  show ?thesis
  proof (cases "position s = None \<or> (driver s = None \<and> dest s = None)")
    case True
    then show ?thesis by (auto simp: PressClear step3_def clear3_fields)
  next
    case False
    then have "timersCurrent (step3 s e) \<and> list_all (\<lambda>t. due t = clock s + 350) (timers (step3 s e))"
      using timersCurrent_effects3[of "driver s \<noteq> None" False "dest s \<noteq> None" "clear3 s"]
        due_effects3[of "driver s \<noteq> None" False "dest s \<noteq> None" "clear3 s"]
      by (auto simp: PressClear step3_def)
    then show ?thesis by blast
  qed
next
  case (TimerFires k)
  then show ?thesis by (auto simp: step3_def Let_def)
next
  case (Settles k out)
  then show ?thesis by (auto simp: step3_def Let_def split: option.splits)
qed (simp_all add: step3_def toggleTap_def)

lemma timersCurrent_step3: "timersCurrent s \<Longrightarrow> timersCurrent (step3 s e)"
  using timers_step3[of s e] by (auto elim: timersCurrent_cong timersCurrent_removeAt)

lemma timersCurrent_run3: "timersCurrent (run3 (mount3 geo t0) es)"
  unfolding run3_def
proof (rule foldl_invariant[where P = timersCurrent])
  show "timersCurrent (mount3 geo t0)" unfolding mount3_def by (rule timersCurrent_effects3) simp
qed (rule timersCurrent_step3)

lemma in_set_removeAt: "t \<in> set (removeAt k xs) \<Longrightarrow> t \<in> set xs"
  by (auto simp: removeAt_def dest: in_set_takeD in_set_dropD)

lemma due_step3: "t \<in> set (timers (step3 s e)) \<Longrightarrow> t \<in> set (timers s) \<or> due t = clock s + 350"
  using timers_step3[of s e] by (auto simp: list_all_iff dest: in_set_removeAt)

lemma changed_step3:
  "(driver (step3 s e), position (step3 s e), dest (step3 s e)) \<noteq> (driver s, position s, dest s)
   \<Longrightarrow> t \<in> set (timers (step3 s e)) \<Longrightarrow> due t = clock s + 350"
  using timers_step3[of s e] by (auto simp: list_all_iff)

lemma gate_skips:
  "rec_from (lastOf l s) = Some a \<Longrightarrow> rec_to (lastOf l s) = Some b \<Longrightarrow> clock s - rec_ts (lastOf l s) < 5000
   \<Longrightarrow> distanceMeters a f < 30 \<Longrightarrow> distanceMeters b t < 30 \<Longrightarrow> fetchLeg3 l (Some f) (Some t) s = s"
  by (simp add: fetchLeg3_def gateDistance_def isLatLng_def MIN_FETCH_INTERVAL_MS_def MIN_MOVE_M_def Let_def)

text \<open>The first version and the vias version: timers are set 300 ms ahead.\<close>

lemma due_step1: "t \<in> set (timers (step1 s e)) \<Longrightarrow> t \<in> set (timers s) \<or> due t = clock s + 300"
  by (cases e)
     (auto simp: step1_def effects1_def routingEffect1_def fallbackDU1_def fallbackUD1_def fetchLeg1_def
        settleLeg1_def setLoading_def applyRoute_def toggleTap_def clear1_def DEBOUNCE1_def Let_def
        dest: in_set_removeAt split: option.splits tapTarget.splits if_splits leg.splits sum.splits)

lemma due_effectsV: "t \<in> set (timersV (effectsV b s)) \<Longrightarrow> t \<in> set (timersV s) \<or> dueV t = clockV s + 300"
  by (auto simp: effectsV_def routingEffectV_def runCleanupV_def fallbackV_def DEBOUNCEV_def Let_def
      split: option.splits if_splits)

lemma due_stepV: "t \<in> set (timersV (stepV s e)) \<Longrightarrow> t \<in> set (timersV s) \<or> dueV t = clockV s + 300"
  by (cases e)
     (auto simp: stepV_def fetchV_def settleV_def click_def clearV_def Let_def
        dest: in_set_removeAt dest!: due_effectsV split: if_splits sum.splits)

theorem osrm_requests_use_https_witness:
  "requests (run1 (mount1 True 0) (tripEvents @ [Elapse 300, TimerFires 0, TimerFires 0]))
     = [\<lparr>fc_leg = DU, fc_url = legUrl (0, 0) (0, 0), fc_signal = None\<rparr>,
        \<lparr>fc_leg = UD, fc_url = legUrl (0, 0) (0, 0), fc_signal = None\<rparr>]
   \<and> requests (run3 (mount3 True 0) (tripEvents @ [Elapse 350, TimerFires 0, TimerFires 0]))
     = [\<lparr>fc_leg = DU, fc_url = legUrl (0, 0) (0, 0), fc_signal = Some 0\<rparr>,
        \<lparr>fc_leg = UD, fc_url = legUrl (0, 0) (0, 0), fc_signal = Some 1\<rparr>]
   \<and> requestsV (runV (mountV True 0) (tripEventsV @ [ElapseV 300, TimerFiresV 0]))
     = [buildRouteUrl (0, 0) [(0, 0)] (0, 0) False False False]
   \<and> prefix ''https://router.project-osrm.org/'' (render decimal (legUrl (0, 0) (0, 0)))
   \<and> prefix ''https://router.project-osrm.org/''
        (render decimal (buildRouteUrl (0, 0) [(0, 0)] (0, 0) False False False))"
  using osrm_requests_use_https[of True 0 "tripEvents @ [Elapse 300, TimerFires 0, TimerFires 0]" decimal
      "tripEvents @ [Elapse 350, TimerFires 0, TimerFires 0]" "tripEventsV @ [ElapseV 300, TimerFiresV 0]"]
  by (simp add: flying1_run flying3_run flyingV_run flying1_value flying3_value flyingV_value)

lemma distanceMeters_origin: "distanceMeters (0, 0) (0, 0) = 0"
  by (simp add: distanceMeters_def haversineKm_origin)

lemma roundGPS_one: "roundGPS (1, 1) = (1, 1)"
  by (simp add: roundGPS_def toFixed5_def)

lemma elapsed3_value: "step3 trip3 (Elapse 350) = trip3\<lparr>clock := 350\<rparr>"
  by (simp add: step3_def trip3_value)

section \<open>Controllers and the latest request of a leg\<close>

lemma latestCall_alt:
  "latestCall l xs = (if filter (\<lambda>c. fc_leg c = l) xs = [] then None
                      else Some (last (filter (\<lambda>c. fc_leg c = l) xs)))"
  by (simp add: latestCall_def split: list.splits)

lemma latestCall_append:
  "latestCall l (xs @ [c]) = (if fc_leg c = l then Some c else latestCall l xs)"
  by (simp add: latestCall_alt)

lemma latestCall_mem: "latestCall l xs = Some c \<Longrightarrow> c \<in> set xs \<and> fc_leg c = l"
proof -
  assume a: "latestCall l xs = Some c"
  then have ne: "filter (\<lambda>c. fc_leg c = l) xs \<noteq> []" and c: "c = last (filter (\<lambda>c. fc_leg c = l) xs)"
    by (auto simp: latestCall_alt split: if_splits)
  then have "c \<in> set (filter (\<lambda>c. fc_leg c = l) xs)" using last_in_set by blast
  then show ?thesis by simp
qed

lemma latestCall_exists: "c \<in> set xs \<Longrightarrow> \<exists>d. latestCall (fc_leg c) xs = Some d"
proof -
  assume "c \<in> set xs"
  then have "filter (\<lambda>d. fc_leg d = fc_leg c) xs \<noteq> []" by (auto simp: filter_empty_conv)
  then show ?thesis by (simp add: latestCall_alt)
qed

text \<open>What \<open>fetchLeg\<close> does when it gets past its guards, and what when it does not.\<close>

lemma fetchLeg3_skipped: "skips l f t s \<Longrightarrow> fetchLeg3 l f t s = s"
  unfolding skips_def fetchLeg3_def Let_def by (simp split: if_splits)

lemma fetchLeg3_issued:
  assumes "\<not> skips l f t s"
  shows "requests (fetchLeg3 l f t s)
           = requests s @ [\<lparr>fc_leg = l, fc_url = legUrl (the f) (the t), fc_signal = Some (nextController s)\<rparr>]"
    and "inflight (fetchLeg3 l f t s)
           = inflight s @ [\<lparr>fc_leg = l, fc_url = legUrl (the f) (the t), fc_signal = Some (nextController s)\<rparr>]"
    and "nextController (fetchLeg3 l f t s) = Suc (nextController s)"
    and "aborted (fetchLeg3 l f t s) = aborted s \<union> set_option (abortOf l s)"
    and "abortOf l (fetchLeg3 l f t s) = Some (nextController s)"
    and "abortOf (otherLeg l) (fetchLeg3 l f t s) = abortOf (otherLeg l) s"
proof -
  have g: "isLatLng f" "isLatLng t"
    "\<not> (clock s - rec_ts (lastOf l s) < MIN_FETCH_INTERVAL_MS
         \<and> lessThanMetres (gateDistance (lastOf l s) (the f) (the t)) MIN_MOVE_M)"
    using assms by (auto simp: skips_def)
  have ab: "nextController (abortCurrent c s) = nextController s" "requests (abortCurrent c s) = requests s"
    "inflight (abortCurrent c s) = inflight s" "aborted (abortCurrent c s) = aborted s \<union> set_option c"
    "abortDU (abortCurrent c s) = abortDU s" "abortUD (abortCurrent c s) = abortUD s" for c
    by (cases c; simp add: abortCurrent_def)+
  show "requests (fetchLeg3 l f t s)
           = requests s @ [\<lparr>fc_leg = l, fc_url = legUrl (the f) (the t), fc_signal = Some (nextController s)\<rparr>]"
    using g by (cases l) (auto simp: fetchLeg3_def Let_def setAbort_def setLast_def setLoading_def ab)
  show "inflight (fetchLeg3 l f t s)
           = inflight s @ [\<lparr>fc_leg = l, fc_url = legUrl (the f) (the t), fc_signal = Some (nextController s)\<rparr>]"
    using g by (cases l) (auto simp: fetchLeg3_def Let_def setAbort_def setLast_def setLoading_def ab)
  show "nextController (fetchLeg3 l f t s) = Suc (nextController s)"
    using g by (cases l) (auto simp: fetchLeg3_def Let_def setAbort_def setLast_def setLoading_def ab)
  show "aborted (fetchLeg3 l f t s) = aborted s \<union> set_option (abortOf l s)"
    using g by (cases l) (auto simp: fetchLeg3_def Let_def setAbort_def setLast_def setLoading_def ab)
  show "abortOf l (fetchLeg3 l f t s) = Some (nextController s)"
    using g by (cases l) (auto simp: fetchLeg3_def Let_def setAbort_def setLast_def setLoading_def ab abortOf_def)
  show "abortOf (otherLeg l) (fetchLeg3 l f t s) = abortOf (otherLeg l) s"
    using g by (cases l) (auto simp: fetchLeg3_def Let_def setAbort_def setLast_def setLoading_def ab abortOf_def otherLeg_def)
qed

lemma abortOf_bound:
  assumes "signalsFresh s" "holdsLatest l s" "abortOf l s = Some p"
  shows "p < nextController s"
proof -
  from assms(2,3) obtain c where c: "latestCall l (requests s) = Some c" "fc_signal c = Some p"
    by (auto simp: holdsLatest_def split: option.splits)
  then have "c \<in> set (requests s)" using latestCall_mem by blast
  then show ?thesis using assms(1) c(2) by (auto simp: signalsFresh_def list_all_iff)
qed

lemma holdsLatest_both: "requestsInv s \<Longrightarrow> holdsLatest l s"
  by (cases l) (simp_all add: requestsInv_def)

lemma requestsInv_fetchLeg3:
  assumes inv: "requestsInv s"
  shows "requestsInv (fetchLeg3 l f t s)"
proof (cases "skips l f t s")
  case True
  then show ?thesis using inv by (simp add: fetchLeg3_skipped)
next
  case False
  let ?s = "fetchLeg3 l f t s"
  let ?c = "\<lparr>fc_leg = l, fc_url = legUrl (the f) (the t), fc_signal = Some (nextController s)\<rparr>"
  note i = fetchLeg3_issued[OF False]
  have fresh: "signalsFresh s" and dist: "distinct (map fc_signal (requests s))"
    and sub: "set (inflight s) \<subseteq> set (requests s)" and ab: "aborted s \<subseteq> {..<nextController s}"
    using inv by (simp_all add: requestsInv_def)
  have old: "\<And>c. c \<in> set (requests s) \<Longrightarrow> \<exists>k. fc_signal c = Some k \<and> k < nextController s"
    using fresh by (auto simp: signalsFresh_def list_all_iff split: option.splits)
  have 1: "signalsFresh ?s"
    using old by (fastforce simp: signalsFresh_def i list_all_iff)
  have "Some (nextController s) \<notin> fc_signal ` set (requests s)"
    using old by force
  then have 2: "distinct (map fc_signal (requests ?s))"
    using dist by (simp add: i)
  have 3: "holdsLatest l ?s"
    by (simp add: holdsLatest_def i latestCall_append)
  have ne: "l \<noteq> otherLeg l" by (cases l) (simp_all add: otherLeg_def)
  have 4: "holdsLatest (otherLeg l) ?s"
    using holdsLatest_both[OF inv, of "otherLeg l"] ne
    by (simp add: holdsLatest_def i latestCall_append)
  have 5: "set (inflight ?s) \<subseteq> set (requests ?s)"
    using sub by (auto simp: i)
  have 6: "aborted ?s \<subseteq> {..<nextController ?s}"
    using ab abortOf_bound[OF fresh holdsLatest_both[OF inv], of l]
    by (auto simp: i less_Suc_eq)
  have "holdsLatest DU ?s \<and> holdsLatest UD ?s"
    using 3 4 by (cases l) (simp_all add: otherLeg_def)
  then show ?thesis
    using 1 2 5 6 by (simp add: requestsInv_def)
qed

lemma requestsInv_grow:
  assumes "requestsInv s" "requests s' = requests s" "set (inflight s') \<subseteq> set (inflight s)"
    "abortDU s' = abortDU s" "abortUD s' = abortUD s" "aborted s' \<subseteq> {..<nextController s}"
    "nextController s' = nextController s"
  shows "requestsInv s'"
proof -
  have 1: "signalsFresh s' = signalsFresh s"
    by (simp add: signalsFresh_def assms(2,7) cong: option.case_cong)
  have 2: "holdsLatest l s' = holdsLatest l s" for l
    by (cases l) (simp_all add: holdsLatest_def abortOf_def assms(2,4,5))
  have 3: "set (inflight s') \<subseteq> set (requests s')"
    using assms(1,3) by (auto simp: requestsInv_def assms(2))
  show ?thesis
    using assms(1,6) 3 unfolding requestsInv_def 1 2 assms(2,7) by simp
qed

lemma requestsInv_cong:
  assumes "requestsInv s" "requests s' = requests s" "set (inflight s') \<subseteq> set (inflight s)"
    "abortDU s' = abortDU s" "abortUD s' = abortUD s" "aborted s' = aborted s"
    "nextController s' = nextController s"
  shows "requestsInv s'"
  using assms(1) by (rule requestsInv_grow) (use assms in \<open>simp_all add: requestsInv_def\<close>)

lemma settleLeg3_ctl [simp]:
  "inflight (settleLeg3 l c out s) = inflight s"
  "abortDU (settleLeg3 l c out s) = abortDU s" "abortUD (settleLeg3 l c out s) = abortUD s"
  "aborted (settleLeg3 l c out s) = aborted s" "nextController (settleLeg3 l c out s) = nextController s"
  by (cases l; simp add: settleLeg3_def Let_def setLoading_def applyRoute_def split: sum.splits)+

lemma effects3_ctl [simp]:
  "inflight (effects3 a b c s) = inflight s" "nextController (effects3 a b c s) = nextController s"
  by (simp_all add: effects3_def routingEffect3_def fallbackDU3_def fallbackUD3_def Let_def)

lemma clear3_ctl [simp]:
  "inflight (clear3 s) = inflight s" "nextController (clear3 s) = nextController s"
  by (simp_all add: clear3_def abortCurrent_def Let_def split: option.splits)

lemma requestsInv_effects3:
  assumes "requestsInv s" "requests s0 = requests s" "set (inflight s0) \<subseteq> set (inflight s)"
    "abortDU s0 = abortDU s" "abortUD s0 = abortUD s" "aborted s0 = aborted s"
    "nextController s0 = nextController s"
  shows "requestsInv (effects3 a b c s0)"
  by (rule requestsInv_cong[OF assms(1)]) (simp_all add: effects3_frame assms(2-7))

lemma requestsInv_clear3:
  assumes inv: "requestsInv s"
  shows "requestsInv (effects3 a b c (clear3 s))"
proof -
  have fresh: "signalsFresh s" using inv by (simp add: requestsInv_def)
  have b: "set_option (abortDU s) \<subseteq> {..<nextController s}" "set_option (abortUD s) \<subseteq> {..<nextController s}"
    using abortOf_bound[OF fresh holdsLatest_both[OF inv], of DU]
      abortOf_bound[OF fresh holdsLatest_both[OF inv], of UD]
    by (auto simp: abortOf_def)
  show ?thesis
    using inv
  proof (rule requestsInv_grow)
    show "aborted (effects3 a b c (clear3 s)) \<subseteq> {..<nextController s}"
      using inv b by (auto simp: effects3_frame clear3_aborted requestsInv_def)
  qed (simp_all add: effects3_frame clear3_fields)
qed

lemma requestsInv_step3: "requestsInv s \<Longrightarrow> requestsInv (step3 s e)"
proof (cases e)
  case (GpsFix lat lon acc)
  assume a: "requestsInv s"
  have "requestsInv (effects3 False True False
      (s\<lparr>error := '''', position := Some (roundGPS (lat, lon)), accuracy := Some acc\<rparr>))"
    by (rule requestsInv_effects3[OF a]) simp_all
  then show ?thesis using a by (simp add: GpsFix step3_def)
next
  case (MapClick lat lng)
  assume a: "requestsInv s"
  have "requestsInv (effects3 True False False (s\<lparr>driver := Some (lat, lng), tapMode := None\<rparr>))"
    "requestsInv (effects3 False False True (s\<lparr>dest := Some (lat, lng), tapMode := None\<rparr>))"
    by (rule requestsInv_effects3[OF a]; simp)+
  then show ?thesis using a
    by (simp add: MapClick step3_def split: option.splits tapTarget.splits)
next
  case PressClear
  assume "requestsInv s"
  then show ?thesis by (simp add: PressClear step3_def requestsInv_clear3)
next
  case (TimerFires k)
  assume a: "requestsInv s"
  then have "requestsInv (s\<lparr>timers := removeAt k (timers s)\<rparr>)"
    by (rule requestsInv_cong) simp_all
  then show ?thesis using a by (simp add: TimerFires step3_def Let_def requestsInv_fetchLeg3)
next
  case (Settles k out)
  assume a: "requestsInv s"
  show ?thesis
  proof (cases "k < length (inflight s)")
    case False
    then show ?thesis using a by (simp add: Settles step3_def)
  next
    case True
    show ?thesis
    proof (cases "fc_signal (inflight s ! k)")
      case None
      then show ?thesis using a True by (simp add: Settles step3_def Let_def)
    next
      case (Some c)
      have "requestsInv (settleLeg3 (fc_leg (inflight s ! k)) c out (s\<lparr>inflight := removeAt k (inflight s)\<rparr>))"
        using a by (rule requestsInv_cong) (auto dest: in_set_removeAt)
      then show ?thesis using True Some by (simp add: Settles step3_def Let_def)
    qed
  qed
next
  case (GpsError msg)
  assume a: "requestsInv s"
  have "requestsInv (s\<lparr>error := gpsErrorText msg\<rparr>)" using a by (rule requestsInv_cong) simp_all
  then show ?thesis using a by (simp add: GpsError step3_def)
next
  case PressSetDriver
  assume a: "requestsInv s"
  have "requestsInv (toggleTap Driver s)" using a by (rule requestsInv_cong) (simp_all add: toggleTap_def)
  then show ?thesis using a by (simp add: PressSetDriver step3_def)
next
  case PressSetDest
  assume a: "requestsInv s"
  have "requestsInv (toggleTap Dest s)" using a by (rule requestsInv_cong) (simp_all add: toggleTap_def)
  then show ?thesis using a by (simp add: PressSetDest step3_def)
next
  case DragStart
  assume a: "requestsInv s"
  have "requestsInv (s\<lparr>movedRef := True, follow := False\<rparr>)" using a by (rule requestsInv_cong) simp_all
  then show ?thesis using a by (simp add: DragStart step3_def)
next
  case ZoomStart
  assume a: "requestsInv s"
  have "requestsInv (s\<lparr>movedRef := True, follow := False\<rparr>)" using a by (rule requestsInv_cong) simp_all
  then show ?thesis using a by (simp add: ZoomStart step3_def)
next
  case MoveEnd
  assume a: "requestsInv s"
  have "requestsInv (s\<lparr>movedRef := False\<rparr>)" using a by (rule requestsInv_cong) simp_all
  then show ?thesis using a by (simp add: MoveEnd step3_def)
next
  case PressFollow
  assume a: "requestsInv s"
  have "requestsInv (s\<lparr>follow := True\<rparr>)" using a by (rule requestsInv_cong) simp_all
  then show ?thesis using a by (simp add: PressFollow step3_def)
next
  case (Elapse d)
  assume a: "requestsInv s"
  have "requestsInv (s\<lparr>clock := clock s + int d\<rparr>)" using a by (rule requestsInv_cong) simp_all
  then show ?thesis by (simp add: Elapse step3_def)
qed

lemma requestsInv_run3: "requestsInv (run3 (mount3 geo t0) es)"
  unfolding run3_def
proof (rule foldl_invariant[where P = requestsInv])
  show "requestsInv (mount3 geo t0)"
    by (simp add: mount3_def requestsInv_def signalsFresh_def holdsLatest_def abortOf_def latestCall_def
        effects3_frame)
qed (rule requestsInv_step3)

lemma due3_value: "due3 = flying3\<lparr>clock := 5700, accuracy := Some 5, position := Some (0, 0),
    timers := [\<lparr>due = 5700, t_leg = DU, t_from = Some (0, 0), t_to = Some (0, 0)\<rparr>,
               \<lparr>due = 5700, t_leg = UD, t_from = Some (0, 0), t_to = Some (0, 0)\<rparr>]\<rparr>"
  by (simp add: due3_def run3_def flying3_value trip3_value step3_def effects3_def routingEffect3_def
      fallbackDU3_def fallbackUD3_def isLatLng_def origin_simps DEBOUNCE3_def Let_def)

lemma stale3_value: "stale3 = due3\<lparr>
    timers := [\<lparr>due = 5700, t_leg = UD, t_from = Some (0, 0), t_to = Some (0, 0)\<rparr>],
    requests := [\<lparr>fc_leg = DU, fc_url = legUrl (0, 0) (0, 0), fc_signal = Some 0\<rparr>,
                 \<lparr>fc_leg = UD, fc_url = legUrl (0, 0) (0, 0), fc_signal = Some 1\<rparr>,
                 \<lparr>fc_leg = DU, fc_url = legUrl (0, 0) (0, 0), fc_signal = Some 2\<rparr>],
    inflight := [\<lparr>fc_leg = DU, fc_url = legUrl (0, 0) (0, 0), fc_signal = Some 0\<rparr>,
                 \<lparr>fc_leg = UD, fc_url = legUrl (0, 0) (0, 0), fc_signal = Some 1\<rparr>,
                 \<lparr>fc_leg = DU, fc_url = legUrl (0, 0) (0, 0), fc_signal = Some 2\<rparr>],
    lastDU := \<lparr>rec_from = Some (0, 0), rec_to = Some (0, 0), rec_ts = 5700\<rparr>,
    abortDU := Some 2, aborted := {0}, nextController := 3\<rparr>"
  by (simp add: stale3_def due3_value flying3_value trip3_value step3_def fetchLeg3_def isLatLng_def
      lastOf_def abortOf_def abortCurrent_def setAbort_def setLast_def setLoading_def removeAt_def
      MIN_FETCH_INTERVAL_MS_def Let_def)

lemma due3_run: "due3 = run3 (mount3 True 0)
    (tripEvents @ [Elapse 350, TimerFires 0, TimerFires 0] @ [Elapse 5000, GpsFix 0 0 5, Elapse 350])"
  by (simp add: due3_def flying3_def trip3_def run3_def)

lemma stale3_run: "stale3 = run3 (mount3 True 0)
    (tripEvents @ [Elapse 350, TimerFires 0, TimerFires 0] @ [Elapse 5000, GpsFix 0 0 5, Elapse 350]
       @ [TimerFires 0])"
  by (simp add: stale3_def due3_def flying3_def trip3_def run3_def)

text \<open>The route state under the setters and under a settled request.\<close>

lemma routeState_setLoading [simp]: "routeState l' (setLoading l b s) = routeState l' s"
  by (cases l; cases l') (simp_all add: routeState_def setLoading_def)

lemma routeState_error [simp]: "routeState l' (s\<lparr>error := e\<rparr>) = routeState l' s"
  by (cases l') (simp_all add: routeState_def)

lemma routeState_inflight [simp]: "routeState l' (s\<lparr>inflight := e\<rparr>) = routeState l' s"
  by (cases l') (simp_all add: routeState_def)

lemma abortOf_inflight [simp]: "abortOf l (s\<lparr>inflight := e\<rparr>) = abortOf l s"
  by (cases l) (simp_all add: abortOf_def)

lemma routeState_applyRoute:
  "routeState l (applyRoute l r s) = (pathOf r, Some (numToFixed2 (divideBy (distance r) 1000)), Some (routeEta (duration r)))"
  "routeState (otherLeg l) (applyRoute l r s) = routeState (otherLeg l) s"
  by (cases l; simp add: routeState_def applyRoute_def otherLeg_def)+

lemma settle_stale:
  "abortOf l s \<noteq> Some c \<Longrightarrow> routeState l' (settleLeg3 l c out s) = routeState l' s"
  by (simp add: settleLeg3_def Let_def split: sum.splits)

lemma settle_latest:
  "abortOf l s = Some c \<Longrightarrow>
   routeState l (settleLeg3 l c (Body (r # rs)) s)
     = (pathOf r, Some (numToFixed2 (divideBy (distance r) 1000)), Some (routeEta (duration r)))
   \<and> routeState (otherLeg l) (settleLeg3 l c (Body (r # rs)) s) = routeState (otherLeg l) s"
  by (simp add: settleLeg3_def awaitRoute_def Let_def routeState_applyRoute)

lemma settle_abort:
  "settleLeg3 l c (Rejected ''AbortError'' msg) s = setLoading l False s"
  by (simp add: settleLeg3_def awaitRoute_def)

lemma error_setLoading [simp]: "error (setLoading l b s) = error s"
  by (cases l) (simp_all add: setLoading_def)

text \<open>In a reachable state the controller comparison decides whether a call is the latest.\<close>

lemma still_latest_iff:
  assumes inv: "requestsInv s" and k: "k < length (inflight s)"
  shows "\<exists>c. fc_signal (inflight s ! k) = Some c
     \<and> (abortOf (fc_leg (inflight s ! k)) s = Some c) = isLatest (inflight s ! k) (requests s)"
proof -
  let ?call = "inflight s ! k"
  let ?l = "fc_leg ?call"
  have mem: "?call \<in> set (requests s)"
    using inv k by (auto simp: requestsInv_def)
  then obtain c where c: "fc_signal ?call = Some c"
    using inv by (auto simp: requestsInv_def signalsFresh_def list_all_iff split: option.splits)
  obtain d where d: "latestCall ?l (requests s) = Some d"
    using latestCall_exists[OF mem] by blast
  then have dmem: "d \<in> set (requests s)" using latestCall_mem by blast
  have ab: "abortOf ?l s = fc_signal d"
    using holdsLatest_both[OF inv, of ?l] d by (simp add: holdsLatest_def)
  have inj: "inj_on fc_signal (set (requests s))"
    using inv by (simp add: requestsInv_def distinct_map)
  have "(fc_signal d = Some c) = (d = ?call)"
    using inj_on_eq_iff[OF inj dmem mem] c by simp
  then have "(abortOf ?l s = Some c) = isLatest ?call (requests s)"
    by (simp add: ab isLatest_def d)
  then show ?thesis using c by blast
qed

lemma step3_settles:
  "k < length (inflight s) \<Longrightarrow> fc_signal (inflight s ! k) = Some c \<Longrightarrow>
   step3 s (Settles k out) = settleLeg3 (fc_leg (inflight s ! k)) c out (s\<lparr>inflight := removeAt k (inflight s)\<rparr>)"
  by (simp add: step3_def Let_def)

text \<open>
  Claim C1. Third version: \<open>fetchLeg\<close> applies a route only if the controller it created
  is the one its leg still holds; otherwise the route state of both legs stays as it was.
  In every reachable state that comparison holds exactly for the request issued last for
  the leg: the response of a superseded request changes no route state, and the route of
  the latest request is written to its leg (and only to it).
\<close>

theorem stale_response_discarded:
  "(abortOf l s0 \<noteq> Some c \<longrightarrow>
      routeState DU (settleLeg3 l c out s0) = routeState DU s0
      \<and> routeState UD (settleLeg3 l c out s0) = routeState UD s0)
   \<and> (s = run3 (mount3 geo t0) es \<and> k < length (inflight s) \<and> call = inflight s ! k \<longrightarrow>
      (\<exists>ctl. fc_signal call = Some ctl
         \<and> (abortOf (fc_leg call) s = Some ctl) = isLatest call (requests s))
      \<and> (\<not> isLatest call (requests s) \<longrightarrow>
           routeState DU (step3 s (Settles k out)) = routeState DU s
           \<and> routeState UD (step3 s (Settles k out)) = routeState UD s)
      \<and> (isLatest call (requests s) \<and> out = Body (r # rs) \<longrightarrow>
           routeState (fc_leg call) (step3 s (Settles k out))
             = (pathOf r, Some (numToFixed2 (divideBy (distance r) 1000)), Some (routeEta (duration r)))
           \<and> routeState (otherLeg (fc_leg call)) (step3 s (Settles k out))
             = routeState (otherLeg (fc_leg call)) s))"
proof (intro conjI impI)
  assume "abortOf l s0 \<noteq> Some c"
  then show "routeState DU (settleLeg3 l c out s0) = routeState DU s0"
    "routeState UD (settleLeg3 l c out s0) = routeState UD s0"
    by (simp_all add: settle_stale)
next
  assume a: "s = run3 (mount3 geo t0) es \<and> k < length (inflight s) \<and> call = inflight s ! k"
  then have inv: "requestsInv s" and k: "k < length (inflight s)" and call: "call = inflight s ! k"
    using requestsInv_run3[of geo t0 es] by auto
  from still_latest_iff[OF inv k] obtain ctl where
    ctl: "fc_signal call = Some ctl" "(abortOf (fc_leg call) s = Some ctl) = isLatest call (requests s)"
    unfolding call by blast
  show "\<exists>ctl. fc_signal call = Some ctl
         \<and> (abortOf (fc_leg call) s = Some ctl) = isLatest call (requests s)"
    using ctl by blast
  have st: "step3 s (Settles k out)
      = settleLeg3 (fc_leg call) ctl out (s\<lparr>inflight := removeAt k (inflight s)\<rparr>)"
    using step3_settles[OF k, of ctl out] ctl(1) by (simp add: call)
  {
    assume "\<not> isLatest call (requests s)"
    then have "abortOf (fc_leg call) (s\<lparr>inflight := removeAt k (inflight s)\<rparr>) \<noteq> Some ctl"
      using ctl(2) by simp
    then show "routeState DU (step3 s (Settles k out)) = routeState DU s"
      "routeState UD (step3 s (Settles k out)) = routeState UD s"
      unfolding st by (simp_all add: settle_stale)
  }
  {
    assume "isLatest call (requests s) \<and> out = Body (r # rs)"
    then have l: "abortOf (fc_leg call) (s\<lparr>inflight := removeAt k (inflight s)\<rparr>) = Some ctl"
      and out: "out = Body (r # rs)"
      using ctl(2) by simp_all
    show "routeState (fc_leg call) (step3 s (Settles k out))
             = (pathOf r, Some (numToFixed2 (divideBy (distance r) 1000)), Some (routeEta (duration r)))"
      "routeState (otherLeg (fc_leg call)) (step3 s (Settles k out))
             = routeState (otherLeg (fc_leg call)) s"
      using settle_latest[OF l, of r rs] st unfolding out by simp_all
  }
qed

lemma sampleRoute_values:
  "pathOf sampleRoute = [(0, 0)]" "numToFixed2 (divideBy (distance sampleRoute) 1000) = ''1.00''"
  "routeEta (duration sampleRoute) = Fin 1"
  by (simp_all add: sampleRoute_def pathOf_def numToFixed2_def divideBy_def toFixed2_def showNat.simps
      digit_def routeEta_def mathMax1_def mathRound_def jsRound_def)

lemma stale3_latest:
  "\<not> isLatest (inflight stale3 ! 0) (requests stale3)" "isLatest (inflight stale3 ! 2) (requests stale3)"
  by (simp_all add: stale3_value due3_value flying3_value isLatest_def latestCall_def)

theorem stale_response_discarded_witness:
  "abortOf DU stale3 \<noteq> Some 0
   \<and> routeState DU (settleLeg3 DU 0 (Body [sampleRoute]) stale3) = ([], Some ''0.00'', Some (Fin 1))
   \<and> stale3 = run3 (mount3 True 0)
        (tripEvents @ [Elapse 350, TimerFires 0, TimerFires 0] @ [Elapse 5000, GpsFix 0 0 5, Elapse 350]
           @ [TimerFires 0])
   \<and> length (inflight stale3) = 3
   \<and> \<not> isLatest (inflight stale3 ! 0) (requests stale3)
   \<and> routeState DU (step3 stale3 (Settles 0 (Body [sampleRoute]))) = ([], Some ''0.00'', Some (Fin 1))
   \<and> routeState UD (step3 stale3 (Settles 0 (Body [sampleRoute]))) = ([], Some ''0.00'', Some (Fin 1))
   \<and> isLatest (inflight stale3 ! 2) (requests stale3)
   \<and> fc_leg (inflight stale3 ! 2) = DU
   \<and> routeState DU (step3 stale3 (Settles 2 (Body [sampleRoute]))) = ([(0, 0)], Some ''1.00'', Some (Fin 1))
   \<and> routeState UD (step3 stale3 (Settles 2 (Body [sampleRoute]))) = ([], Some ''0.00'', Some (Fin 1))"
proof -
  let ?es = "tripEvents @ [Elapse 350, TimerFires 0, TimerFires 0] @ [Elapse 5000, GpsFix 0 0 5, Elapse 350]
           @ [TimerFires 0]"
  have rs: "routeState DU stale3 = ([], Some ''0.00'', Some (Fin 1))" "routeState UD stale3 = ([], Some ''0.00'', Some (Fin 1))"
    by (simp_all add: routeState_def stale3_value due3_value flying3_value trip3_value)
  have v: "abortOf DU stale3 \<noteq> Some 0" "length (inflight stale3) = 3" "fc_leg (inflight stale3 ! 2) = DU"
    by (simp_all add: abortOf_def stale3_value)
  have k: "0 < length (inflight stale3)" "2 < length (inflight stale3)" using v(2) by simp_all
  note a = stale_response_discarded[of DU stale3 0 "Body [sampleRoute]" stale3 True 0 ?es 0
      "inflight stale3 ! 0" sampleRoute "[]"]
  note b = stale_response_discarded[of DU stale3 0 "Body [sampleRoute]" stale3 True 0 ?es 2
      "inflight stale3 ! 2" sampleRoute "[]"]
  have 1: "routeState DU (settleLeg3 DU 0 (Body [sampleRoute]) stale3) = ([], Some ''0.00'', Some (Fin 1))"
    using a v(1) rs by simp
  have 2: "routeState DU (step3 stale3 (Settles 0 (Body [sampleRoute]))) = ([], Some ''0.00'', Some (Fin 1))"
    "routeState UD (step3 stale3 (Settles 0 (Body [sampleRoute]))) = ([], Some ''0.00'', Some (Fin 1))"
    using a stale3_run k(1) stale3_latest(1) rs by simp_all
  have 3: "routeState DU (step3 stale3 (Settles 2 (Body [sampleRoute]))) = ([(0, 0)], Some ''1.00'', Some (Fin 1))"
    "routeState UD (step3 stale3 (Settles 2 (Body [sampleRoute]))) = ([], Some ''0.00'', Some (Fin 1))"
    using b stale3_run k(2) stale3_latest(2) rs v(3) by (simp_all add: sampleRoute_values otherLeg_def)
  show ?thesis
    using 1 2 3 v stale3_latest stale3_run by simp
qed

section \<open>Aborting the superseded request\<close>

lemma not_skips:
  "\<not> (clock s - rec_ts (lastOf l s) < 5000 \<and> lessThanMetres (gateDistance (lastOf l s) p q) 30)
   \<Longrightarrow> \<not> skips l (Some p) (Some q) s"
  by (simp add: skips_def isLatLng_def MIN_FETCH_INTERVAL_MS_def MIN_MOVE_M_def)

lemma skips_timers [simp]: "skips l f t (s\<lparr>timers := ts\<rparr>) = skips l f t s"
  by (cases l) (simp_all add: skips_def lastOf_def)

text \<open>
  Claim C3. Third version, in a reachable state: when a due timer fires with valid
  endpoints and the gate lets it pass, \<open>abort()\<close> has been called on the controller the
  leg held, the leg holds a new controller that is not aborted, and the one request added
  carries the signal of that new controller. A request that is rejected with an
  \<open>AbortError\<close> clears the loading flag of its leg and changes nothing else: not the
  error string, not the route state.
\<close>

theorem superseded_request_aborted:
  "(s = run3 (mount3 geo t0) es \<and> k < length (timers s) \<and> due (timers s ! k) \<le> clock s
      \<and> t_leg (timers s ! k) = l \<and> t_from (timers s ! k) = Some p \<and> t_to (timers s ! k) = Some q
      \<and> \<not> (clock s - rec_ts (lastOf l s) < 5000 \<and> lessThanMetres (gateDistance (lastOf l s) p q) 30)
    \<longrightarrow> (abortOf l s = Some old \<longrightarrow> old \<in> aborted (step3 s (TimerFires k)))
      \<and> nextController s \<notin> aborted (step3 s (TimerFires k))
      \<and> abortOf l (step3 s (TimerFires k)) = Some (nextController s)
      \<and> requests (step3 s (TimerFires k))
          = requests s @ [\<lparr>fc_leg = l, fc_url = legUrl p q, fc_signal = Some (nextController s)\<rparr>]
      \<and> inflight (step3 s (TimerFires k))
          = inflight s @ [\<lparr>fc_leg = l, fc_url = legUrl p q, fc_signal = Some (nextController s)\<rparr>])
   \<and> settleLeg3 l c (Rejected ''AbortError'' msg) s0 = setLoading l False s0
   \<and> error (settleLeg3 l c (Rejected ''AbortError'' msg) s0) = error s0
   \<and> routeState DU (settleLeg3 l c (Rejected ''AbortError'' msg) s0) = routeState DU s0
   \<and> routeState UD (settleLeg3 l c (Rejected ''AbortError'' msg) s0) = routeState UD s0"
proof (intro conjI impI)
  assume a: "s = run3 (mount3 geo t0) es \<and> k < length (timers s) \<and> due (timers s ! k) \<le> clock s
      \<and> t_leg (timers s ! k) = l \<and> t_from (timers s ! k) = Some p \<and> t_to (timers s ! k) = Some q
      \<and> \<not> (clock s - rec_ts (lastOf l s) < 5000 \<and> lessThanMetres (gateDistance (lastOf l s) p q) 30)"
  let ?s = "s\<lparr>timers := removeAt k (timers s)\<rparr>"
  have inv: "requestsInv s" using a requestsInv_run3[of geo t0 es] by auto
  have k: "k < length (timers s)" "due (timers s ! k) \<le> clock s" "t_leg (timers s ! k) = l"
    "t_from (timers s ! k) = Some p" "t_to (timers s ! k) = Some q"
    using a by blast+
  have st: "step3 s (TimerFires k) = fetchLeg3 l (Some p) (Some q) ?s"
    using k by (simp add: step3_def Let_def)
  have g: "\<not> (clock s - rec_ts (lastOf l s) < 5000 \<and> lessThanMetres (gateDistance (lastOf l s) p q) 30)"
    using a by blast
  have ns: "\<not> skips l (Some p) (Some q) ?s"
    using not_skips[OF g] by simp
  note i = fetchLeg3_issued[OF ns]
  have al: "abortOf l ?s = abortOf l s" by (cases l) (simp_all add: abortOf_def)
  show "requests (step3 s (TimerFires k))
          = requests s @ [\<lparr>fc_leg = l, fc_url = legUrl p q, fc_signal = Some (nextController s)\<rparr>]"
    "inflight (step3 s (TimerFires k))
          = inflight s @ [\<lparr>fc_leg = l, fc_url = legUrl p q, fc_signal = Some (nextController s)\<rparr>]"
    "abortOf l (step3 s (TimerFires k)) = Some (nextController s)"
    unfolding st by (simp_all add: i)
  have ab: "aborted (step3 s (TimerFires k)) = aborted s \<union> set_option (abortOf l s)"
    unfolding st by (simp add: i al)
  have fresh: "signalsFresh s" and bound: "aborted s \<subseteq> {..<nextController s}"
    using inv by (simp_all add: requestsInv_def)
  show "nextController s \<notin> aborted (step3 s (TimerFires k))"
    using bound abortOf_bound[OF fresh holdsLatest_both[OF inv], of l] by (auto simp: ab)
  {
    assume "abortOf l s = Some old"
    then show "old \<in> aborted (step3 s (TimerFires k))" by (simp add: ab)
  }
qed (simp_all add: settle_abort)

theorem superseded_request_aborted_witness:
  "due3 = run3 (mount3 True 0)
     (tripEvents @ [Elapse 350, TimerFires 0, TimerFires 0] @ [Elapse 5000, GpsFix 0 0 5, Elapse 350])
   \<and> length (timers due3) = 2 \<and> due (timers due3 ! 0) \<le> clock due3
   \<and> t_leg (timers due3 ! 0) = DU \<and> t_from (timers due3 ! 0) = Some (0, 0) \<and> t_to (timers due3 ! 0) = Some (0, 0)
   \<and> \<not> clock due3 - rec_ts (lastOf DU due3) < 5000
   \<and> abortOf DU due3 = Some 0 \<and> nextController due3 = 2
   \<and> 0 \<in> aborted (step3 due3 (TimerFires 0))
   \<and> 2 \<notin> aborted (step3 due3 (TimerFires 0))
   \<and> abortOf DU (step3 due3 (TimerFires 0)) = Some 2
   \<and> requests (step3 due3 (TimerFires 0))
        = requests due3 @ [\<lparr>fc_leg = DU, fc_url = legUrl (0, 0) (0, 0), fc_signal = Some 2\<rparr>]
   \<and> error (settleLeg3 DU 0 (Rejected ''AbortError'' ''The operation was aborted.'') stale3) = ''''
   \<and> routeState DU (settleLeg3 DU 0 (Rejected ''AbortError'' ''The operation was aborted.'') stale3)
        = ([], Some ''0.00'', Some (Fin 1))"
proof -
  have v: "length (timers due3) = 2" "due (timers due3 ! 0) \<le> clock due3"
    "t_leg (timers due3 ! 0) = DU" "t_from (timers due3 ! 0) = Some (0, 0)" "t_to (timers due3 ! 0) = Some (0, 0)"
    "\<not> clock due3 - rec_ts (lastOf DU due3) < 5000" "abortOf DU due3 = Some 0" "nextController due3 = 2"
    by (simp_all add: due3_value flying3_value trip3_value lastOf_def abortOf_def)
  have k: "0 < length (timers due3)" using v(1) by simp
  have rs: "routeState DU stale3 = ([], Some ''0.00'', Some (Fin 1))" "error stale3 = ''''"
    by (simp_all add: routeState_def stale3_value due3_value flying3_value trip3_value)
  note a = superseded_request_aborted[where s = due3 and geo = True and ?t0.0 = 0
      and es = "tripEvents @ [Elapse 350, TimerFires 0, TimerFires 0] @ [Elapse 5000, GpsFix 0 0 5, Elapse 350]"
      and k = 0 and l = DU and p = "(0, 0)" and q = "(0, 0)" and old = 0 and c = 0
      and msg = "''The operation was aborted.''" and ?s0.0 = stale3]
  show ?thesis
    using a due3_run k v rs by simp
qed

section \<open>Without a destination there is no distance\<close>

lemma noDest3_cong:
  assumes "noDest3 s" "dest s' = dest s" "kmUD s' = kmUD s" "abortUD s' = abortUD s" "aborted s \<subseteq> aborted s'"
  shows "noDest3 s'"
  using assms unfolding noDest3_def by auto

lemma noDest3_effects3:
  assumes "noDest3 s" "dest s0 = dest s" "abortUD s0 = abortUD s" "aborted s \<subseteq> aborted s0"
    "dest s0 \<noteq> None \<or> kmUD s0 = None"
  shows "noDest3 (effects3 a b c s0)"
proof (cases "dest s0")
  case None
  then have "kmUD s0 = None" using assms(5) by simp
  then have "kmUD (effects3 a b c s0) = None"
    using None
    by (simp add: effects3_def routingEffect3_def fallbackDU3_def fallbackUD3_def Let_def isLatLng_def)
  then show ?thesis
    using assms(1-4) None unfolding noDest3_def by (auto simp: effects3_frame)
next
  case (Some d)
  then show ?thesis unfolding noDest3_def by (simp add: effects3_frame)
qed

lemma kmUD_fetchLeg3 [simp]: "kmUD (fetchLeg3 l f t s) = kmUD s"
  by (cases l; cases "abortDU s"; cases "abortUD s")
     (auto simp: fetchLeg3_def Let_def abortCurrent_def setAbort_def setLast_def setLoading_def abortOf_def)

lemma noDest3_fetchLeg3:
  assumes "noDest3 s" "l = UD \<longrightarrow> t = dest s"
  shows "noDest3 (fetchLeg3 l f t s)"
proof (cases "skips l f t s")
  case True
  then show ?thesis using assms(1) by (simp add: fetchLeg3_skipped)
next
  case False
  note i = fetchLeg3_issued[OF False]
  show ?thesis
  proof (cases l)
    case DU
    have ab: "abortUD (fetchLeg3 l f t s) = abortUD s"
      using i(6) by (simp add: DU otherLeg_def abortOf_def)
    show ?thesis
      by (rule noDest3_cong[OF assms(1)]) (auto simp: ab i(4))
  next
    case UD
    then have "isLatLng (dest s)" using False assms(2) by (auto simp: skips_def)
    then have "dest (fetchLeg3 l f t s) \<noteq> None" by (cases "dest s") (simp_all add: isLatLng_def)
    then show ?thesis unfolding noDest3_def by simp
  qed
qed

lemma kmUD_settle_other:
  "\<not> (l = UD \<and> abortUD s = Some c \<and> (\<exists>r rs. out = Body (r # rs))) \<Longrightarrow> kmUD (settleLeg3 l c out s) = kmUD s"
  by (cases l; cases out)
     (auto simp: settleLeg3_def awaitRoute_def Let_def setLoading_def applyRoute_def abortOf_def
        split: list.splits)

lemma noDest3_upd:
  "noDest3 s \<Longrightarrow> dest s' = dest s \<Longrightarrow> kmUD s' = kmUD s \<Longrightarrow> abortUD s' = abortUD s
   \<Longrightarrow> aborted s' = aborted s \<Longrightarrow> noDest3 s'"
  unfolding noDest3_def by auto

lemma noDestInv3_step3:
  assumes inv: "noDestInv3 s" and h: "honoursAbort s e"
  shows "noDestInv3 (step3 s e)"
proof -
  have tc: "timersCurrent s" and nd: "noDest3 s" using inv by (simp_all add: noDestInv3_def)
  have km: "dest s \<noteq> None \<or> kmUD s = None" using nd unfolding noDest3_def by auto
  have "noDest3 (step3 s e)"
  proof (cases e)
    case (GpsFix lat lon acc)
    have "noDest3 (effects3 False True False
        (s\<lparr>error := '''', position := Some (roundGPS (lat, lon)), accuracy := Some acc\<rparr>))"
      by (rule noDest3_effects3[OF nd]) (use km in simp_all)
    then show ?thesis using nd by (simp add: GpsFix step3_def)
  next
    case (MapClick lat lng)
    have "noDest3 (effects3 True False False (s\<lparr>driver := Some (lat, lng), tapMode := None\<rparr>))"
      by (rule noDest3_effects3[OF nd]) (use km in simp_all)
    moreover have "noDest3 (effects3 False False True (s\<lparr>dest := Some (lat, lng), tapMode := None\<rparr>))"
      unfolding noDest3_def by (simp add: effects3_frame)
    ultimately show ?thesis using nd
      by (simp add: MapClick step3_def split: option.splits tapTarget.splits)
  next
    case PressClear
    have c: "kmUD (effects3 a b c (clear3 s)) = None" for a b c
      using clear3_effects[of "clear3 s" a b c] by (simp add: clear3_fields)
    have "noDest3 (effects3 (driver s \<noteq> None) False (dest s \<noteq> None) (clear3 s))"
      unfolding noDest3_def by (auto simp: effects3_frame clear3_fields clear3_aborted c)
    then show ?thesis using nd by (simp add: PressClear step3_def)
  next
    case (TimerFires k)
    show ?thesis
    proof (cases "k < length (timers s) \<and> due (timers s ! k) \<le> clock s")
      case False
      then show ?thesis using nd by (auto simp: TimerFires step3_def)
    next
      case True
      let ?t = "timers s ! k"
      let ?s = "s\<lparr>timers := removeAt k (timers s)\<rparr>"
      have "(t_from ?t, t_to ?t) = inputsOf (t_leg ?t) s"
        using tc True by (simp add: timersCurrent_def list_all_length)
      then have "t_leg ?t = UD \<longrightarrow> t_to ?t = dest ?s"
        by (auto simp: inputsOf_def)
      moreover have "noDest3 ?s" using nd by (rule noDest3_upd) simp_all
      ultimately have "noDest3 (fetchLeg3 (t_leg ?t) (t_from ?t) (t_to ?t) ?s)"
        by (intro noDest3_fetchLeg3) simp_all
      then show ?thesis using True by (simp add: TimerFires step3_def Let_def)
    qed
  next
    case (Settles k out)
    show ?thesis
    proof (cases "k < length (inflight s)")
      case False
      then show ?thesis using nd by (simp add: Settles step3_def)
    next
      case True
      show ?thesis
      proof (cases "fc_signal (inflight s ! k)")
        case None
        then show ?thesis using nd True by (simp add: Settles step3_def Let_def)
      next
        case (Some c)
        let ?l = "fc_leg (inflight s ! k)"
        let ?s = "s\<lparr>inflight := removeAt k (inflight s)\<rparr>"
        have st: "step3 s e = settleLeg3 ?l c out ?s"
          using True Some by (simp add: Settles step3_def Let_def)
        show ?thesis
        proof (cases "dest s")
          case (Some d)
          then show ?thesis unfolding st noDest3_def by simp
        next
          case dn: None
          then have ab: "set_option (abortUD s) \<subseteq> aborted s" and km: "kmUD s = None"
            using nd unfolding noDest3_def by simp_all
          have "\<not> (?l = UD \<and> abortUD ?s = Some c \<and> (\<exists>r rs. out = Body (r # rs)))"
            using h ab True Some by (auto simp: honoursAbort_def Settles)
          then have "kmUD (settleLeg3 ?l c out ?s) = kmUD ?s" by (rule kmUD_settle_other)
          then show ?thesis unfolding st noDest3_def using ab km by simp
        qed
      qed
    qed
  next
    case (GpsError msg)
    have "noDest3 (s\<lparr>error := gpsErrorText msg\<rparr>)" using nd by (rule noDest3_upd) simp_all
    then show ?thesis using nd by (simp add: GpsError step3_def)
  next
    case PressSetDriver
    have "noDest3 (toggleTap Driver s)" using nd by (rule noDest3_upd) (simp_all add: toggleTap_def)
    then show ?thesis using nd by (simp add: PressSetDriver step3_def)
  next
    case PressSetDest
    have "noDest3 (toggleTap Dest s)" using nd by (rule noDest3_upd) (simp_all add: toggleTap_def)
    then show ?thesis using nd by (simp add: PressSetDest step3_def)
  next
    case DragStart
    have "noDest3 (s\<lparr>movedRef := True, follow := False\<rparr>)" using nd by (rule noDest3_upd) simp_all
    then show ?thesis using nd by (simp add: DragStart step3_def)
  next
    case ZoomStart
    have "noDest3 (s\<lparr>movedRef := True, follow := False\<rparr>)" using nd by (rule noDest3_upd) simp_all
    then show ?thesis using nd by (simp add: ZoomStart step3_def)
  next
    case MoveEnd
    have "noDest3 (s\<lparr>movedRef := False\<rparr>)" using nd by (rule noDest3_upd) simp_all
    then show ?thesis using nd by (simp add: MoveEnd step3_def)
  next
    case PressFollow
    have "noDest3 (s\<lparr>follow := True\<rparr>)" using nd by (rule noDest3_upd) simp_all
    then show ?thesis using nd by (simp add: PressFollow step3_def)
  next
    case (Elapse d)
    have "noDest3 (s\<lparr>clock := clock s + int d\<rparr>)" using nd by (rule noDest3_upd) simp_all
    then show ?thesis by (simp add: Elapse step3_def)
  qed
  then show ?thesis using timersCurrent_step3[OF tc, of e] by (simp add: noDestInv3_def)
qed

lemma noDestInv3_run:
  "noDestInv3 s \<Longrightarrow> feasible3 s es \<Longrightarrow> noDestInv3 (run3 s es)"
  unfolding run3_def
proof (induction es arbitrary: s)
  case Nil
  then show ?case by simp
next
  case (Cons e es)
  then show ?case by (simp add: noDestInv3_step3)
qed

lemma noDestInv3_mount3: "noDestInv3 (mount3 geo t0)"
  unfolding noDestInv3_def mount3_def
proof (rule conjI)
  show "noDest3 (effects3 True True True
     \<lparr>position = None, accuracy = None, driver = None, dest = None, routeDU = [],
        routeUD = [], kmDU = None, minDU = None, kmUD = None, minUD = None, loadingDU = False,
        loadingUD = False, error = if geo then [] else ''Geolocation not supported.'',
        tapMode = None, clock = t0, watching = geo, timers = [], requests = [], inflight = [],
        follow = True, movedRef = False, lastDU = \<lparr>rec_from = None, rec_to = None, rec_ts = 0\<rparr>,
        lastUD = \<lparr>rec_from = None, rec_to = None, rec_ts = 0\<rparr>, abortDU = None, abortUD = None,
        aborted = {}, nextController = 0\<rparr>)"
    unfolding noDest3_def
    by (simp add: effects3_def fallbackDU3_def fallbackUD3_def routingEffect3_def isLatLng_def Let_def)
qed (rule timersCurrent_effects3, simp)

lemma noDest_reachable3:
  "feasible3 (mount3 geo t0) es \<Longrightarrow> dest (run3 (mount3 geo t0) es) = None
   \<Longrightarrow> kmUD (run3 (mount3 geo t0) es) = None"
  using noDestInv3_run[OF noDestInv3_mount3, of geo t0 es] by (auto simp: noDestInv3_def noDest3_def)

lemma noDestInvV_alt: "noDestInvV s = (runsLive s \<and> noDestV s)"
  by (simp add: noDestInvV_def)

lemma runsLive_cong:
  assumes "runsLive s" "inflightV s' = inflightV s" "timersV s' = timersV s"
    "canceledRuns s' = canceledRuns s" "cleanupV s' = cleanupV s"
  shows "runsLive s'"
proof -
  have "liveRun s' = liveRun s" by (auto simp: liveRun_def assms(4,5))
  then show ?thesis using assms(1-3) by (simp add: runsLive_def)
qed

lemma fallbackV_frame [simp]:
  "inflightV (fallbackV s) = inflightV s" "timersV (fallbackV s) = timersV s"
  "canceledRuns (fallbackV s) = canceledRuns s" "cleanupV (fallbackV s) = cleanupV s"
  "destV (fallbackV s) = destV s" "positionV (fallbackV s) = positionV s"
  by (simp_all add: fallbackV_def Let_def)

lemma runsLive_routingEffectV:
  assumes "runsLive s"
  shows "runsLive (routingEffectV s)"
proof -
  let ?c = "runCleanupV s"
  have c: "inflightV ?c = inflightV s" "cleanupV ?c = None"
    "canceledRuns ?c = canceledRuns s \<union> set_option (cleanupV s)"
    "set (timersV ?c) \<subseteq> set (timersV s)"
    "\<forall>t \<in> set (timersV ?c). cleanupV s \<noteq> Some (tv_run t)"
    by (cases "cleanupV s"; simp add: runCleanupV_def)+
  have i: "\<forall>k \<in> set (inflightV ?c). k \<in> canceledRuns ?c"
    using assms by (auto simp: runsLive_def liveRun_def list_all_iff c)
  have t: "\<forall>t \<in> set (timersV ?c). tv_run t \<in> canceledRuns ?c"
    using assms c(4,5) by (auto simp: runsLive_def liveRun_def list_all_iff c(3))
  show ?thesis
    using i t
    by (auto simp: routingEffectV_def Let_def runsLive_def liveRun_def list_all_iff)
qed

lemma runsLive_effectsV:
  assumes "runsLive s" "inflightV s0 = inflightV s" "timersV s0 = timersV s"
    "canceledRuns s0 = canceledRuns s" "cleanupV s0 = cleanupV s"
  shows "runsLive (effectsV b s0)"
proof -
  have "runsLive s0" using assms by (rule runsLive_cong)
  then have "runsLive (if b then fallbackV s0 else s0)"
    by (auto elim: runsLive_cong)
  then show ?thesis unfolding effectsV_def by (rule runsLive_routingEffectV)
qed

lemma noDestV_effectsV:
  assumes "destV s0 \<noteq> None \<or> distanceKm s0 = None"
  shows "noDestV (effectsV b s0)"
proof (cases "destV s0")
  case None
  then have "distanceKm s0 = None" using assms by simp
  then show ?thesis using None
    by (cases "cleanupV s0")
       (simp_all add: noDestV_def effectsV_def routingEffectV_def runCleanupV_def fallbackV_def
          isLatLng_def Let_def)
next
  case (Some d)
  then show ?thesis by (simp add: noDestV_def effectsV_frame)
qed

lemma settleV_frame [simp]:
  "inflightV (settleV k out s) = inflightV s" "timersV (settleV k out s) = timersV s"
  "canceledRuns (settleV k out s) = canceledRuns s" "cleanupV (settleV k out s) = cleanupV s"
  "destV (settleV k out s) = destV s"
  by (simp_all add: settleV_def Let_def split: sum.splits)

lemma settleV_distance:
  "k \<in> canceledRuns s \<Longrightarrow> distanceKm (settleV k out s) = distanceKm s"
  by (simp add: settleV_def Let_def split: sum.splits)

lemma noDestInvV_stepV:
  assumes inv: "noDestInvV s"
  shows "noDestInvV (stepV s e)"
proof -
  have rl: "runsLive s" and nd: "noDestV s" using inv by (simp_all add: noDestInvV_alt)
  have km: "destV s \<noteq> None \<or> distanceKm s = None" using nd unfolding noDestV_def by auto
  have eff: "noDestInvV (effectsV b s0)"
    if "inflightV s0 = inflightV s" "timersV s0 = timersV s" "canceledRuns s0 = canceledRuns s"
      "cleanupV s0 = cleanupV s" "destV s0 \<noteq> None \<or> distanceKm s0 = None" for b s0
    unfolding noDestInvV_alt
    using runsLive_effectsV[OF rl that(1-4)] noDestV_effectsV[OF that(5)] by simp
  show ?thesis
  proof (cases e)
    case (GpsFixV lat lon acc)
    have "noDestInvV (effectsV True (s\<lparr>errorV := '''', positionV := Some (lat, lon), accuracyV := Some acc\<rparr>))"
      by (rule eff) (use km in simp_all)
    then show ?thesis using inv by (simp add: GpsFixV stepV_def)
  next
    case (GpsErrorV msg)
    have "runsLive (s\<lparr>errorV := gpsErrorText msg\<rparr>)" using rl by (rule runsLive_cong) simp_all
    moreover have "noDestV (s\<lparr>errorV := gpsErrorText msg\<rparr>)" using nd unfolding noDestV_def by simp
    ultimately show ?thesis using inv by (simp add: GpsErrorV stepV_def noDestInvV_alt)
  next
    case (ClickV shiftKey lat lng)
    have "noDestInvV (effectsV True (click shiftKey (lat, lng) s))"
      by (rule eff) (use km in \<open>simp_all add: click_def\<close>)
    then show ?thesis using inv by (simp add: ClickV stepV_def)
  next
    case (DragViaEnd i lat lng)
    have "noDestInvV (effectsV True (s\<lparr>vias := dragVia i (lat, lng) (vias s)\<rparr>))"
      by (rule eff) (use km in simp_all)
    then show ?thesis using inv by (simp add: DragViaEnd stepV_def)
  next
    case ToggleAvoidMotorway
    have "noDestInvV (effectsV False (s\<lparr>avoidMotorway := \<not> avoidMotorway s\<rparr>))"
      by (rule eff) (use km in simp_all)
    then show ?thesis using inv by (simp add: ToggleAvoidMotorway stepV_def)
  next
    case ToggleAvoidFerry
    have "noDestInvV (effectsV False (s\<lparr>avoidFerry := \<not> avoidFerry s\<rparr>))"
      by (rule eff) (use km in simp_all)
    then show ?thesis using inv by (simp add: ToggleAvoidFerry stepV_def)
  next
    case ToggleAvoidToll
    have "noDestInvV (effectsV False (s\<lparr>avoidToll := \<not> avoidToll s\<rparr>))"
      by (rule eff) (use km in simp_all)
    then show ?thesis using inv by (simp add: ToggleAvoidToll stepV_def)
  next
    case PressClearVias
    have "noDestInvV (effectsV True (s\<lparr>vias := []\<rparr>))"
      by (rule eff) (use km in simp_all)
    then show ?thesis using inv by (simp add: PressClearVias stepV_def)
  next
    case PressClearV
    have "noDestInvV (effectsV True (clearV s))"
      by (rule eff) (simp_all add: clearV_def)
    then show ?thesis using inv by (simp add: PressClearV stepV_def)
  next
    case (ElapseV d)
    have "runsLive (s\<lparr>clockV := clockV s + int d\<rparr>)" using rl by (rule runsLive_cong) simp_all
    moreover have "noDestV (s\<lparr>clockV := clockV s + int d\<rparr>)" using nd unfolding noDestV_def by simp
    ultimately show ?thesis by (simp add: ElapseV stepV_def noDestInvV_alt)
  next
    case (TimerFiresV k)
    show ?thesis
    proof (cases "k < length (timersV s) \<and> dueV (timersV s ! k) \<le> clockV s")
      case False
      then show ?thesis using inv by (auto simp: TimerFiresV stepV_def)
    next
      case True
      let ?t = "timersV s ! k"
      let ?s = "fetchV (tv_run ?t) (tv_url ?t) (s\<lparr>timersV := removeAt k (timersV s)\<rparr>)"
      have l: "liveRun ?s = liveRun s" by (auto simp: liveRun_def fetchV_def)
      have "liveRun s (tv_run ?t)" using rl True by (simp add: runsLive_def list_all_length)
      moreover have "list_all (\<lambda>t. liveRun s (tv_run t)) (removeAt k (timersV s))"
        using rl by (simp add: runsLive_def list_all_removeAt)
      ultimately have "runsLive ?s"
        using rl unfolding runsLive_def l by (simp add: fetchV_def)
      moreover have "noDestV ?s" using nd unfolding noDestV_def by (simp add: fetchV_def)
      ultimately show ?thesis using True by (simp add: TimerFiresV stepV_def Let_def noDestInvV_alt)
    qed
  next
    case (SettlesV k out)
    show ?thesis
    proof (cases "k < length (inflightV s)")
      case False
      then show ?thesis using inv by (simp add: SettlesV stepV_def)
    next
      case True
      let ?k = "inflightV s ! k"
      let ?pre = "s\<lparr>inflightV := removeAt k (inflightV s)\<rparr>"
      let ?s = "settleV ?k out ?pre"
      have st: "stepV s e = ?s" using True by (simp add: SettlesV stepV_def)
      have l: "liveRun ?s = liveRun s" by (auto simp: liveRun_def)
      have "list_all (liveRun s) (removeAt k (inflightV s))"
        using rl by (simp add: runsLive_def list_all_removeAt)
      then have 1: "runsLive ?s" using rl unfolding runsLive_def l by simp
      have live: "liveRun s ?k" using rl True by (simp add: runsLive_def list_all_length)
      have 2: "noDestV ?s"
      proof (cases "destV s")
        case (Some d)
        then show ?thesis unfolding noDestV_def by simp
      next
        case None
        then have d: "distanceKm s = None" "cleanupV s = None" using nd unfolding noDestV_def by simp_all
        then have "?k \<in> canceledRuns ?pre" using live by (simp add: liveRun_def)
        then have "distanceKm ?s = distanceKm ?pre" by (rule settleV_distance)
        then show ?thesis unfolding noDestV_def using d by simp
      qed
      show ?thesis unfolding st noDestInvV_alt using 1 2 by simp
    qed
  qed
qed

lemma noDestInvV_runV: "noDestInvV (runV (mountV geo t0) es)"
  unfolding runV_def
proof (rule foldl_invariant[where P = noDestInvV])
  show "noDestInvV (mountV geo t0)"
    by (simp add: mountV_def noDestInvV_def runsLive_def noDestV_def effectsV_def routingEffectV_def
        runCleanupV_def fallbackV_def isLatLng_def)
qed (rule noDestInvV_stepV)

lemma cleared3_flying: "cleared3 = run3 flying3 [PressClear, Settles 1 (Rejected ''AbortError'' '''')]"
  by (simp add: cleared3_def clearedEvents_def flying3_def trip3_def run3_def)

lemma cleared3_value: "cleared3 = flying3\<lparr>driver := None, dest := None, kmDU := None, kmUD := None,
    minDU := None, minUD := None, loadingUD := False,
    timers := [\<lparr>due = 700, t_leg = DU, t_from = None, t_to = Some (0, 0)\<rparr>,
               \<lparr>due = 700, t_leg = UD, t_from = Some (0, 0), t_to = None\<rparr>],
    inflight := [\<lparr>fc_leg = DU, fc_url = legUrl (0, 0) (0, 0), fc_signal = Some 0\<rparr>],
    lastDU := \<lparr>rec_from = None, rec_to = None, rec_ts = 0\<rparr>,
    lastUD := \<lparr>rec_from = None, rec_to = None, rec_ts = 0\<rparr>,
    aborted := {0, 1}\<rparr>"
  by (simp add: cleared3_flying run3_def flying3_value trip3_value step3_def clear3_def effects3_def
      routingEffect3_def fallbackDU3_def fallbackUD3_def settleLeg3_def awaitRoute_def abortCurrent_def
      setLoading_def isLatLng_def removeAt_def DEBOUNCE3_def Let_def insert_commute)

lemma feasible_cleared: "feasible3 (mount3 True 0) clearedEvents"
  by (simp add: clearedEvents_def tripEvents_def honoursAbort_def)

lemma gpsV_value: "gpsV =
   \<lparr>positionV = Some (0, 0), accuracyV = Some 5, destV = None, vias = [],
    routeCoords = [], distanceKm = None, durationMin = None, loading = False,
    errorV = '''', avoidMotorway = False, avoidFerry = False, avoidToll = False,
    clockV = 0, watchingV = True, timersV = [], canceledRuns = {}, cleanupV = None, nextRun = 0,
    requestsV = [], inflightV = []\<rparr>"
  by (simp add: gpsV_def model_defs)

text \<open>
  Claim C7 says that with no destination the distance field shows the dash. In the vias
  version, after the first GPS fix and with no destination, the bottom bar is the prompt;
  there is no distance field.
\<close>

theorem vias_prompt_replaces_distance_field:
  "gpsV = runV (mountV True 0) [GpsFixV 0 0 5]
   \<and> destV gpsV = None \<and> positionV gpsV = Some (0, 0)
   \<and> renderV gpsV = MapScreenV (Prompt promptText)
   \<and> renderV gpsV \<noteq> MapScreenV (Fields (''Distance: '' @ emdash @ '' km'') (''ETA: '' @ emdash @ '' min''))"
proof -
  have "gpsV = runV (mountV True 0) [GpsFixV 0 0 5]" by (simp add: gpsV_def)
  moreover have "destV gpsV = None \<and> positionV gpsV = Some (0, 0)
      \<and> renderV gpsV = MapScreenV (Prompt promptText)
      \<and> renderV gpsV \<noteq> MapScreenV (Fields (''Distance: '' @ emdash @ '' km'') (''ETA: '' @ emdash @ '' min''))"
    by (simp add: gpsV_value renderV_def promptText_def)
  ultimately show ?thesis by (rule conjI)
qed

lemma render_no_dest3:
  "position s \<noteq> None \<Longrightarrow> kmUD s = None \<Longrightarrow> \<exists>bar. renderLegs s = MapScreen bar \<and> udDistance bar = emdash"
  by (cases "position s") (simp_all add: renderLegs_def kmField_def)

lemma render_promptV:
  "positionV s \<noteq> None \<Longrightarrow> destV s = None \<Longrightarrow> renderV s = MapScreenV (Prompt promptText)"
  by (cases "positionV s") (simp_all add: renderV_def promptText_def)

lemma render_dashV:
  "positionV s \<noteq> None \<Longrightarrow> destV s \<noteq> None \<Longrightarrow> distanceKm s = None
   \<Longrightarrow> \<exists>eta. renderV s = MapScreenV (Fields (''Distance: '' @ emdash @ '' km'') eta)"
  by (cases "positionV s"; cases "destV s") (simp_all add: renderV_def)

text \<open>
  Claim C7, amended. Third version: in every state reached while \<open>fetch\<close> honours the
  abort signal, no destination means that the distance of the second leg is null, and once
  the position is known its field shows the dash. Vias version: in every reachable state
  no destination means that the distance is null, and the bottom bar then shows the prompt
  in place of the fields; the distance field shows the dash when a destination is set and
  the distance is null.
\<close>

theorem distance_field_without_destination:
  "(feasible3 (mount3 geo t0) es \<and> dest (run3 (mount3 geo t0) es) = None \<longrightarrow>
      kmUD (run3 (mount3 geo t0) es) = None
      \<and> (position (run3 (mount3 geo t0) es) \<noteq> None \<longrightarrow>
           (\<exists>bar. renderLegs (run3 (mount3 geo t0) es) = MapScreen bar \<and> udDistance bar = emdash)))
   \<and> (destV (runV (mountV geo t0) esV) = None \<longrightarrow>
      distanceKm (runV (mountV geo t0) esV) = None
      \<and> (positionV (runV (mountV geo t0) esV) \<noteq> None \<longrightarrow>
           renderV (runV (mountV geo t0) esV) = MapScreenV (Prompt promptText)))
   \<and> (positionV sV \<noteq> None \<and> destV sV \<noteq> None \<and> distanceKm sV = None \<longrightarrow>
      (\<exists>eta. renderV sV = MapScreenV (Fields (''Distance: '' @ emdash @ '' km'') eta)))"
proof (intro conjI impI)
  assume a: "feasible3 (mount3 geo t0) es \<and> dest (run3 (mount3 geo t0) es) = None"
  then show k: "kmUD (run3 (mount3 geo t0) es) = None"
    using noDest_reachable3[of geo t0 es] by simp
  assume "position (run3 (mount3 geo t0) es) \<noteq> None"
  then show "\<exists>bar. renderLegs (run3 (mount3 geo t0) es) = MapScreen bar \<and> udDistance bar = emdash"
    using k by (rule render_no_dest3)
next
  assume a: "destV (runV (mountV geo t0) esV) = None"
  then show "distanceKm (runV (mountV geo t0) esV) = None"
    using noDestInvV_runV[of geo t0 esV] by (simp add: noDestInvV_def noDestV_def)
  assume "positionV (runV (mountV geo t0) esV) \<noteq> None"
  then show "renderV (runV (mountV geo t0) esV) = MapScreenV (Prompt promptText)"
    using a by (rule render_promptV)
next
  assume "positionV sV \<noteq> None \<and> destV sV \<noteq> None \<and> distanceKm sV = None"
  then show "\<exists>eta. renderV sV = MapScreenV (Fields (''Distance: '' @ emdash @ '' km'') eta)"
    using render_dashV[of sV] by simp
qed

theorem distance_field_without_destination_witness:
  "feasible3 (mount3 True 0) clearedEvents
   \<and> dest (run3 (mount3 True 0) clearedEvents) = None
   \<and> position (run3 (mount3 True 0) clearedEvents) = Some (0, 0)
   \<and> kmUD (run3 (mount3 True 0) clearedEvents) = None
   \<and> renderLegs (run3 (mount3 True 0) clearedEvents)
        = MapScreen \<lparr>duDistance = emdash, duEta = emdash, udDistance = emdash, udEta = emdash,
                     totalEta = emdash\<rparr>
   \<and> destV (runV (mountV True 0) [GpsFixV 0 0 5]) = None
   \<and> positionV (runV (mountV True 0) [GpsFixV 0 0 5]) = Some (0, 0)
   \<and> distanceKm (runV (mountV True 0) [GpsFixV 0 0 5]) = None
   \<and> renderV (runV (mountV True 0) [GpsFixV 0 0 5]) = MapScreenV (Prompt promptText)
   \<and> positionV (click False (0, 0) gpsV) = Some (0, 0)
   \<and> destV (click False (0, 0) gpsV) = Some (0, 0)
   \<and> distanceKm (click False (0, 0) gpsV) = None
   \<and> renderV (click False (0, 0) gpsV)
        = MapScreenV (Fields (''Distance: '' @ emdash @ '' km'') (''ETA: '' @ emdash @ '' min''))"
proof -
  have c: "run3 (mount3 True 0) clearedEvents = cleared3" by (simp add: cleared3_def)
  have g: "runV (mountV True 0) [GpsFixV 0 0 5] = gpsV" by (simp add: gpsV_def)
  have 1: "dest cleared3 = None" "position cleared3 = Some (0, 0)"
    "renderLegs cleared3 = MapScreen \<lparr>duDistance = emdash, duEta = emdash, udDistance = emdash,
        udEta = emdash, totalEta = emdash\<rparr>"
    by (simp_all add: cleared3_value flying3_value trip3_value renderLegs_def kmField_def minField_def
        totalMin_def orZero_def plusNumber_def positive_def)
  have 2: "destV gpsV = None" "positionV gpsV = Some (0, 0)"
    "positionV (click False (0, 0) gpsV) = Some (0, 0)" "destV (click False (0, 0) gpsV) = Some (0, 0)"
    "distanceKm (click False (0, 0) gpsV) = None"
    "renderV (click False (0, 0) gpsV)
        = MapScreenV (Fields (''Distance: '' @ emdash @ '' km'') (''ETA: '' @ emdash @ '' min''))"
    by (simp_all add: gpsV_value click_def renderV_def)
  note t = distance_field_without_destination[of True 0 clearedEvents "[GpsFixV 0 0 5]"
      "click False (0, 0) gpsV", unfolded c g]
  show ?thesis
    unfolding c g using t feasible_cleared 1 2 by simp
qed

section \<open>The gate and the last request of a leg\<close>

lemma refetch3_value: "refetch3 = flying3\<lparr>dest := None, kmUD := None, minUD := None, clock := 700,
    timers := [\<lparr>due = 700, t_leg = DU, t_from = Some (0, 0), t_to = Some (0, 0)\<rparr>,
               \<lparr>due = 700, t_leg = UD, t_from = Some (0, 0), t_to = None\<rparr>],
    lastDU := \<lparr>rec_from = None, rec_to = None, rec_ts = 0\<rparr>,
    lastUD := \<lparr>rec_from = None, rec_to = None, rec_ts = 0\<rparr>,
    aborted := {0, 1}\<rparr>"
  unfolding refetch3_def run3_def
  by (simp add: flying3_value trip3_value step3_def clear3_def effects3_def routingEffect3_def
      fallbackDU3_def fallbackUD3_def abortCurrent_def toggleTap_def isLatLng_def origin_simps
      DEBOUNCE3_def Let_def insert_commute)

lemma refetch3_run:
  "refetch3 = run3 (mount3 True 0) (tripEvents @ [Elapse 350, TimerFires 0, TimerFires 0]
     @ [PressClear, PressSetDriver, MapClick 0 0, Elapse 350])"
  by (simp add: refetch3_def flying3_def trip3_def run3_def)

lemma refetched_value: "step3 refetch3 (TimerFires 0) = refetch3\<lparr>
    timers := [\<lparr>due = 700, t_leg = UD, t_from = Some (0, 0), t_to = None\<rparr>],
    requests := requests flying3 @ [\<lparr>fc_leg = DU, fc_url = legUrl (0, 0) (0, 0), fc_signal = Some 2\<rparr>],
    inflight := inflight flying3 @ [\<lparr>fc_leg = DU, fc_url = legUrl (0, 0) (0, 0), fc_signal = Some 2\<rparr>],
    lastDU := \<lparr>rec_from = Some (0, 0), rec_to = Some (0, 0), rec_ts = 700\<rparr>,
    abortDU := Some 2, nextController := 3\<rparr>"
  by (simp add: refetch3_value flying3_value trip3_value step3_def fetchLeg3_def isLatLng_def
      lastOf_def abortOf_def abortCurrent_def setAbort_def setLast_def setLoading_def removeAt_def
      gateDistance_def MIN_FETCH_INTERVAL_MS_def Let_def)

text \<open>
  Claim C2 says that a scheduled fetch of a leg is skipped whenever less than 5000 ms have
  passed since the last fetch of that leg and neither endpoint has moved 30 m. Here the
  first leg is fetched at time 350, from the origin to the origin. Then Clear is pressed
  and the driver is set again at the same point; the timer set by that fires at time
  700. It is 350 ms after the first fetch and both endpoints are where they were, and
  yet a second request is made for the leg.
\<close>

theorem cleared_gate_refetches:
  "flying3 = run3 (mount3 True 0) (tripEvents @ [Elapse 350, TimerFires 0, TimerFires 0])
   \<and> requests flying3 = [\<lparr>fc_leg = DU, fc_url = legUrl (0, 0) (0, 0), fc_signal = Some 0\<rparr>,
                          \<lparr>fc_leg = UD, fc_url = legUrl (0, 0) (0, 0), fc_signal = Some 1\<rparr>]
   \<and> lastDU flying3 = \<lparr>rec_from = Some (0, 0), rec_to = Some (0, 0), rec_ts = 350\<rparr>
   \<and> refetch3 = run3 flying3 [PressClear, PressSetDriver, MapClick 0 0, Elapse 350]
   \<and> clock refetch3 = 700
   \<and> timers refetch3 ! 0 = \<lparr>due = 700, t_leg = DU, t_from = Some (0, 0), t_to = Some (0, 0)\<rparr>
   \<and> clock refetch3 - 350 < MIN_FETCH_INTERVAL_MS
   \<and> distanceMeters (0, 0) (0, 0) < MIN_MOVE_M
   \<and> requests (step3 refetch3 (TimerFires 0))
        = requests flying3 @ [\<lparr>fc_leg = DU, fc_url = legUrl (0, 0) (0, 0), fc_signal = Some 2\<rparr>]
   \<and> loadingDU (step3 refetch3 (TimerFires 0))
   \<and> lastDU (step3 refetch3 (TimerFires 0)) = \<lparr>rec_from = Some (0, 0), rec_to = Some (0, 0), rec_ts = 700\<rparr>"
proof -
  have a: "flying3 = run3 (mount3 True 0) (tripEvents @ [Elapse 350, TimerFires 0, TimerFires 0])"
    by (simp add: flying3_run)
  have b: "requests flying3 = [\<lparr>fc_leg = DU, fc_url = legUrl (0, 0) (0, 0), fc_signal = Some 0\<rparr>,
                          \<lparr>fc_leg = UD, fc_url = legUrl (0, 0) (0, 0), fc_signal = Some 1\<rparr>]"
    "lastDU flying3 = \<lparr>rec_from = Some (0, 0), rec_to = Some (0, 0), rec_ts = 350\<rparr>"
    by (simp_all add: flying3_value)
  have c: "refetch3 = run3 flying3 [PressClear, PressSetDriver, MapClick 0 0, Elapse 350]"
    by (simp add: refetch3_def)
  have d: "clock refetch3 = 700"
    "timers refetch3 ! 0 = \<lparr>due = 700, t_leg = DU, t_from = Some (0, 0), t_to = Some (0, 0)\<rparr>"
    "clock refetch3 - 350 < MIN_FETCH_INTERVAL_MS" "distanceMeters (0, 0) (0, 0) < MIN_MOVE_M"
    by (simp_all add: refetch3_value MIN_FETCH_INTERVAL_MS_def MIN_MOVE_M_def distanceMeters_origin)
  have e: "requests (step3 refetch3 (TimerFires 0))
        = requests flying3 @ [\<lparr>fc_leg = DU, fc_url = legUrl (0, 0) (0, 0), fc_signal = Some 2\<rparr>]"
    "loadingDU (step3 refetch3 (TimerFires 0))"
    "lastDU (step3 refetch3 (TimerFires 0)) = \<lparr>rec_from = Some (0, 0), rec_to = Some (0, 0), rec_ts = 700\<rparr>"
    unfolding refetched_value by (simp_all add: refetch3_value flying3_value)
  show ?thesis
    by (intro conjI) (fact a b c d e)+
qed


text \<open>What a call that gets past the gate writes into the record of its leg.\<close>

lemma fetchLeg3_record:
  assumes "\<not> skips l f t s"
  shows "lastOf l (fetchLeg3 l f t s) = \<lparr>rec_from = f, rec_to = t, rec_ts = clock s\<rparr>"
    and "lastOf (otherLeg l) (fetchLeg3 l f t s) = lastOf (otherLeg l) s"
proof -
  have g: "isLatLng f" "isLatLng t"
    "\<not> (clock s - rec_ts (lastOf l s) < MIN_FETCH_INTERVAL_MS
         \<and> lessThanMetres (gateDistance (lastOf l s) (the f) (the t)) MIN_MOVE_M)"
    using assms by (auto simp: skips_def)
  have ab: "lastDU (abortCurrent c s) = lastDU s" "lastUD (abortCurrent c s) = lastUD s"
    "clock (abortCurrent c s) = clock s" for c
    by (cases c; simp add: abortCurrent_def)+
  show "lastOf l (fetchLeg3 l f t s) = \<lparr>rec_from = f, rec_to = t, rec_ts = clock s\<rparr>"
    using g by (cases l) (auto simp: fetchLeg3_def Let_def setAbort_def setLast_def setLoading_def ab lastOf_def)
  show "lastOf (otherLeg l) (fetchLeg3 l f t s) = lastOf (otherLeg l) s"
    using g by (cases l) (auto simp: fetchLeg3_def Let_def setAbort_def setLast_def setLoading_def ab lastOf_def otherLeg_def)
qed

lemma lastOf_timers [simp]: "lastOf l (s\<lparr>timers := ts\<rparr>) = lastOf l s"
  by (cases l) (simp_all add: lastOf_def)

lemma step3_timer_fetch:
  "k < length (timers s) \<Longrightarrow> due (timers s ! k) \<le> clock s \<Longrightarrow>
   step3 s (TimerFires k)
     = fetchLeg3 (t_leg (timers s ! k)) (t_from (timers s ! k)) (t_to (timers s ! k))
         (s\<lparr>timers := removeAt k (timers s)\<rparr>)"
  by (simp add: step3_def Let_def)

lemma step3_issue:
  assumes "requests (step3 s (TimerFires k)) \<noteq> requests s"
  shows "\<not> skips (t_leg (timers s ! k)) (t_from (timers s ! k)) (t_to (timers s ! k)) (s\<lparr>timers := removeAt k (timers s)\<rparr>)"
    and "k < length (timers s)" and "due (timers s ! k) \<le> clock s"
proof -
  show k: "k < length (timers s)" "due (timers s ! k) \<le> clock s"
    using assms requests_step3_timer by blast+
  show "\<not> skips (t_leg (timers s ! k)) (t_from (timers s ! k)) (t_to (timers s ! k)) (s\<lparr>timers := removeAt k (timers s)\<rparr>)"
  proof
    assume "skips (t_leg (timers s ! k)) (t_from (timers s ! k)) (t_to (timers s ! k)) (s\<lparr>timers := removeAt k (timers s)\<rparr>)"
    then have "step3 s (TimerFires k) = s\<lparr>timers := removeAt k (timers s)\<rparr>"
      unfolding step3_timer_fetch[OF k] by (rule fetchLeg3_skipped)
    then show False using assms by simp
  qed
qed

lemma step3_issue_record:
  assumes "requests (step3 s (TimerFires k)) \<noteq> requests s"
  shows "lastOf (t_leg (timers s ! k)) (step3 s (TimerFires k))
           = \<lparr>rec_from = t_from (timers s ! k), rec_to = t_to (timers s ! k), rec_ts = clock s\<rparr>"
  using fetchLeg3_record(1)[OF step3_issue(1)[OF assms]] step3_issue(2,3)[OF assms]
  by (simp add: step3_timer_fetch)

lemma lastOf_effects3 [simp]: "lastOf l (effects3 a b c s) = lastOf l s"
  by (cases l) (simp_all add: lastOf_def effects3_frame)

lemma settleLeg3_last [simp]:
  "lastDU (settleLeg3 l c out s) = lastDU s" "lastUD (settleLeg3 l c out s) = lastUD s"
  by (cases l; simp add: settleLeg3_def Let_def setLoading_def applyRoute_def split: sum.splits)+

lemma lastOf_cong: "lastDU s' = lastDU s \<Longrightarrow> lastUD s' = lastUD s \<Longrightarrow> lastOf l s' = lastOf l s"
  by (cases l) (simp_all add: lastOf_def)

lemma issuedFor_append:
  "requests s' = requests s @ ys \<Longrightarrow> issuedFor l s' = issuedFor l s @ filter (\<lambda>c. fc_leg c = l) ys"
  by (simp add: issuedFor_def)

lemma requests_step3_append:
  "\<exists>ys. requests (step3 s e) = requests s @ ys"
proof (cases "\<exists>k. e = TimerFires k")
  case False
  then show ?thesis using requests_step3_other[of e s] by simp
next
  case True
  then obtain k where e: "e = TimerFires k" by blast
  show ?thesis
  proof (cases "requests (step3 s e) = requests s")
    case True
    then show ?thesis by simp
  next
    case False
    then have n: "requests (step3 s (TimerFires k)) \<noteq> requests s" by (simp add: e)
    note i = fetchLeg3_issued(1)[OF step3_issue(1)[OF n]]
    show ?thesis unfolding e step3_timer_fetch[OF step3_issue(2,3)[OF n]] i by simp
  qed
qed

lemma issuedFor_step3: "\<exists>ys. issuedFor l (step3 s e) = issuedFor l s @ ys"
  using requests_step3_append[of s e] issuedFor_append by blast

lemma issuedFor_run3: "\<exists>ys. issuedFor l (run3 s es) = issuedFor l s @ ys"
proof (induction es arbitrary: s)
  case Nil
  then show ?case by (simp add: run3_def)
next
  case (Cons e es)
  obtain ys where ys: "issuedFor l (step3 s e) = issuedFor l s @ ys"
    using issuedFor_step3 by blast
  obtain zs where zs: "issuedFor l (run3 (step3 s e) es) = issuedFor l (step3 s e) @ zs"
    using Cons.IH by blast
  show ?case using ys zs by (simp add: run3_def)
qed

lemma lastOf_step3_keep:
  assumes "e \<noteq> PressClear" "issuedFor l (step3 s e) = issuedFor l s"
  shows "lastOf l (step3 s e) = lastOf l s"
proof (cases e)
  case (TimerFires k)
  show ?thesis
  proof (cases "requests (step3 s (TimerFires k)) = requests s")
    case True
    show ?thesis
    proof (cases "k < length (timers s) \<and> due (timers s ! k) \<le> clock s")
      case False
      then have "step3 s (TimerFires k) = s"
        by (cases "k < length (timers s)") (simp_all add: step3_def)
      then show ?thesis unfolding TimerFires by (simp only:)
    next
      case k: True
      let ?t = "timers s ! k"
      let ?s = "s\<lparr>timers := removeAt k (timers s)\<rparr>"
      have "skips (t_leg ?t) (t_from ?t) (t_to ?t) ?s"
      proof (rule ccontr)
        assume "\<not> skips (t_leg ?t) (t_from ?t) (t_to ?t) ?s"
        from fetchLeg3_issued(1)[OF this] have "requests (step3 s (TimerFires k)) \<noteq> requests s"
          using k by (simp add: step3_timer_fetch)
        then show False using True by simp
      qed
      then have "fetchLeg3 (t_leg ?t) (t_from ?t) (t_to ?t) ?s = ?s" by (rule fetchLeg3_skipped)
      then have "lastOf l (step3 s (TimerFires k)) = lastOf l ?s"
        using k by (simp only: step3_timer_fetch)
      then show ?thesis unfolding TimerFires by simp
    qed
  next
    case False
    let ?t = "timers s ! k"
    let ?s = "s\<lparr>timers := removeAt k (timers s)\<rparr>"
    note ns = step3_issue[OF False]
    note i = fetchLeg3_issued(1)[OF ns(1)]
    have st: "step3 s e = fetchLeg3 (t_leg ?t) (t_from ?t) (t_to ?t) ?s"
      using ns(2,3) by (simp add: TimerFires step3_timer_fetch)
    have "t_leg ?t \<noteq> l"
    proof
      assume eq: "t_leg ?t = l"
      have "requests (step3 s e) = requests s
          @ [\<lparr>fc_leg = t_leg ?t, fc_url = legUrl (the (t_from ?t)) (the (t_to ?t)),
               fc_signal = Some (nextController ?s)\<rparr>]"
        unfolding st i by simp
      then have "issuedFor l (step3 s e) \<noteq> issuedFor l s"
        by (simp add: issuedFor_def eq)
      then show False using assms(2) by simp
    qed
    then have "l = otherLeg (t_leg ?t)" by (cases l; cases "t_leg ?t") (simp_all add: otherLeg_def)
    then show ?thesis unfolding st using fetchLeg3_record(2)[OF ns(1)] by simp
  qed
next
  case (Settles k out)
  show ?thesis
    by (rule lastOf_cong) (simp_all add: Settles step3_def Let_def split: option.splits)
next
  case (MapClick lat lng)
  show ?thesis
    by (rule lastOf_cong)
       (simp_all add: MapClick step3_def effects3_frame split: option.splits tapTarget.splits)
next
  case (GpsFix lat lon acc)
  show ?thesis by (rule lastOf_cong) (simp_all add: GpsFix step3_def effects3_frame)
next
  case PressClear
  then show ?thesis using assms(1) by simp
qed (rule lastOf_cong; simp add: step3_def toggleTap_def)+

lemma lastOf_run3_keep:
  assumes "PressClear \<notin> set es" "issuedFor l (run3 s es) = issuedFor l s"
  shows "lastOf l (run3 s es) = lastOf l s"
  using assms
proof (induction es arbitrary: s)
  case Nil
  then show ?case by (simp add: run3_def)
next
  case (Cons e es)
  have r: "run3 s (e # es) = run3 (step3 s e) es" by (simp add: run3_def)
  obtain ys where ys: "issuedFor l (step3 s e) = issuedFor l s @ ys"
    using issuedFor_step3 by blast
  obtain zs where zs: "issuedFor l (run3 (step3 s e) es) = issuedFor l (step3 s e) @ zs"
    using issuedFor_run3 by blast
  have "ys = []" "zs = []" using Cons.prems(2) ys zs unfolding r by simp_all
  then have 1: "issuedFor l (step3 s e) = issuedFor l s"
    and 2: "issuedFor l (run3 (step3 s e) es) = issuedFor l (step3 s e)"
    using ys zs by simp_all
  have "lastOf l (run3 (step3 s e) es) = lastOf l (step3 s e)"
    using Cons.prems(1) 2 by (intro Cons.IH) simp_all
  moreover have "lastOf l (step3 s e) = lastOf l s"
    using Cons.prems(1) 1 by (intro lastOf_step3_keep) auto
  ultimately show ?case unfolding r by simp
qed

lemma reset_not_skips:
  "rec_from (lastOf l s) = None \<Longrightarrow> \<not> skips l (Some f) (Some t) s"
  by (simp add: skips_def gateDistance_def isLatLng_def)

lemma clear_resets_record: "position s \<noteq> None \<Longrightarrow> lastOf l (step3 s PressClear) = resetRecord"
  by (cases "position s"; cases l) (simp_all add: step3_def lastOf_def effects3_frame clear3_fields resetRecord_def)

lemma gate_after_issue:
  assumes i: "requests (step3 sp (TimerFires kp)) \<noteq> requests sp"
    and t: "t_leg (timers sp ! kp) = l" "t_from (timers sp ! kp) = Some a" "t_to (timers sp ! kp) = Some b"
    and q: "sq = run3 (step3 sp (TimerFires kp)) esq" "PressClear \<notin> set esq"
      "issuedFor l sq = issuedFor l (step3 sp (TimerFires kp))"
  shows "lastOf l sq = \<lparr>rec_from = Some a, rec_to = Some b, rec_ts = clock sp\<rparr>"
proof -
  have "lastOf l sq = lastOf l (step3 sp (TimerFires kp))"
    unfolding q(1) using q(2,3) by (intro lastOf_run3_keep) (simp_all add: q(1))
  then show ?thesis using step3_issue_record[OF i] t by simp
qed

text \<open>
  Claim C2, amended. Third version: \<open>fetchLeg\<close> compares with the record of its leg. It
  changes nothing and requests nothing when less than 5000 ms have passed since the time
  in the record and both endpoints are less than 30 m from the endpoints in the record. A
  call that gets past the gate writes its endpoints and the time into the record and makes
  one request. So once a timer has made a request for a leg, and as long as Clear is not
  pressed and no later request is made for the leg, the record holds the endpoints and the
  time of that request, and a call within 5000 ms of it with both endpoints less than
  30 m from its endpoints is skipped. Clear resets the record of both legs, and with a
  reset record a call with valid endpoints is never skipped.

  A request is made only by a timer that is due; a timer, when set, is due 350 ms later;
  when driver, position or destination change, every pending timer is a new one; and in
  every reachable state a pending timer carries the current inputs of its leg, so a timer
  set for older inputs has been cancelled. In the first version and in the vias version
  timers are set 300 ms ahead.
\<close>

theorem fetch_debounced_and_gated:
  "(rec_from (lastOf l sg) = Some a \<and> rec_to (lastOf l sg) = Some b
      \<and> clock sg - rec_ts (lastOf l sg) < 5000
      \<and> distanceMeters a f < 30 \<and> distanceMeters b t < 30
      \<longrightarrow> fetchLeg3 l (Some f) (Some t) sg = sg)
   \<and> (\<not> (clock sg - rec_ts (lastOf l sg) < 5000 \<and> lessThanMetres (gateDistance (lastOf l sg) f t) 30)
      \<longrightarrow> lastOf l (fetchLeg3 l (Some f) (Some t) sg)
            = \<lparr>rec_from = Some f, rec_to = Some t, rec_ts = clock sg\<rparr>
          \<and> requests (fetchLeg3 l (Some f) (Some t) sg)
            = requests sg @ [\<lparr>fc_leg = l, fc_url = legUrl f t, fc_signal = Some (nextController sg)\<rparr>])
   \<and> (requests (step3 sp (TimerFires kp)) \<noteq> requests sp
        \<and> t_leg (timers sp ! kp) = l \<and> t_from (timers sp ! kp) = Some a \<and> t_to (timers sp ! kp) = Some b
        \<and> sq = run3 (step3 sp (TimerFires kp)) esq
        \<and> PressClear \<notin> set esq \<and> issuedFor l sq = issuedFor l (step3 sp (TimerFires kp))
      \<longrightarrow> lastOf l sq = \<lparr>rec_from = Some a, rec_to = Some b, rec_ts = clock sp\<rparr>
          \<and> (clock sq - clock sp < 5000 \<and> distanceMeters a f < 30 \<and> distanceMeters b t < 30
               \<longrightarrow> fetchLeg3 l (Some f) (Some t) sq = sq))
   \<and> (position sc \<noteq> None \<longrightarrow> lastOf l (step3 sc PressClear) = resetRecord)
   \<and> (lastOf l sg = resetRecord
      \<longrightarrow> requests (fetchLeg3 l (Some f) (Some t) sg)
            = requests sg @ [\<lparr>fc_leg = l, fc_url = legUrl f t, fc_signal = Some (nextController sg)\<rparr>])
   \<and> (requests (step3 s e) \<noteq> requests s
      \<longrightarrow> (\<exists>k. e = TimerFires k \<and> k < length (timers s) \<and> due (timers s ! k) \<le> clock s))
   \<and> (\<forall>tm \<in> set (timers (step3 s e)). tm \<in> set (timers s) \<or> due tm = clock s + 350)
   \<and> ((driver (step3 s e), position (step3 s e), dest (step3 s e)) \<noteq> (driver s, position s, dest s)
      \<longrightarrow> (\<forall>tm \<in> set (timers (step3 s e)). due tm = clock s + 350))
   \<and> (\<forall>tm \<in> set (timers (run3 (mount3 geo t0) es)).
        (t_from tm, t_to tm) = inputsOf (t_leg tm) (run3 (mount3 geo t0) es))
   \<and> (\<forall>tm \<in> set (timers (step1 s1 e)). tm \<in> set (timers s1) \<or> due tm = clock s1 + 300)
   \<and> (\<forall>tm \<in> set (timersV (stepV sV eV)). tm \<in> set (timersV sV) \<or> dueV tm = clockV sV + 300)"
proof -
  have 1: "requests (step3 s e) \<noteq> requests s
      \<longrightarrow> (\<exists>k. e = TimerFires k \<and> k < length (timers s) \<and> due (timers s ! k) \<le> clock s)"
    using requests_step3_other[of e s] requests_step3_timer[of s] by blast
  have 2: "\<forall>tm \<in> set (timers (run3 (mount3 geo t0) es)).
        (t_from tm, t_to tm) = inputsOf (t_leg tm) (run3 (mount3 geo t0) es)"
    using timersCurrent_run3[of geo t0 es] by (simp add: timersCurrent_def list_all_iff)
  have 3: "\<not> (clock sg - rec_ts (lastOf l sg) < 5000 \<and> lessThanMetres (gateDistance (lastOf l sg) f t) 30)
      \<longrightarrow> lastOf l (fetchLeg3 l (Some f) (Some t) sg)
            = \<lparr>rec_from = Some f, rec_to = Some t, rec_ts = clock sg\<rparr>
          \<and> requests (fetchLeg3 l (Some f) (Some t) sg)
            = requests sg @ [\<lparr>fc_leg = l, fc_url = legUrl f t, fc_signal = Some (nextController sg)\<rparr>]"
    using fetchLeg3_record(1)[OF not_skips, of sg l f t] fetchLeg3_issued(1)[OF not_skips, of sg l f t]
    by simp
  have 4: "lastOf l sg = resetRecord
      \<longrightarrow> requests (fetchLeg3 l (Some f) (Some t) sg)
            = requests sg @ [\<lparr>fc_leg = l, fc_url = legUrl f t, fc_signal = Some (nextController sg)\<rparr>]"
    using fetchLeg3_issued(1)[OF reset_not_skips, of l sg f t] by (simp add: resetRecord_def)
  have 5: "requests (step3 sp (TimerFires kp)) \<noteq> requests sp
        \<and> t_leg (timers sp ! kp) = l \<and> t_from (timers sp ! kp) = Some a \<and> t_to (timers sp ! kp) = Some b
        \<and> sq = run3 (step3 sp (TimerFires kp)) esq
        \<and> PressClear \<notin> set esq \<and> issuedFor l sq = issuedFor l (step3 sp (TimerFires kp))
      \<longrightarrow> lastOf l sq = \<lparr>rec_from = Some a, rec_to = Some b, rec_ts = clock sp\<rparr>
          \<and> (clock sq - clock sp < 5000 \<and> distanceMeters a f < 30 \<and> distanceMeters b t < 30
               \<longrightarrow> fetchLeg3 l (Some f) (Some t) sq = sq)"
  proof (intro impI)
    assume h: "requests (step3 sp (TimerFires kp)) \<noteq> requests sp
        \<and> t_leg (timers sp ! kp) = l \<and> t_from (timers sp ! kp) = Some a \<and> t_to (timers sp ! kp) = Some b
        \<and> sq = run3 (step3 sp (TimerFires kp)) esq
        \<and> PressClear \<notin> set esq \<and> issuedFor l sq = issuedFor l (step3 sp (TimerFires kp))"
    have r: "lastOf l sq = \<lparr>rec_from = Some a, rec_to = Some b, rec_ts = clock sp\<rparr>"
      by (rule gate_after_issue[of sp kp l a b sq esq]) (use h in blast)+
    then have "clock sq - clock sp < 5000 \<and> distanceMeters a f < 30 \<and> distanceMeters b t < 30
               \<longrightarrow> fetchLeg3 l (Some f) (Some t) sq = sq"
      using gate_skips[of l sq a b f t] by simp
    then show "lastOf l sq = \<lparr>rec_from = Some a, rec_to = Some b, rec_ts = clock sp\<rparr>
          \<and> (clock sq - clock sp < 5000 \<and> distanceMeters a f < 30 \<and> distanceMeters b t < 30
               \<longrightarrow> fetchLeg3 l (Some f) (Some t) sq = sq)"
      using r by simp
  qed
  have 6: "position sc \<noteq> None \<longrightarrow> lastOf l (step3 sc PressClear) = resetRecord"
    using clear_resets_record by blast
  have 7: "rec_from (lastOf l sg) = Some a \<and> rec_to (lastOf l sg) = Some b
      \<and> clock sg - rec_ts (lastOf l sg) < 5000
      \<and> distanceMeters a f < 30 \<and> distanceMeters b t < 30
      \<longrightarrow> fetchLeg3 l (Some f) (Some t) sg = sg"
    using gate_skips[of l sg a b f t] by blast
  have 8: "\<forall>tm \<in> set (timers (step3 s e)). tm \<in> set (timers s) \<or> due tm = clock s + 350"
    using due_step3[of _ s e] by blast
  have 9: "(driver (step3 s e), position (step3 s e), dest (step3 s e)) \<noteq> (driver s, position s, dest s)
      \<longrightarrow> (\<forall>tm \<in> set (timers (step3 s e)). due tm = clock s + 350)"
    using changed_step3[of s e] by blast
  have 10: "\<forall>tm \<in> set (timers (step1 s1 e)). tm \<in> set (timers s1) \<or> due tm = clock s1 + 300"
    using due_step1[of _ s1 e] by blast
  have 11: "\<forall>tm \<in> set (timersV (stepV sV eV)). tm \<in> set (timersV sV) \<or> dueV tm = clockV sV + 300"
    using due_stepV[of _ sV eV] by blast
  show ?thesis
    by (intro conjI) (fact 1 2 3 4 5 6 7 8 9 10 11)+
qed

lemma gated3_value: "step3 flying3 (Elapse 100) = flying3\<lparr>clock := 450\<rparr>"
  by (simp add: step3_def flying3_value)

lemma gated3_run:
  "step3 flying3 (Elapse 100)
     = run3 (step3 (step3 trip3 (Elapse 350)) (TimerFires 0)) [TimerFires 0, Elapse 100]"
  by (simp add: flying3_def run3_def)

lemma first_fetch3_value: "step3 (step3 trip3 (Elapse 350)) (TimerFires 0) = trip3\<lparr>clock := 350,
    timers := [\<lparr>due = 350, t_leg = UD, t_from = Some (0, 0), t_to = Some (0, 0)\<rparr>], loadingDU := True,
    requests := [\<lparr>fc_leg = DU, fc_url = legUrl (0, 0) (0, 0), fc_signal = Some 0\<rparr>],
    inflight := [\<lparr>fc_leg = DU, fc_url = legUrl (0, 0) (0, 0), fc_signal = Some 0\<rparr>],
    lastDU := \<lparr>rec_from = Some (0, 0), rec_to = Some (0, 0), rec_ts = 350\<rparr>,
    abortDU := Some 0, nextController := 1\<rparr>"
  by (simp add: elapsed3_value trip3_value step3_def fetchLeg3_def isLatLng_def lastOf_def
      gateDistance_def abortOf_def abortCurrent_def setAbort_def setLast_def setLoading_def Let_def removeAt_def
      MIN_FETCH_INTERVAL_MS_def)

theorem fetch_debounced_and_gated_witness:
  "requests (step3 (step3 trip3 (Elapse 350)) (TimerFires 0)) \<noteq> requests (step3 trip3 (Elapse 350))
   \<and> timers (step3 trip3 (Elapse 350)) ! 0 = \<lparr>due = 350, t_leg = DU, t_from = Some (0, 0), t_to = Some (0, 0)\<rparr>
   \<and> due (timers (step3 trip3 (Elapse 350)) ! 0) \<le> clock (step3 trip3 (Elapse 350))
   \<and> step3 flying3 (Elapse 100)
        = run3 (step3 (step3 trip3 (Elapse 350)) (TimerFires 0)) [TimerFires 0, Elapse 100]
   \<and> PressClear \<notin> set [TimerFires 0, Elapse 100]
   \<and> issuedFor DU (step3 flying3 (Elapse 100)) = issuedFor DU (step3 (step3 trip3 (Elapse 350)) (TimerFires 0))
   \<and> lastOf DU (step3 flying3 (Elapse 100)) = \<lparr>rec_from = Some (0, 0), rec_to = Some (0, 0), rec_ts = 350\<rparr>
   \<and> clock (step3 flying3 (Elapse 100)) - clock (step3 trip3 (Elapse 350)) < 5000
   \<and> clock (step3 flying3 (Elapse 100)) - rec_ts (lastOf DU (step3 flying3 (Elapse 100))) < 5000
   \<and> distanceMeters (0, 0) (0, 0) < 30
   \<and> fetchLeg3 DU (Some (0, 0)) (Some (0, 0)) (step3 flying3 (Elapse 100)) = step3 flying3 (Elapse 100)
   \<and> position flying3 \<noteq> None
   \<and> lastOf DU (step3 flying3 PressClear) = resetRecord
   \<and> lastOf DU refetch3 = resetRecord
   \<and> \<not> lessThanMetres (gateDistance (lastOf DU refetch3) (0, 0) (0, 0)) 30
   \<and> lastOf DU (fetchLeg3 DU (Some (0, 0)) (Some (0, 0)) refetch3)
        = \<lparr>rec_from = Some (0, 0), rec_to = Some (0, 0), rec_ts = 700\<rparr>
   \<and> requests (fetchLeg3 DU (Some (0, 0)) (Some (0, 0)) refetch3)
        = requests refetch3 @ [\<lparr>fc_leg = DU, fc_url = legUrl (0, 0) (0, 0), fc_signal = Some 2\<rparr>]
   \<and> position (step3 flying3 (GpsFix 1 1 5)) \<noteq> position flying3
   \<and> map due (timers (step3 flying3 (GpsFix 1 1 5))) = [700, 700]
   \<and> map due (timers (run3 (mount3 True 0) tripEvents)) = [350, 350]
   \<and> map t_to (timers (run3 (mount3 True 0) tripEvents)) = [Some (0, 0), Some (0, 0)]
   \<and> map due (timers (step1 flying1 (GpsFix 1 1 5))) = [600, 600]
   \<and> map dueV (timersV (stepV flyingV (GpsFixV 1 1 5))) = [600]"
proof -
  let ?sp = "step3 trip3 (Elapse 350)"
  let ?sq = "step3 flying3 (Elapse 100)"
  note A = fetch_debounced_and_gated[where l = DU and sg = ?sq and a = "(0, 0)" and b = "(0, 0)"
      and f = "(0, 0)" and t = "(0, 0)" and sp = ?sp and kp = 0 and sq = ?sq
      and esq = "[TimerFires 0, Elapse 100]" and sc = flying3]
  note B = fetch_debounced_and_gated[where l = DU and sg = refetch3 and f = "(0, 0)" and t = "(0, 0)"]
  have i: "requests (step3 ?sp (TimerFires 0)) \<noteq> requests ?sp"
    "timers ?sp ! 0 = \<lparr>due = 350, t_leg = DU, t_from = Some (0, 0), t_to = Some (0, 0)\<rparr>"
    "due (timers ?sp ! 0) \<le> clock ?sp"
    by (simp_all only: first_fetch3_value, simp_all only: elapsed3_value, simp_all add: trip3_value)
  have ti: "t_leg (timers ?sp ! 0) = DU" "t_from (timers ?sp ! 0) = Some (0, 0)"
    "t_to (timers ?sp ! 0) = Some (0, 0)"
    by (simp_all add: i(2))
  have q1: "?sq = run3 (step3 ?sp (TimerFires 0)) [TimerFires 0, Elapse 100]"
    by (rule gated3_run)
  have q2: "issuedFor DU ?sq = issuedFor DU (step3 ?sp (TimerFires 0))"
    by (simp only: first_fetch3_value gated3_value) (simp add: flying3_value trip3_value issuedFor_def)
  have q: "PressClear \<notin> set [TimerFires 0, Elapse 100]"
    "clock ?sq - clock ?sp < 5000" "distanceMeters (0, 0) (0, 0) < (30::real)"
    by (simp_all only: gated3_value elapsed3_value, simp_all add: flying3_value trip3_value distanceMeters_origin)
  have r0: "lastOf DU ?sq = \<lparr>rec_from = Some (0, 0), rec_to = Some (0, 0), rec_ts = clock ?sp\<rparr>"
    "fetchLeg3 DU (Some (0, 0)) (Some (0, 0)) ?sq = ?sq"
    using A i(1) ti q q1 q2 by blast+
  have cs: "clock ?sp = 350" by (simp add: elapsed3_value)
  have r: "lastOf DU ?sq = \<lparr>rec_from = Some (0, 0), rec_to = Some (0, 0), rec_ts = 350\<rparr>"
    "fetchLeg3 DU (Some (0, 0)) (Some (0, 0)) ?sq = ?sq"
    using r0 by (simp_all only: cs)
  have r2: "clock ?sq - rec_ts (lastOf DU ?sq) < 5000"
    unfolding r(1) by (simp add: gated3_value)
  have c: "position flying3 \<noteq> None" by (simp add: flying3_value trip3_value)
  then have c2: "lastOf DU (step3 flying3 PressClear) = resetRecord" using A by blast
  have d: "lastOf DU refetch3 = resetRecord"
    "\<not> lessThanMetres (gateDistance (lastOf DU refetch3) (0, 0) (0, 0)) 30"
    "clock refetch3 = 700" "nextController refetch3 = 2"
    by (simp_all add: refetch3_value flying3_value lastOf_def resetRecord_def gateDistance_def isLatLng_def)
  have d2: "lastOf DU (fetchLeg3 DU (Some (0, 0)) (Some (0, 0)) refetch3)
        = \<lparr>rec_from = Some (0, 0), rec_to = Some (0, 0), rec_ts = 700\<rparr>"
    "requests (fetchLeg3 DU (Some (0, 0)) (Some (0, 0)) refetch3)
        = requests refetch3 @ [\<lparr>fc_leg = DU, fc_url = legUrl (0, 0) (0, 0), fc_signal = Some 2\<rparr>]"
    using B d(2) by (simp_all add: d(3,4))
  have p: "position (step3 flying3 (GpsFix 1 1 5)) \<noteq> position flying3"
    "map due (timers (step3 flying3 (GpsFix 1 1 5))) = [700, 700]"
    by (simp_all add: flying3_value trip3_value step3_def effects3_def routingEffect3_def fallbackDU3_def
        fallbackUD3_def roundGPS_one DEBOUNCE3_def Let_def)
  have t: "map due (timers (run3 (mount3 True 0) tripEvents)) = [350, 350]"
    "map t_to (timers (run3 (mount3 True 0) tripEvents)) = [Some (0, 0), Some (0, 0)]"
    by (simp_all add: trip3_def[symmetric] trip3_value)
  have v1: "map due (timers (step1 flying1 (GpsFix 1 1 5))) = [600, 600]"
    by (simp add: flying1_value trip1_value step1_def effects1_def routingEffect1_def fallbackDU1_def
        fallbackUD1_def DEBOUNCE1_def Let_def)
  have v2: "map dueV (timersV (stepV flyingV (GpsFixV 1 1 5))) = [600]"
    by (simp add: flyingV_value tripV_value stepV_def effectsV_def routingEffectV_def runCleanupV_def
        fallbackV_def isLatLng_def DEBOUNCEV_def Let_def)
  show ?thesis
    by (intro conjI) (fact i q q1 q2 r r2 c c2 d d2 p t v1 v2)+
qed

section \<open>A route request that fails\<close>

lemma suffix_failureText: "suffix ending (failureText e ending)"
  by (simp add: failureText_def suffix_def)

lemma late1_value: "late1 = flying1\<lparr>accuracy := Some 5, position := Some (0, 0), clock := 600,
    timers := [\<lparr>due = 600, t_leg = UD, t_from = Some (0, 0), t_to = Some (0, 0)\<rparr>],
    requests := [\<lparr>fc_leg = DU, fc_url = legUrl (0, 0) (0, 0), fc_signal = None\<rparr>,
                 \<lparr>fc_leg = UD, fc_url = legUrl (0, 0) (0, 0), fc_signal = None\<rparr>,
                 \<lparr>fc_leg = DU, fc_url = legUrl (0, 0) (0, 0), fc_signal = None\<rparr>],
    inflight := [\<lparr>fc_leg = DU, fc_url = legUrl (0, 0) (0, 0), fc_signal = None\<rparr>,
                 \<lparr>fc_leg = UD, fc_url = legUrl (0, 0) (0, 0), fc_signal = None\<rparr>],
    routeDU := [(0, 0)], kmDU := Some ''1.00'', minDU := Some (Fin 1), loadingDU := False\<rparr>"
  unfolding late1_def run1_def
  by (simp add: flying1_value trip1_value step1_def effects1_def routingEffect1_def fallbackDU1_def
      fallbackUD1_def fetchLeg1_def settleLeg1_def awaitRoute_def applyRoute_def setLoading_def
      isLatLng_def removeAt_def origin_simps sampleRoute_values DEBOUNCE1_def Let_def)

lemma late1_run:
  "late1 = run1 (mount1 True 0) (tripEvents @ [Elapse 300, TimerFires 0, TimerFires 0]
     @ [GpsFix 0 0 5, Elapse 300, TimerFires 0, Settles 2 (Body [sampleRoute])])"
  by (simp add: late1_def flying1_def trip1_def run1_def)

lemma osrm500: "awaitRoute (NotOk 500 '''') = Inl (JsError ''Error'' ''OSRM 500'')"
  by (simp add: awaitRoute_def showNat.simps digit_def)

text \<open>
  Claim C4 says that every failed route request is surfaced in the error string, and that
  the interface then shows the straight-line estimate. Three runs in which it is not so.
  Vias version: a GPS fix arrives while the request is in flight, so its run is cancelled;
  the response is a 500 and the error string stays empty. Third version: a request that
  was superseded is rejected with an \<open>AbortError\<close>, and the error string stays empty.
  First version: the first leg is requested twice, the second request brings a route and
  then the first one a 500; the error string says that the straight-line estimate is
  shown, while the distance and the polyline are those of the route (the straight-line
  distance of the leg is \<open>0.00\<close>).
\<close>

theorem failure_not_always_surfaced:
  "inflightV cancelledV = [0] \<and> 0 \<in> canceledRuns cancelledV
   \<and> awaitRoute (NotOk 500 '''') = Inl (JsError ''Error'' ''OSRM 500'')
   \<and> errorV (stepV cancelledV (SettlesV 0 (NotOk 500 ''''))) = ''''
   \<and> \<not> suffix straightLineSuffix (errorV (stepV cancelledV (SettlesV 0 (NotOk 500 ''''))))
   \<and> fc_signal (inflight stale3 ! 0) = Some 0
   \<and> awaitRoute (Rejected ''AbortError'' ''The operation was aborted.'')
        = Inl (JsError ''AbortError'' ''The operation was aborted.'')
   \<and> error (step3 stale3 (Settles 0 (Rejected ''AbortError'' ''The operation was aborted.''))) = ''''
   \<and> \<not> suffix estimateSuffix (error (step3 stale3 (Settles 0 (Rejected ''AbortError'' ''The operation was aborted.''))))
   \<and> late1 = run1 (mount1 True 0) (tripEvents @ [Elapse 300, TimerFires 0, TimerFires 0]
        @ [GpsFix 0 0 5, Elapse 300, TimerFires 0, Settles 2 (Body [sampleRoute])])
   \<and> fc_leg (inflight late1 ! 0) = DU
   \<and> error (step1 late1 (Settles 0 (NotOk 500 ''''))) = ''OSRM 500'' @ estimateSuffix
   \<and> driver (step1 late1 (Settles 0 (NotOk 500 ''''))) = Some (0, 0)
   \<and> position (step1 late1 (Settles 0 (NotOk 500 ''''))) = Some (0, 0)
   \<and> toFixed2 (haversineKm (0, 0) (0, 0)) = ''0.00''
   \<and> kmDU (step1 late1 (Settles 0 (NotOk 500 ''''))) = Some ''1.00''
   \<and> routeDU (step1 late1 (Settles 0 (NotOk 500 ''''))) = [(0, 0)]
   \<and> \<not> showsStraightLine DU (step1 late1 (Settles 0 (NotOk 500 '''')))"
proof -
  have a: "inflightV cancelledV = [0]" "0 \<in> canceledRuns cancelledV"
    "errorV (stepV cancelledV (SettlesV 0 (NotOk 500 ''''))) = ''''"
    "\<not> suffix straightLineSuffix (errorV (stepV cancelledV (SettlesV 0 (NotOk 500 ''''))))"
    by (simp_all add: cancelledV_value flyingV_value tripV_value stepV_def settleV_def osrm500
        removeAt_def Let_def straightLineSuffix_def)
  have b: "fc_signal (inflight stale3 ! 0) = Some 0"
    "awaitRoute (Rejected ''AbortError'' ''The operation was aborted.'')
        = Inl (JsError ''AbortError'' ''The operation was aborted.'')"
    "error (step3 stale3 (Settles 0 (Rejected ''AbortError'' ''The operation was aborted.''))) = ''''"
    "\<not> suffix estimateSuffix (error (step3 stale3 (Settles 0 (Rejected ''AbortError'' ''The operation was aborted.''))))"
    by (simp_all add: stale3_value due3_value flying3_value trip3_value step3_def settleLeg3_def
        awaitRoute_def setLoading_def removeAt_def Let_def estimateSuffix_def)
  have s: "step1 late1 (Settles 0 (NotOk 500 '''')) = late1\<lparr>error := ''OSRM 500'' @ estimateSuffix,
      inflight := [\<lparr>fc_leg = UD, fc_url = legUrl (0, 0) (0, 0), fc_signal = None\<rparr>]\<rparr>"
    by (simp add: late1_value flying1_value trip1_value step1_def settleLeg1_def osrm500 failureText_def
        setLoading_def removeAt_def)
  have c: "fc_leg (inflight late1 ! 0) = DU"
    "error (step1 late1 (Settles 0 (NotOk 500 ''''))) = ''OSRM 500'' @ estimateSuffix"
    "driver (step1 late1 (Settles 0 (NotOk 500 ''''))) = Some (0, 0)"
    "position (step1 late1 (Settles 0 (NotOk 500 ''''))) = Some (0, 0)"
    "toFixed2 (haversineKm (0, 0) (0, 0)) = ''0.00''"
    "kmDU (step1 late1 (Settles 0 (NotOk 500 ''''))) = Some ''1.00''"
    "routeDU (step1 late1 (Settles 0 (NotOk 500 ''''))) = [(0, 0)]"
    "\<not> showsStraightLine DU (step1 late1 (Settles 0 (NotOk 500 '''')))"
    unfolding s
    by (simp_all add: late1_value flying1_value trip1_value origin_simps showsStraightLine_def
        inputsOf_def routeState_def straightLine_def isLatLng_def)
  show ?thesis
    by (intro conjI) (fact a b c osrm500 late1_run)+
qed

lemma showsStraightLine_cong:
  "routeState l s' = routeState l s \<Longrightarrow> inputsOf l s' = inputsOf l s
   \<Longrightarrow> showsStraightLine l s' = showsStraightLine l s"
  by (simp add: showsStraightLine_def)

lemma inputsOf_setLoading [simp]: "inputsOf l' (setLoading l b s) = inputsOf l' s"
  by (cases l; cases l') (simp_all add: inputsOf_def setLoading_def)

lemma inputsOf_error [simp]: "inputsOf l' (s\<lparr>error := x\<rparr>) = inputsOf l' s"
  by (cases l') (simp_all add: inputsOf_def)

text \<open>
  Claim C4, amended. A rejected \<open>fetch\<close>, a response that is not OK and an empty
  \<open>routes\<close> array all end in the \<open>catch\<close> block. In the first version, and in the third
  unless the error is an \<open>AbortError\<close>, the error string becomes the message followed by
  the straight-line-estimate text and the loading flag of the leg is cleared; on an
  \<open>AbortError\<close> the third version clears the loading flag only. In the vias version the
  error string is set (with its own text) and the loading flag cleared unless the run has
  been cancelled, and then nothing changes at all. In every case the route state
  (polyline, distance, estimate) stays as it was and nothing but error string and loading
  flag changes; so what is shown after the failure is the straight-line estimate whenever
  that was shown before it.
\<close>

theorem route_failure_surfaced:
  "isl (awaitRoute (Rejected n m)) \<and> isl (awaitRoute (NotOk status msg)) \<and> isl (awaitRoute (Body []))
   \<and> (awaitRoute out = Inl e \<longrightarrow>
        settleLeg1 l out s1 = setLoading l False (s1\<lparr>error := failureText e estimateSuffix\<rparr>)
        \<and> suffix estimateSuffix (error (settleLeg1 l out s1))
        \<and> routeState DU (settleLeg1 l out s1) = routeState DU s1
        \<and> routeState UD (settleLeg1 l out s1) = routeState UD s1
        \<and> (showsStraightLine l s1 \<longrightarrow> showsStraightLine l (settleLeg1 l out s1)))
   \<and> (awaitRoute out = Inl e \<and> errName e \<noteq> ''AbortError'' \<longrightarrow>
        settleLeg3 l c out s3 = setLoading l False (s3\<lparr>error := failureText e estimateSuffix\<rparr>)
        \<and> suffix estimateSuffix (error (settleLeg3 l c out s3)))
   \<and> (awaitRoute out = Inl e \<and> errName e = ''AbortError'' \<longrightarrow>
        settleLeg3 l c out s3 = setLoading l False s3
        \<and> error (settleLeg3 l c out s3) = error s3)
   \<and> (awaitRoute out = Inl e \<longrightarrow>
        routeState DU (settleLeg3 l c out s3) = routeState DU s3
        \<and> routeState UD (settleLeg3 l c out s3) = routeState UD s3
        \<and> (showsStraightLine l s3 \<longrightarrow> showsStraightLine l (settleLeg3 l c out s3)))
   \<and> (awaitRoute out = Inl e \<and> k \<notin> canceledRuns sV \<longrightarrow>
        settleV k out sV = sV\<lparr>errorV := failureText e straightLineSuffix, loading := False\<rparr>
        \<and> suffix straightLineSuffix (errorV (settleV k out sV))
        \<and> (showsStraightLineV sV \<longrightarrow> showsStraightLineV (settleV k out sV)))
   \<and> (awaitRoute out = Inl e \<and> k \<in> canceledRuns sV \<longrightarrow> settleV k out sV = sV)"
proof (intro conjI impI)
  assume a: "awaitRoute out = Inl e"
  then show s1: "settleLeg1 l out s1 = setLoading l False (s1\<lparr>error := failureText e estimateSuffix\<rparr>)"
    by (simp add: settleLeg1_def)
  show "suffix estimateSuffix (error (settleLeg1 l out s1))"
    unfolding s1 by (simp add: suffix_failureText)
  show r1: "routeState DU (settleLeg1 l out s1) = routeState DU s1"
    "routeState UD (settleLeg1 l out s1) = routeState UD s1"
    unfolding s1 by simp_all
  have "routeState l (settleLeg1 l out s1) = routeState l s1" "inputsOf l (settleLeg1 l out s1) = inputsOf l s1"
    unfolding s1 by simp_all
  then have "showsStraightLine l (settleLeg1 l out s1) = showsStraightLine l s1"
    by (rule showsStraightLine_cong)
  then show "showsStraightLine l s1 \<Longrightarrow> showsStraightLine l (settleLeg1 l out s1)" by simp
  have s3: "settleLeg3 l c out s3 = setLoading l False s3
      \<or> settleLeg3 l c out s3 = setLoading l False (s3\<lparr>error := failureText e estimateSuffix\<rparr>)"
    using a by (simp add: settleLeg3_def)
  then show "routeState DU (settleLeg3 l c out s3) = routeState DU s3"
    "routeState UD (settleLeg3 l c out s3) = routeState UD s3"
    by auto
  have "routeState l (settleLeg3 l c out s3) = routeState l s3" "inputsOf l (settleLeg3 l c out s3) = inputsOf l s3"
    using s3 by auto
  then have "showsStraightLine l (settleLeg3 l c out s3) = showsStraightLine l s3"
    by (rule showsStraightLine_cong)
  then show "showsStraightLine l s3 \<Longrightarrow> showsStraightLine l (settleLeg3 l c out s3)" by simp
next
  assume a: "awaitRoute out = Inl e \<and> errName e \<noteq> ''AbortError''"
  then show s3: "settleLeg3 l c out s3 = setLoading l False (s3\<lparr>error := failureText e estimateSuffix\<rparr>)"
    by (simp add: settleLeg3_def)
  show "suffix estimateSuffix (error (settleLeg3 l c out s3))"
    unfolding s3 by (simp add: suffix_failureText)
next
  assume a: "awaitRoute out = Inl e \<and> errName e = ''AbortError''"
  then show s3: "settleLeg3 l c out s3 = setLoading l False s3"
    by (simp add: settleLeg3_def)
  show "error (settleLeg3 l c out s3) = error s3"
    unfolding s3 by simp
next
  assume a: "awaitRoute out = Inl e \<and> k \<notin> canceledRuns sV"
  then show sV: "settleV k out sV = sV\<lparr>errorV := failureText e straightLineSuffix, loading := False\<rparr>"
    by (simp add: settleV_def)
  show "suffix straightLineSuffix (errorV (settleV k out sV))"
    unfolding sV by (simp add: suffix_failureText)
  show "showsStraightLineV sV \<Longrightarrow> showsStraightLineV (settleV k out sV)"
    unfolding sV by (simp add: showsStraightLineV_def)
next
  assume "awaitRoute out = Inl e \<and> k \<in> canceledRuns sV"
  then show "settleV k out sV = sV" by (simp add: settleV_def)
qed (simp_all add: awaitRoute_def)

lemma shows_flying:
  "showsStraightLine UD flying1" "showsStraightLine UD flying3" "showsStraightLineV flyingV"
  by (simp_all add: showsStraightLine_def showsStraightLineV_def inputsOf_def routeState_def straightLine_def
      isLatLng_def flying1_value flying3_value flyingV_value trip1_value trip3_value tripV_value
      origin_simps chainKm_origin3)

theorem route_failure_surfaced_witness:
  "awaitRoute (Body []) = Inl (JsError ''Error'' ''No route found'')
   \<and> errName (JsError ''Error'' ''No route found'') \<noteq> ''AbortError''
   \<and> 0 \<notin> canceledRuns flyingV \<and> 0 \<in> canceledRuns cancelledV
   \<and> error (settleLeg1 UD (Body []) flying1) = ''No route found'' @ estimateSuffix
   \<and> loadingUD (settleLeg1 UD (Body []) flying1) = False
   \<and> kmUD (settleLeg1 UD (Body []) flying1) = Some ''0.00''
   \<and> showsStraightLine UD flying1
   \<and> showsStraightLine UD (settleLeg1 UD (Body []) flying1)
   \<and> error (settleLeg3 UD 1 (Body []) flying3) = ''No route found'' @ estimateSuffix
   \<and> loadingUD (settleLeg3 UD 1 (Body []) flying3) = False
   \<and> kmUD (settleLeg3 UD 1 (Body []) flying3) = Some ''0.00''
   \<and> showsStraightLine UD flying3
   \<and> showsStraightLine UD (settleLeg3 UD 1 (Body []) flying3)
   \<and> awaitRoute (Rejected ''AbortError'' '''') = Inl (JsError ''AbortError'' '''')
   \<and> errName (JsError ''AbortError'' '''') = ''AbortError''
   \<and> settleLeg3 UD 1 (Rejected ''AbortError'' '''') flying3 = setLoading UD False flying3
   \<and> error (settleLeg3 UD 1 (Rejected ''AbortError'' '''') flying3) = ''''
   \<and> loadingUD (settleLeg3 UD 1 (Rejected ''AbortError'' '''') flying3) = False
   \<and> errorV (settleV 0 (Body []) flyingV) = ''No route found'' @ straightLineSuffix
   \<and> loading (settleV 0 (Body []) flyingV) = False
   \<and> distanceKm (settleV 0 (Body []) flyingV) = Some ''0.00''
   \<and> showsStraightLineV flyingV
   \<and> showsStraightLineV (settleV 0 (Body []) flyingV)
   \<and> settleV 0 (Body []) cancelledV = cancelledV"
proof -
  note t1 = route_failure_surfaced[where out = "Body []" and e = "JsError ''Error'' ''No route found''"
      and l = UD and ?s1.0 = flying1 and c = 1 and ?s3.0 = flying3 and k = 0 and sV = flyingV]
  note t2 = route_failure_surfaced[where out = "Body []" and e = "JsError ''Error'' ''No route found''"
      and k = 0 and sV = cancelledV]
  note t3 = route_failure_surfaced[where out = "Rejected ''AbortError'' ''''"
      and e = "JsError ''AbortError'' ''''" and l = UD and c = 1 and ?s3.0 = flying3]
  have h: "awaitRoute (Body []) = Inl (JsError ''Error'' ''No route found'')"
    "errName (JsError ''Error'' ''No route found'') \<noteq> ''AbortError''"
    "0 \<notin> canceledRuns flyingV" "0 \<in> canceledRuns cancelledV"
    "awaitRoute (Rejected ''AbortError'' '''') = Inl (JsError ''AbortError'' '''')"
    "errName (JsError ''AbortError'' '''') = ''AbortError''"
    by (simp_all add: awaitRoute_def flyingV_value tripV_value cancelledV_value)
  have s1: "settleLeg1 UD (Body []) flying1
      = setLoading UD False (flying1\<lparr>error := failureText (JsError ''Error'' ''No route found'') estimateSuffix\<rparr>)"
    and p1: "showsStraightLine UD (settleLeg1 UD (Body []) flying1)"
    using t1 h(1) shows_flying(1) by blast+
  have s3: "settleLeg3 UD 1 (Body []) flying3
      = setLoading UD False (flying3\<lparr>error := failureText (JsError ''Error'' ''No route found'') estimateSuffix\<rparr>)"
    and p3: "showsStraightLine UD (settleLeg3 UD 1 (Body []) flying3)"
    using t1 h(1,2) shows_flying(2) by blast+
  have sV: "settleV 0 (Body []) flyingV
      = flyingV\<lparr>errorV := failureText (JsError ''Error'' ''No route found'') straightLineSuffix, loading := False\<rparr>"
    and pV: "showsStraightLineV (settleV 0 (Body []) flyingV)"
    using t1 h(1,3) shows_flying(3) by blast+
  have sC: "settleV 0 (Body []) cancelledV = cancelledV"
    using t2 h(1,4) by blast
  have sA: "settleLeg3 UD 1 (Rejected ''AbortError'' '''') flying3 = setLoading UD False flying3"
    using t3 h(5,6) by blast
  have v1: "error (settleLeg1 UD (Body []) flying1) = ''No route found'' @ estimateSuffix"
    "loadingUD (settleLeg1 UD (Body []) flying1) = False"
    "kmUD (settleLeg1 UD (Body []) flying1) = Some ''0.00''"
    unfolding s1 by (simp_all add: failureText_def setLoading_def flying1_value trip1_value)
  have v3: "error (settleLeg3 UD 1 (Body []) flying3) = ''No route found'' @ estimateSuffix"
    "loadingUD (settleLeg3 UD 1 (Body []) flying3) = False"
    "kmUD (settleLeg3 UD 1 (Body []) flying3) = Some ''0.00''"
    unfolding s3 by (simp_all add: failureText_def setLoading_def flying3_value trip3_value)
  have vA: "error (settleLeg3 UD 1 (Rejected ''AbortError'' '''') flying3) = ''''"
    "loadingUD (settleLeg3 UD 1 (Rejected ''AbortError'' '''') flying3) = False"
    unfolding sA by (simp_all add: setLoading_def flying3_value trip3_value)
  have vV: "errorV (settleV 0 (Body []) flyingV) = ''No route found'' @ straightLineSuffix"
    "loading (settleV 0 (Body []) flyingV) = False"
    "distanceKm (settleV 0 (Body []) flyingV) = Some ''0.00''"
    unfolding sV by (simp_all add: failureText_def flyingV_value tripV_value)
  show ?thesis
    by (intro conjI) (fact h p1 p3 pV sC sA v1 v3 vA vV shows_flying)+
qed

section \<open>The estimates that are written\<close>

lemma tenMinuteRoute_values:
  "pathOf tenMinuteRoute = [(0, 0)]" "numToFixed2 (divideBy (distance tenMinuteRoute) 1000) = ''1.00''"
  "routeEta (duration tenMinuteRoute) = Fin 10" "duration tenMinuteRoute = Fin 600"
  "routeEta (Fin 600) = Fin 10"
  by (simp_all add: tenMinuteRoute_def pathOf_def numToFixed2_def divideBy_def toFixed2_def showNat.simps
      digit_def routeEta_def mathMax1_def mathRound_def jsRound_def)

lemma noDurationRoute_values:
  "pathOf noDurationRoute = [(0, 0)]" "numToFixed2 (divideBy (distance noDurationRoute) 1000) = ''1.00''"
  "routeEta (duration noDurationRoute) = NaN"
  by (simp_all add: noDurationRoute_def pathOf_def numToFixed2_def divideBy_def toFixed2_def showNat.simps
      digit_def routeEta_def mathMax1_def mathRound_def jsRound_def)

lemma settled1_value:
  "pathOf r = [(0, 0)] \<Longrightarrow> numToFixed2 (divideBy (distance r) 1000) = ''1.00'' \<Longrightarrow>
   step1 flying1 (Settles 0 (Body [r])) = flying1\<lparr>routeDU := [(0, 0)], kmDU := Some ''1.00'',
     minDU := Some (routeEta (duration r)), loadingDU := False,
     inflight := [\<lparr>fc_leg = UD, fc_url = legUrl (0, 0) (0, 0), fc_signal = None\<rparr>]\<rparr>"
  by (simp add: flying1_value trip1_value step1_def settleLeg1_def awaitRoute_def applyRoute_def
      setLoading_def removeAt_def)

lemma settled3_value:
  "pathOf r = [(0, 0)] \<Longrightarrow> numToFixed2 (divideBy (distance r) 1000) = ''1.00'' \<Longrightarrow>
   step3 flying3 (Settles 0 (Body [r])) = flying3\<lparr>routeDU := [(0, 0)], kmDU := Some ''1.00'',
     minDU := Some (routeEta (duration r)), loadingDU := False,
     inflight := [\<lparr>fc_leg = UD, fc_url = legUrl (0, 0) (0, 0), fc_signal = Some 1\<rparr>]\<rparr>"
  by (simp add: flying3_value trip3_value step3_def settleLeg3_def awaitRoute_def applyRoute_def
      setLoading_def removeAt_def abortOf_def Let_def)

lemma settledV_value:
  "pathOf r = [(0, 0)] \<Longrightarrow> numToFixed2 (divideBy (distance r) 1000) = ''1.00'' \<Longrightarrow>
   stepV flyingV (SettlesV 0 (Body [r])) = flyingV\<lparr>routeCoords := [(0, 0)], distanceKm := Some ''1.00'',
     durationMin := Some (routeEta (duration r)), loading := False, inflightV := []\<rparr>"
  by (simp add: flyingV_value tripV_value stepV_def settleV_def awaitRoute_def removeAt_def Let_def)

lemma run1_snoc: "run1 s (es @ [e]) = step1 (run1 s es) e"
  by (simp add: run1_def)

lemma run3_snoc: "run3 s (es @ [e]) = step3 (run3 s es) e"
  by (simp add: run3_def)

lemma runV_snoc: "runV s (es @ [e]) = stepV (runV s es) e"
  by (simp add: runV_def)

lemma routed1_run: "run1 (mount1 True 0) routedEvents1 = step1 flying1 (Settles 0 (Body [tenMinuteRoute]))"
  using run1_snoc[of "mount1 True 0" "tripEvents @ [Elapse 300, TimerFires 0, TimerFires 0]"]
  by (simp add: routedEvents1_def flying1_run)

lemma routed3_run: "run3 (mount3 True 0) routedEvents3 = step3 flying3 (Settles 0 (Body [tenMinuteRoute]))"
  using run3_snoc[of "mount3 True 0" "tripEvents @ [Elapse 350, TimerFires 0, TimerFires 0]"]
  by (simp add: routedEvents3_def flying3_run)

lemma routedV_run: "runV (mountV True 0) routedEventsV = stepV flyingV (SettlesV 0 (Body [tenMinuteRoute]))"
  using runV_snoc[of "mountV True 0" "tripEventsV @ [ElapseV 300, TimerFiresV 0]"]
  by (simp add: routedEventsV_def flyingV_run)

lemma broken1_run: "run1 (mount1 True 0) brokenEvents1 = step1 flying1 (Settles 0 (Body [noDurationRoute]))"
  using run1_snoc[of "mount1 True 0" "tripEvents @ [Elapse 300, TimerFires 0, TimerFires 0]"]
  by (simp add: brokenEvents1_def flying1_run)

lemma broken3_run: "run3 (mount3 True 0) brokenEvents3 = step3 flying3 (Settles 0 (Body [noDurationRoute]))"
  using run3_snoc[of "mount3 True 0" "tripEvents @ [Elapse 350, TimerFires 0, TimerFires 0]"]
  by (simp add: brokenEvents3_def flying3_run)

lemma brokenV_run: "runV (mountV True 0) brokenEventsV = stepV flyingV (SettlesV 0 (Body [noDurationRoute]))"
  using runV_snoc[of "mountV True 0" "tripEventsV @ [ElapseV 300, TimerFiresV 0]"]
  by (simp add: brokenEventsV_def flyingV_run)

lemma broken_values:
  "minDU (step1 flying1 (Settles 0 (Body [noDurationRoute]))) = Some NaN"
  "minUD (step1 flying1 (Settles 0 (Body [noDurationRoute]))) = Some (Fin 1)"
  "minDU (step3 flying3 (Settles 0 (Body [noDurationRoute]))) = Some NaN"
  "minUD (step3 flying3 (Settles 0 (Body [noDurationRoute]))) = Some (Fin 1)"
  "durationMin (stepV flyingV (SettlesV 0 (Body [noDurationRoute]))) = Some NaN"
  unfolding settled1_value[OF noDurationRoute_values(1,2)] settled3_value[OF noDurationRoute_values(1,2)]
    settledV_value[OF noDurationRoute_values(1,2)]
  by (simp_all add: noDurationRoute_values flying1_value flying3_value flyingV_value trip1_value
      trip3_value tripV_value)

text \<open>
  Claim C9 says that every estimate stored is an integer of at least 1. In each version,
  when the response to the first request has a route without a (numeric) duration, the
  estimate stored is \<open>NaN\<close>, which is neither an integer nor at least 1; the vias version
  then shows \<open>ETA: NaN min\<close>.
\<close>

theorem eta_not_a_number:
  "duration noDurationRoute = NaN
   \<and> minDU (run1 (mount1 True 0) brokenEvents1) = Some NaN
   \<and> minDU (run3 (mount3 True 0) brokenEvents3) = Some NaN
   \<and> durationMin (runV (mountV True 0) brokenEventsV) = Some NaN
   \<and> \<not> geOne NaN \<and> \<not> isFin (NaN :: int number)
   \<and> renderV (runV (mountV True 0) brokenEventsV)
        = MapScreenV (Fields ''Distance: 1.00 km'' ''ETA: NaN min'')"
proof -
  have "renderV (stepV flyingV (SettlesV 0 (Body [noDurationRoute])))
        = MapScreenV (Fields ''Distance: 1.00 km'' ''ETA: NaN min'')"
    unfolding settledV_value[OF noDurationRoute_values(1,2)]
    by (simp add: noDurationRoute_values renderV_def flyingV_value tripV_value showNumber_def)
  then have r: "renderV (runV (mountV True 0) brokenEventsV)
        = MapScreenV (Fields ''Distance: 1.00 km'' ''ETA: NaN min'')"
    by (simp only: brokenV_run)
  have v: "minDU (run1 (mount1 True 0) brokenEvents1) = Some NaN"
    "minDU (run3 (mount3 True 0) brokenEvents3) = Some NaN"
    "durationMin (runV (mountV True 0) brokenEventsV) = Some NaN"
    by (simp_all only: broken1_run broken3_run brokenV_run broken_values)
  have n: "duration noDurationRoute = NaN" "\<not> geOne NaN" "\<not> isFin (NaN :: int number)"
    by (simp_all add: noDurationRoute_def geOne_def isFin_def)
  show ?thesis
    by (intro conjI) (fact r v n)+
qed

lemma haversineKm_degree: "haversineKm (0, 1) (0, 0) = 6371 * pi / 180"
proof -
  have p: "0 \<le> sin (pi / 360)" by (intro sin_ge_zero) auto
  have "arcsin (sin (pi / 360)) = pi / 360"
    by (intro arcsin_sin) auto
  then show ?thesis using p
    by (simp add: haversineKm_def Let_def power2_eq_square real_sqrt_mult_self)
qed

lemma degree_eta: "170 \<le> jsRound ((haversineKm (0, 1) (0, 0) / 25) * 60)"
proof -
  have "170 \<le> (6371 * 2 / 180 / 25) * 60 + 1 / (2::real)" by simp
  also have "\<dots> \<le> (6371 * pi / 180 / 25) * 60 + 1 / 2" using pi_ge_two by simp
  finally show ?thesis unfolding haversineKm_degree jsRound_def by (simp add: le_floor_iff)
qed

lemma degree1_value: "run1 (mount1 True 0) degreeEvents =
   \<lparr>position = Some (0, 0), accuracy = Some 5, driver = Some (0, 1), dest = Some (0, 0),
    routeDU = [], routeUD = [], kmDU = Some (toFixed2 (haversineKm (0, 1) (0, 0))),
    minDU = Some (fallbackEta (haversineKm (0, 1) (0, 0))), kmUD = Some ''0.00'', minUD = Some (Fin 1),
    loadingDU = False, loadingUD = False, error = '''', tapMode = None, clock = 0, watching = True,
    timers = [\<lparr>due = 300, t_leg = DU, t_from = Some (0, 1), t_to = Some (0, 0)\<rparr>,
              \<lparr>due = 300, t_leg = UD, t_from = Some (0, 0), t_to = Some (0, 0)\<rparr>],
    requests = [], inflight = []\<rparr>"
  by (simp add: degreeEvents_def model_defs origin_simps DEBOUNCE1_def)


lemma fallback_eta_values:
  "driver s1 = Some dr \<and> position s1 = Some p \<Longrightarrow>
     minDU (fallbackDU1 s1) = Some (Fin (max 1 (jsRound ((haversineKm dr p / 25) * 60))))"
  "position s1 = Some p \<and> dest s1 = Some d \<Longrightarrow>
     minUD (fallbackUD1 s1) = Some (Fin (max 1 (jsRound ((haversineKm p d / 25) * 60))))"
  "driver s3 = Some dr \<and> position s3 = Some p \<Longrightarrow>
     minDU (fallbackDU3 s3) = Some (Fin (max 1 (jsRound ((haversineKm dr p / 25) * 60))))"
  "position s3 = Some p \<and> dest s3 = Some d \<Longrightarrow>
     minUD (fallbackUD3 s3) = Some (Fin (max 1 (jsRound ((haversineKm p d / 25) * 60))))"
  "positionV sV = Some p \<and> destV sV = Some d \<Longrightarrow>
     durationMin (fallbackV sV)
       = Some (Fin (max 1 (jsRound ((chainKm ([p] @ vias sV @ [d]) 0 0 / 25) * 60))))"
  by (simp_all add: fallbackDU1_def fallbackUD1_def fallbackDU3_def fallbackUD3_def fallbackV_def
      isLatLng_def Let_def fallbackEta_value)

lemma route_eta_written:
  "minDU (applyRoute DU r s) = Some (mathMax1 (mathRound (divideBy (duration r) 60)))"
  "minUD (applyRoute UD r s) = Some (mathMax1 (mathRound (divideBy (duration r) 60)))"
  "k \<notin> canceledRuns sV \<Longrightarrow>
     durationMin (settleV k (Body (r # rs)) sV) = Some (mathMax1 (mathRound (divideBy (duration r) 60)))"
  by (simp_all add: applyRoute_def settleV_def awaitRoute_def routeEta_def Let_def)

text \<open>
  Claim C9, amended. The fallback effects write \<open>Math.max(1, Math.round((km / 25) * 60))\<close>,
  an integer of at least 1. A route that is applied writes
  \<open>Math.max(1, Math.round(r.duration / 60))\<close>, which is an integer of at least 1 when the
  duration is a finite number. So in every state reached by events whose responses have
  routes with finite durations, in each of the three versions, an estimate that is stored
  is an integer of at least 1, and so is the total whenever it is shown. In every
  reachable state whatsoever an estimate that is stored is such an integer, the positive
  infinity or \<open>NaN\<close>.
\<close>

theorem eta_at_least_one_minute:
  "(driver s1 = Some dr1 \<and> position s1 = Some p1 \<longrightarrow>
      minDU (fallbackDU1 s1) = Some (Fin (max 1 (jsRound ((haversineKm dr1 p1 / 25) * 60)))))
   \<and> (position s1 = Some p1 \<and> dest s1 = Some d1 \<longrightarrow>
      minUD (fallbackUD1 s1) = Some (Fin (max 1 (jsRound ((haversineKm p1 d1 / 25) * 60)))))
   \<and> (driver s3 = Some dr3 \<and> position s3 = Some p3 \<longrightarrow>
      minDU (fallbackDU3 s3) = Some (Fin (max 1 (jsRound ((haversineKm dr3 p3 / 25) * 60)))))
   \<and> (position s3 = Some p3 \<and> dest s3 = Some d3 \<longrightarrow>
      minUD (fallbackUD3 s3) = Some (Fin (max 1 (jsRound ((haversineKm p3 d3 / 25) * 60)))))
   \<and> (positionV sV = Some pV \<and> destV sV = Some dV \<longrightarrow>
      durationMin (fallbackV sV)
        = Some (Fin (max 1 (jsRound ((chainKm ([pV] @ vias sV @ [dV]) 0 0 / 25) * 60)))))
   \<and> minDU (applyRoute DU r s1) = Some (mathMax1 (mathRound (divideBy (duration r) 60)))
   \<and> minUD (applyRoute UD r s1) = Some (mathMax1 (mathRound (divideBy (duration r) 60)))
   \<and> minDU (applyRoute DU r s3) = Some (mathMax1 (mathRound (divideBy (duration r) 60)))
   \<and> minUD (applyRoute UD r s3) = Some (mathMax1 (mathRound (divideBy (duration r) 60)))
   \<and> (k \<notin> canceledRuns sV \<longrightarrow>
        durationMin (settleV k (Body (r # rs)) sV) = Some (mathMax1 (mathRound (divideBy (duration r) 60))))
   \<and> (duration r = Fin x \<longrightarrow>
        mathMax1 (mathRound (divideBy (duration r) 60)) = Fin (max 1 (jsRound (x / 60))))
   \<and> (list_all numericEvent es1 \<longrightarrow>
        (minDU (run1 (mount1 geo t0) es1) = Some a1 \<longrightarrow> (\<exists>n. a1 = Fin n \<and> 1 \<le> n))
      \<and> (minUD (run1 (mount1 geo t0) es1) = Some b1 \<longrightarrow> (\<exists>n. b1 = Fin n \<and> 1 \<le> n))
      \<and> (totalMin (run1 (mount1 geo t0) es1) = Some c1 \<longrightarrow> (\<exists>n. c1 = Fin n \<and> 1 \<le> n)))
   \<and> (list_all numericEvent es3 \<longrightarrow>
        (minDU (run3 (mount3 geo t0) es3) = Some a3 \<longrightarrow> (\<exists>n. a3 = Fin n \<and> 1 \<le> n))
      \<and> (minUD (run3 (mount3 geo t0) es3) = Some b3 \<longrightarrow> (\<exists>n. b3 = Fin n \<and> 1 \<le> n))
      \<and> (totalMin (run3 (mount3 geo t0) es3) = Some c3 \<longrightarrow> (\<exists>n. c3 = Fin n \<and> 1 \<le> n)))
   \<and> (list_all numericEventV esV \<longrightarrow>
        (durationMin (runV (mountV geo t0) esV) = Some mV \<longrightarrow> (\<exists>n. mV = Fin n \<and> 1 \<le> n)))
   \<and> (minDU (run1 (mount1 geo t0) fs1) = Some x1 \<longrightarrow> x1 = NaN \<or> x1 = PosInf \<or> (\<exists>n. x1 = Fin n \<and> 1 \<le> n))
   \<and> (minUD (run1 (mount1 geo t0) fs1) = Some y1 \<longrightarrow> y1 = NaN \<or> y1 = PosInf \<or> (\<exists>n. y1 = Fin n \<and> 1 \<le> n))
   \<and> (minDU (run3 (mount3 geo t0) fs3) = Some x3 \<longrightarrow> x3 = NaN \<or> x3 = PosInf \<or> (\<exists>n. x3 = Fin n \<and> 1 \<le> n))
   \<and> (minUD (run3 (mount3 geo t0) fs3) = Some y3 \<longrightarrow> y3 = NaN \<or> y3 = PosInf \<or> (\<exists>n. y3 = Fin n \<and> 1 \<le> n))
   \<and> (durationMin (runV (mountV geo t0) fsV) = Some xV \<longrightarrow> xV = NaN \<or> xV = PosInf \<or> (\<exists>n. xV = Fin n \<and> 1 \<le> n))"
proof (intro conjI impI)
  have l1: "etaInv False (run1 (mount1 geo t0) fs1)" by (rule etaInv_run1) simp
  have l3: "etaInv False (run3 (mount3 geo t0) fs3)" by (rule etaInv_run3) simp
  have lV: "atLeastOne False (durationMin (runV (mountV geo t0) fsV))" by (rule eta_runV) simp
  {
    assume "minDU (run1 (mount1 geo t0) fs1) = Some x1"
    then show "x1 = NaN \<or> x1 = PosInf \<or> (\<exists>n. x1 = Fin n \<and> 1 \<le> n)"
      using l1 by (intro etaOk_any) (simp add: etaInv_def atLeastOne_def)
  }
  {
    assume "minUD (run1 (mount1 geo t0) fs1) = Some y1"
    then show "y1 = NaN \<or> y1 = PosInf \<or> (\<exists>n. y1 = Fin n \<and> 1 \<le> n)"
      using l1 by (intro etaOk_any) (simp add: etaInv_def atLeastOne_def)
  }
  {
    assume "minDU (run3 (mount3 geo t0) fs3) = Some x3"
    then show "x3 = NaN \<or> x3 = PosInf \<or> (\<exists>n. x3 = Fin n \<and> 1 \<le> n)"
      using l3 by (intro etaOk_any) (simp add: etaInv_def atLeastOne_def)
  }
  {
    assume "minUD (run3 (mount3 geo t0) fs3) = Some y3"
    then show "y3 = NaN \<or> y3 = PosInf \<or> (\<exists>n. y3 = Fin n \<and> 1 \<le> n)"
      using l3 by (intro etaOk_any) (simp add: etaInv_def atLeastOne_def)
  }
  {
    assume "durationMin (runV (mountV geo t0) fsV) = Some xV"
    then show "xV = NaN \<or> xV = PosInf \<or> (\<exists>n. xV = Fin n \<and> 1 \<le> n)"
      using lV by (intro etaOk_any) (simp add: atLeastOne_def)
  }
next
  assume n: "list_all numericEvent es1"
  have inv: "etaInv True (run1 (mount1 geo t0) es1)" using n by (intro etaInv_run1)
  {
    assume "minDU (run1 (mount1 geo t0) es1) = Some a1"
    then show "\<exists>n. a1 = Fin n \<and> 1 \<le> n" using inv by (intro etaOk_numeric) (simp add: etaInv_def atLeastOne_def)
  }
  {
    assume "minUD (run1 (mount1 geo t0) es1) = Some b1"
    then show "\<exists>n. b1 = Fin n \<and> 1 \<le> n" using inv by (intro etaOk_numeric) (simp add: etaInv_def atLeastOne_def)
  }
  {
    assume "totalMin (run1 (mount1 geo t0) es1) = Some c1"
    then show "\<exists>n. c1 = Fin n \<and> 1 \<le> n" using totalMin_ok[OF inv] by (intro etaOk_numeric) simp
  }
next
  assume n: "list_all numericEvent es3"
  have inv: "etaInv True (run3 (mount3 geo t0) es3)" using n by (intro etaInv_run3)
  {
    assume "minDU (run3 (mount3 geo t0) es3) = Some a3"
    then show "\<exists>n. a3 = Fin n \<and> 1 \<le> n" using inv by (intro etaOk_numeric) (simp add: etaInv_def atLeastOne_def)
  }
  {
    assume "minUD (run3 (mount3 geo t0) es3) = Some b3"
    then show "\<exists>n. b3 = Fin n \<and> 1 \<le> n" using inv by (intro etaOk_numeric) (simp add: etaInv_def atLeastOne_def)
  }
  {
    assume "totalMin (run3 (mount3 geo t0) es3) = Some c3"
    then show "\<exists>n. c3 = Fin n \<and> 1 \<le> n" using totalMin_ok[OF inv] by (intro etaOk_numeric) simp
  }
next
  assume n: "list_all numericEventV esV" and "durationMin (runV (mountV geo t0) esV) = Some mV"
  then show "\<exists>n. mV = Fin n \<and> 1 \<le> n"
    using eta_runV[of True esV geo t0] by (intro etaOk_numeric) (simp add: atLeastOne_def)
next
  assume "duration r = Fin x"
  then show "mathMax1 (mathRound (divideBy (duration r) 60)) = Fin (max 1 (jsRound (x / 60)))"
    using routeEta_value[of x] by (simp add: routeEta_def)
qed (simp_all add: fallback_eta_values route_eta_written)

lemma numeric_routed:
  "list_all numericEvent routedEvents1" "list_all numericEvent routedEvents3"
  "list_all numericEventV routedEventsV"
  by (simp_all add: routedEvents1_def routedEvents3_def routedEventsV_def tripEvents_def tripEventsV_def
      numericEvent_def numericEventV_def numericDuration_def tenMinuteRoute_def isFin_def)

lemma routed_values:
  "minDU (step1 flying1 (Settles 0 (Body [tenMinuteRoute]))) = Some (Fin 10)"
  "minUD (step1 flying1 (Settles 0 (Body [tenMinuteRoute]))) = Some (Fin 1)"
  "totalMin (step1 flying1 (Settles 0 (Body [tenMinuteRoute]))) = Some (Fin 11)"
  "minDU (step3 flying3 (Settles 0 (Body [tenMinuteRoute]))) = Some (Fin 10)"
  "minUD (step3 flying3 (Settles 0 (Body [tenMinuteRoute]))) = Some (Fin 1)"
  "totalMin (step3 flying3 (Settles 0 (Body [tenMinuteRoute]))) = Some (Fin 11)"
  "durationMin (stepV flyingV (SettlesV 0 (Body [tenMinuteRoute]))) = Some (Fin 10)"
  unfolding settled1_value[OF tenMinuteRoute_values(1,2)] settled3_value[OF tenMinuteRoute_values(1,2)]
    settledV_value[OF tenMinuteRoute_values(1,2)]
  by (simp_all add: tenMinuteRoute_values
      flying1_value flying3_value flyingV_value trip1_value trip3_value tripV_value
      totalMin_def orZero_def truthy_def plusNumber_def positive_def)

theorem eta_at_least_one_minute_witness:
  "driver (run1 (mount1 True 0) degreeEvents) = Some (0, 1)
   \<and> position (run1 (mount1 True 0) degreeEvents) = Some (0, 0)
   \<and> dest (run1 (mount1 True 0) degreeEvents) = Some (0, 0)
   \<and> minDU (fallbackDU1 (run1 (mount1 True 0) degreeEvents))
        = Some (Fin (max 1 (jsRound ((haversineKm (0, 1) (0, 0) / 25) * 60))))
   \<and> 170 \<le> jsRound ((haversineKm (0, 1) (0, 0) / 25) * 60)
   \<and> minUD (fallbackUD1 (run1 (mount1 True 0) degreeEvents)) = Some (Fin 1)
   \<and> driver trip3 = Some (0, 0) \<and> position trip3 = Some (0, 0) \<and> dest trip3 = Some (0, 0)
   \<and> minDU (fallbackDU3 trip3) = Some (Fin 1) \<and> minUD (fallbackUD3 trip3) = Some (Fin 1)
   \<and> positionV tripV = Some (0, 0) \<and> destV tripV = Some (0, 0)
   \<and> durationMin (fallbackV tripV) = Some (Fin 1)
   \<and> duration tenMinuteRoute = Fin 600
   \<and> minDU (applyRoute DU tenMinuteRoute (run1 (mount1 True 0) degreeEvents)) = Some (Fin 10)
   \<and> minUD (applyRoute UD tenMinuteRoute trip3) = Some (Fin 10)
   \<and> 0 \<notin> canceledRuns tripV
   \<and> durationMin (settleV 0 (Body [tenMinuteRoute]) tripV) = Some (Fin 10)
   \<and> list_all numericEvent routedEvents1
   \<and> minDU (run1 (mount1 True 0) routedEvents1) = Some (Fin 10)
   \<and> minUD (run1 (mount1 True 0) routedEvents1) = Some (Fin 1)
   \<and> totalMin (run1 (mount1 True 0) routedEvents1) = Some (Fin 11)
   \<and> list_all numericEvent routedEvents3
   \<and> minDU (run3 (mount3 True 0) routedEvents3) = Some (Fin 10)
   \<and> minUD (run3 (mount3 True 0) routedEvents3) = Some (Fin 1)
   \<and> totalMin (run3 (mount3 True 0) routedEvents3) = Some (Fin 11)
   \<and> list_all numericEventV routedEventsV
   \<and> durationMin (runV (mountV True 0) routedEventsV) = Some (Fin 10)
   \<and> minDU (run1 (mount1 True 0) brokenEvents1) = Some NaN
   \<and> minUD (run1 (mount1 True 0) brokenEvents1) = Some (Fin 1)
   \<and> minDU (run3 (mount3 True 0) brokenEvents3) = Some NaN
   \<and> minUD (run3 (mount3 True 0) brokenEvents3) = Some (Fin 1)
   \<and> durationMin (runV (mountV True 0) brokenEventsV) = Some NaN"
proof -
  let ?d = "run1 (mount1 True 0) degreeEvents"
  note t = eta_at_least_one_minute[where ?s1.0 = ?d
      and ?dr1.0 = "(0, 1)" and ?p1.0 = "(0, 0)" and ?d1.0 = "(0, 0)"
      and ?s3.0 = trip3 and ?dr3.0 = "(0, 0)" and ?p3.0 = "(0, 0)" and ?d3.0 = "(0, 0)"
      and sV = tripV and pV = "(0, 0)" and dV = "(0, 0)"
      and r = tenMinuteRoute and x = 600 and k = 0 and rs = "[]"
      and ?es1.0 = routedEvents1 and ?es3.0 = routedEvents3 and esV = routedEventsV
      and geo = True and ?t0.0 = 0
      and ?a1.0 = "Fin 10" and ?b1.0 = "Fin 1" and ?c1.0 = "Fin 11"
      and ?a3.0 = "Fin 10" and ?b3.0 = "Fin 1" and ?c3.0 = "Fin 11" and mV = "Fin 10"
      and ?fs1.0 = brokenEvents1 and ?fs3.0 = brokenEvents3 and fsV = brokenEventsV
      and ?x1.0 = NaN and ?y1.0 = "Fin 1" and ?x3.0 = NaN and ?y3.0 = "Fin 1" and xV = NaN]
  have h: "driver ?d = Some (0, 1)" "position ?d = Some (0, 0)" "dest ?d = Some (0, 0)"
    by (simp_all add: degree1_value)
  have 1: "minDU (fallbackDU1 ?d) = Some (Fin (max 1 (jsRound ((haversineKm (0, 1) (0, 0) / 25) * 60))))"
    using t h by blast
  have 2: "minUD (fallbackUD1 ?d) = Some (Fin 1)"
    by (simp add: degree1_value fallbackUD1_def isLatLng_def origin_simps)
  have 3: "driver trip3 = Some (0, 0)" "position trip3 = Some (0, 0)" "dest trip3 = Some (0, 0)"
    "minDU (fallbackDU3 trip3) = Some (Fin 1)" "minUD (fallbackUD3 trip3) = Some (Fin 1)"
    by (simp_all add: trip3_value fallbackDU3_def fallbackUD3_def isLatLng_def origin_simps)
  have 4: "positionV tripV = Some (0, 0)" "destV tripV = Some (0, 0)"
    "durationMin (fallbackV tripV) = Some (Fin 1)" "0 \<notin> canceledRuns tripV"
    by (simp_all add: tripV_value fallbackV_def isLatLng_def origin_simps chainKm_origin3)
  have 5: "minDU (applyRoute DU tenMinuteRoute ?d) = Some (Fin 10)"
    "minUD (applyRoute UD tenMinuteRoute trip3) = Some (Fin 10)"
    "durationMin (settleV 0 (Body [tenMinuteRoute]) tripV) = Some (Fin 10)"
    using 4(4) by (simp_all add: applyRoute_def settleV_def awaitRoute_def tenMinuteRoute_values)
  have 6: "minDU (run1 (mount1 True 0) routedEvents1) = Some (Fin 10)"
    "minUD (run1 (mount1 True 0) routedEvents1) = Some (Fin 1)"
    "totalMin (run1 (mount1 True 0) routedEvents1) = Some (Fin 11)"
    "minDU (run3 (mount3 True 0) routedEvents3) = Some (Fin 10)"
    "minUD (run3 (mount3 True 0) routedEvents3) = Some (Fin 1)"
    "totalMin (run3 (mount3 True 0) routedEvents3) = Some (Fin 11)"
    "durationMin (runV (mountV True 0) routedEventsV) = Some (Fin 10)"
    by (simp_all add: routed1_run routed3_run routedV_run routed_values)
  have 7: "minDU (run1 (mount1 True 0) brokenEvents1) = Some NaN"
    "minUD (run1 (mount1 True 0) brokenEvents1) = Some (Fin 1)"
    "minDU (run3 (mount3 True 0) brokenEvents3) = Some NaN"
    "minUD (run3 (mount3 True 0) brokenEvents3) = Some (Fin 1)"
    "durationMin (runV (mountV True 0) brokenEventsV) = Some NaN"
    by (simp_all only: broken1_run broken3_run brokenV_run broken_values)
  show ?thesis
    by (intro conjI) (fact h 1 2 3 4 5 6 7 degree_eta numeric_routed tenMinuteRoute_values)+
qed

end
